(* ===== verification/Utils.thy ===== *)
theory Utils
  imports Go_Prelude
begin

text \<open>
  Package \<open>internal/utils\<close>: the string helpers of \<open>strings.go\<close>, the set helpers of
  \<open>list.go\<close>, \<open>int.go\<close>, the feature flags of \<open>feature.go\<close> and the log level helpers of
  \<open>logging.go\<close>. The lemmas relate the optimised string routines to their specifications:
  the sort-based \<open>LongestCommonPrefix\<close> to the longest common prefix of the whole set, the
  scanning \<open>StringOverlap\<close> to the longest overlap.
\<close>

section \<open>Definitions\<close>

subsection \<open>strings.go\<close>

text \<open>
  \<open>string(b)\<close> for a byte \<open>b\<close> is the UTF-8 encoding of the code point \<open>b\<close>: one byte below
  128, two bytes otherwise.
\<close>

definition byte_string :: "char \<Rightarrow> string" where
  "byte_string c =
     (let n = (of_char c :: nat)
      in if n < 128 then [c] else [char_of (192 + n div 64), char_of (128 + n mod 64)])"

fun lcp_scan :: "string \<Rightarrow> string \<Rightarrow> string go" where
  "lcp_scan [] l = Ret []"
| "lcp_scan (a # as) [] = Panic ''index out of range''"
| "lcp_scan (a # as) (b # bs) =
     (if byte_string b = byte_string a
      then go_bind (lcp_scan as bs) (\<lambda>r. Ret (byte_string b @ r))
      else Ret [])"

definition LongestCommonPrefix :: "string list \<Rightarrow> string go" where
  "LongestCommonPrefix strs =
     (if 0 < length strs
      then let sorted_strs = sort strs in lcp_scan (hd sorted_strs) (last sorted_strs)
      else Ret [])"

definition Max :: "int \<Rightarrow> int \<Rightarrow> int" where
  "Max x y = (if x > y then x else y)"

function overlap_from :: "nat \<Rightarrow> string \<Rightarrow> string \<Rightarrow> string" where
  "overlap_from i a b =
     (if i < length a
      then if HasPrefix b (drop i a) then drop i a else overlap_from (Suc i) a b
      else [])"
  by pat_completeness auto
termination by (relation "measure (\<lambda>(i, a, b). length a - i)") auto

declare overlap_from.simps [simp del]

definition StringOverlap :: "string \<Rightarrow> string \<Rightarrow> string" where
  "StringOverlap a b = overlap_from (nat (Max 0 (int (length a) - int (length b)))) a b"

fun HasPrefixes :: "string \<Rightarrow> string list \<Rightarrow> bool" where
  "HasPrefixes s [] = False"
| "HasPrefixes s (p # ps) = (if HasPrefix s p then True else HasPrefixes s ps)"

fun TrimPrefixes :: "string \<Rightarrow> string list \<Rightarrow> string" where
  "TrimPrefixes s [] = s"
| "TrimPrefixes s (p # ps) = TrimPrefixes (TrimPrefix s p) ps"

definition StringDefault :: "string \<Rightarrow> string \<Rightarrow> string" where
  "StringDefault s d = (if s = [] then d else s)"

subsection \<open>list.go\<close>

text \<open>
  The iteration order of a Go map is unspecified. \<open>uniq\<close> collects the keys of a map built
  from its argument; the model lists them by first occurrence, one of the orders Go may
  choose, and the lemmas speak about the set and the distinctness of the result.
\<close>

fun uniq :: "'a list \<Rightarrow> 'a list" where
  "uniq [] = []"
| "uniq (x # xs) = x # filter (\<lambda>y. y \<noteq> x) (uniq xs)"

definition SetSubstract :: "'a list \<Rightarrow> 'a list \<Rightarrow> 'a list" where
  "SetSubstract a b =
     (let aSet = uniq a; bSet = uniq b in filter (\<lambda>v. v \<notin> set bSet) aSet)"

fun Map :: "'a list \<Rightarrow> ('a \<Rightarrow> 'b) \<Rightarrow> 'b list" where
  "Map [] f = []"
| "Map (x # xs) f = f x # Map xs f"

subsection \<open>feature.go\<close>

abbreviation AutomaticChildApproval :: string where
  "AutomaticChildApproval \<equiv> ''AUTOMATIC_CHILD_APPROVAL''"
abbreviation AutomaticUnchangedApproval :: string where
  "AutomaticUnchangedApproval \<equiv> ''AUTOMATIC_UNCHANGED_APPROVAL''"
abbreviation DetectionMode :: string where
  "DetectionMode \<equiv> ''DETECTION_MODE''"
abbreviation ResourceValidationMode :: string where
  "ResourceValidationMode \<equiv> ''RESOURCE_VALIDATION_MODE''"

definition FeatureFlagOn :: "env \<Rightarrow> string \<Rightarrow> bool" where
  "FeatureFlagOn e flagKey =
     (case ParseBool (Getenv e flagKey) of
        Some flag \<Rightarrow> flag
      | None \<Rightarrow> if flagKey = AutomaticChildApproval then True
                else if flagKey = AutomaticUnchangedApproval then False
                else if flagKey = DetectionMode then False
                else False)"

definition BlockAllResources :: "env \<Rightarrow> bool" where
  "BlockAllResources e =
     (let rvm = ToLower (Getenv e ResourceValidationMode)
      in if rvm = ''all'' then True else if rvm = ''podsonly'' then False else True)"

subsection \<open>logging.go\<close>

datatype Level = DebugLevel | InfoLevel | WarnLevel | ErrorLevel | FatalLevel
datatype LogFormat = LogFormatJson | LogFormatJsonPretty

definition LogLevel :: "string \<Rightarrow> Level" where
  "LogLevel s =
     (let l = ToLower s
      in if l = ''debug'' then DebugLevel else if l = ''info'' then InfoLevel
         else if l = ''warn'' then WarnLevel else if l = ''error'' then ErrorLevel
         else if l = ''fatal'' then FatalLevel else InfoLevel)"

definition ConnaisseurLogLevel :: "env \<Rightarrow> Level" where
  "ConnaisseurLogLevel e = LogLevel (Getenv e ''LOG_LEVEL'')"

definition logFormat :: "string \<Rightarrow> LogFormat" where
  "logFormat s =
     (let l = ToLower s
      in if l = ''json'' then LogFormatJson else if l = ''json-pretty'' then LogFormatJsonPretty
         else LogFormatJsonPretty)"

definition ConnaisseurLogFormat :: "env \<Rightarrow> LogFormat" where
  "ConnaisseurLogFormat e = logFormat (Getenv e ''LOG_FORMAT'')"

text \<open>The loop of \<open>compare\<close> keeps the last index at which each level occurs.\<close>

fun level_index :: "Level \<Rightarrow> int \<Rightarrow> int \<Rightarrow> Level list \<Rightarrow> int" where
  "level_index lv i idx [] = idx"
| "level_index lv i idx (l # ls) = level_index lv (i + 1) (if lv = l then i else idx) ls"

definition compare :: "Level \<Rightarrow> Level \<Rightarrow> int" where
  "compare level1 level2 =
     (let logLevels = [DebugLevel, InfoLevel, WarnLevel, ErrorLevel, FatalLevel];
          idx1 = level_index level1 0 (-1) logLevels;
          idx2 = level_index level2 0 (-1) logLevels;
          diff = idx1 - idx2
      in if diff < 0 then -1 else if diff > 0 then 1 else 0)"

text \<open>Which third-party loggers \<open>InitiateThirdPartyLibraryLogging\<close> redirects.\<close>

definition InitiateThirdPartyLibraryLogging :: "env \<Rightarrow> Level list" where
  "InitiateThirdPartyLibraryLogging e =
     (let currentLevel = ConnaisseurLogLevel e
      in filter (\<lambda>l. compare l currentLevel \<ge> 0) [DebugLevel, InfoLevel, WarnLevel])"

section \<open>LongestCommonPrefix computes the longest common prefix\<close>

lemma byte_string_not_Nil [simp]: "byte_string c \<noteq> []"
  by (simp add: byte_string_def Let_def)

lemma byte_string_ascii: "(of_char c :: nat) < 128 \<Longrightarrow> byte_string c = [c]"
  by (simp add: byte_string_def)

lemma byte_string_inj [simp]: "byte_string a = byte_string b \<longleftrightarrow> a = b"
proof
  assume eq: "byte_string a = byte_string b"
  let ?x = "of_char a :: nat" and ?y = "of_char b :: nat"
  have bounds: "?x < 256" "?y < 256" by simp_all
  show "a = b"
  proof (cases "?x < 128 \<or> ?y < 128")
    case True
    with eq show ?thesis by (auto simp: byte_string_def Let_def split: if_splits)
  next
    case False
    with eq have hi: "char_of (192 + ?x div 64) = (char_of (192 + ?y div 64) :: char)"
      and lo: "char_of (128 + ?x mod 64) = (char_of (128 + ?y mod 64) :: char)"
      by (simp_all add: byte_string_def Let_def)
    have q: "?x div 64 < 4" "?y div 64 < 4" "?x mod 64 < 64" "?y mod 64 < 64"
      using bounds by (simp_all add: less_mult_imp_div_less)
    have "?x div 64 = ?y div 64"
      using arg_cong [OF hi, of "of_char :: char \<Rightarrow> nat"] q by simp
    moreover have "?x mod 64 = ?y mod 64"
      using arg_cong [OF lo, of "of_char :: char \<Rightarrow> nat"] q by simp
    ultimately have "?x = ?y" by (metis mult_div_mod_eq)
    then show ?thesis by simp
  qed
qed simp

lemma lcp_scan_longest:
  "a \<le> b \<Longrightarrow> lcp_scan a b = Ret (concat (map byte_string (longest_common_prefix a b)))"
  by (induction a b rule: lcp_scan.induct) auto

lemma prefix_between:
  fixes a x b :: string
  assumes "a \<le> x" "x \<le> b" "prefix p a" "prefix p b"
  shows "prefix p x"
  using assms
proof (induction p arbitrary: a x b)
  case (Cons c p)
  from Cons.prems(3,4) obtain a' b' where ab: "a = c # a'" "prefix p a'" "b = c # b'" "prefix p b'"
    by (auto simp: prefix_def)
  with Cons.prems obtain y x' where x: "x = y # x'" by (cases x) auto
  with Cons.prems ab have "y = c" by auto
  with Cons x ab show ?case by auto
qed simp

lemma longest_common_prefix_ends:
  assumes "sorted (s :: string list)" and "s \<noteq> []"
  shows "longest_common_prefix (hd s) (last s) = Longest_common_prefix (set s)"
proof (rule Longest_common_prefix_eq [symmetric])
  let ?p = "longest_common_prefix (hd s) (last s)"
  show "set s \<noteq> {}" using assms(2) by simp
  show "\<forall>xs\<in>set s. prefix ?p xs"
  proof
    fix xs assume "xs \<in> set s"
    with assms have "hd s \<le> xs" "xs \<le> last s"
      by (auto simp: in_set_conv_nth hd_conv_nth last_conv_nth sorted_iff_nth_mono)
    then show "prefix ?p xs"
      by (rule prefix_between [OF _ _ longest_common_prefix_prefix1 longest_common_prefix_prefix2])
  qed
  show "\<forall>qs. (\<forall>xs\<in>set s. prefix qs xs) \<longrightarrow> length qs \<le> length ?p"
    using assms(2) by (auto intro!: prefix_length_le longest_common_prefix_max_prefix)
qed

lemma LongestCommonPrefix_eq:
  assumes "strs \<noteq> []"
  shows "LongestCommonPrefix strs = Ret (concat (map byte_string (Longest_common_prefix (set strs))))"
proof -
  let ?s = "sort strs"
  have ne: "?s \<noteq> []" using assms by (metis mset_sort mset_zero_iff)
  from ne have "hd ?s \<le> last ?s"
    using sorted_sort [of strs] by (cases ?s rule: list.exhaust) auto
  with assms ne show ?thesis
    by (simp add: LongestCommonPrefix_def Let_def lcp_scan_longest longest_common_prefix_ends)
qed

lemma LongestCommonPrefix_not_panics [simp]: "\<not> panics (LongestCommonPrefix strs)"
  by (cases "strs = []") (simp_all add: LongestCommonPrefix_eq, simp add: LongestCommonPrefix_def)

text \<open>
  C40 (equivalence). The sort-and-scan routine \<open>LongestCommonPrefix\<close> never indexes out of
  range, and on a non-empty list it returns the longest common prefix of all its strings (each
  byte of it re-encoded by the conversion \<open>string(last[i])\<close>, so unchanged for ASCII).
\<close>

theorem LongestCommonPrefix_correct:
  "LongestCommonPrefix strs =
     (if strs = [] then Ret []
      else Ret (concat (map byte_string (Longest_common_prefix (set strs)))))"
  using LongestCommonPrefix_eq by (simp add: LongestCommonPrefix_def)

lemma concat_byte_string_ascii: "ascii s \<Longrightarrow> concat (map byte_string s) = s"
  by (induction s) (simp_all add: ascii_def byte_string_ascii)

lemma ascii_prefix: "ascii s \<Longrightarrow> prefix p s \<Longrightarrow> ascii p"
  by (auto simp: ascii_def prefix_def)

lemma Longest_common_prefix_pair: "Longest_common_prefix {a, b} = longest_common_prefix a b"
  by (rule Longest_common_prefix_eq)
    (auto simp: longest_common_prefix_prefix1 longest_common_prefix_prefix2
      intro: prefix_length_le longest_common_prefix_max_prefix)

lemma LongestCommonPrefix_pair:
  "ascii a \<Longrightarrow> LongestCommonPrefix [a, b] = Ret (longest_common_prefix a b)"
  by (simp add: LongestCommonPrefix_eq Longest_common_prefix_pair concat_byte_string_ascii
      ascii_prefix [OF _ longest_common_prefix_prefix1])

section \<open>StringOverlap computes the longest overlap\<close>

lemma overlap_from_sound: "suffix (overlap_from i a b) a \<and> prefix (overlap_from i a b) b"
proof (induction i a b rule: overlap_from.induct)
  case (1 i a b)
  then show ?case
    by (auto simp: overlap_from.simps [of i a b] HasPrefix_prefix suffix_drop)
qed

lemma overlap_from_longest:
  "i \<le> j \<Longrightarrow> j \<le> length a \<Longrightarrow> HasPrefix b (drop j a) \<Longrightarrow>
   length a - j \<le> length (overlap_from i a b)"
proof (induction i a b rule: overlap_from.induct)
  case (1 i a b)
  show ?case
  proof (cases "i < length a \<and> \<not> HasPrefix b (drop i a)")
    case True
    with "1.prems" have "i \<noteq> j" by auto
    with "1" True show ?thesis by (simp add: overlap_from.simps [of i a b])
  next
    case False
    with "1.prems" show ?thesis by (auto simp: overlap_from.simps [of i a b])
  qed
qed

lemma StringOverlap_sound: "suffix (StringOverlap a b) a" "prefix (StringOverlap a b) b"
  using overlap_from_sound by (simp_all add: StringOverlap_def)

lemma StringOverlap_longest:
  assumes "suffix x a" and "prefix x b"
  shows "length x \<le> length (StringOverlap a b)"
proof -
  let ?i = "nat (Max 0 (int (length a) - int (length b)))" and ?j = "length a - length x"
  have lx: "length x \<le> length a" "length x \<le> length b"
    using assms by (simp_all add: suffix_length_le prefix_length_le)
  have "x = drop ?j a"
    using assms(1) by (auto simp: suffix_def)
  with assms(2) have "HasPrefix b (drop ?j a)" by (simp add: HasPrefix_prefix)
  moreover have "?i \<le> ?j" using lx by (auto simp: Max_def nat_le_iff of_nat_diff)
  ultimately have "length a - ?j \<le> length (overlap_from ?i a b)"
    by (intro overlap_from_longest) simp_all
  with lx show ?thesis by (simp add: StringOverlap_def)
qed

lemma StringOverlap_eqI:
  assumes "suffix x a" and "prefix x b"
    and "\<And>y. suffix y a \<Longrightarrow> prefix y b \<Longrightarrow> length y \<le> length x"
  shows "StringOverlap a b = x"
proof -
  have "length x = length (StringOverlap a b)"
    using assms StringOverlap_sound StringOverlap_longest by (simp add: le_antisym)
  with assms(2) StringOverlap_sound(2) show ?thesis
    by (metis prefix_length_prefix prefix_order.antisym order_refl)
qed

text \<open>
  \<open>StringOverlap\<close> returns the longest string that is both a suffix of its
  first and a prefix of its second argument; starting the scan at \<open>len(a)-len(b)\<close> loses nothing.
\<close>

theorem StringOverlap_correct:
  "StringOverlap a b = (ARG_MAX length x. suffix x a \<and> prefix x b)"
proof -
  have "is_arg_max length (\<lambda>x. suffix x a \<and> prefix x b) (StringOverlap a b)"
    using StringOverlap_sound StringOverlap_longest by (auto simp: is_arg_max_linorder)
  moreover have "x = StringOverlap a b" if "is_arg_max length (\<lambda>x. suffix x a \<and> prefix x b) x" for x
    using that by (intro StringOverlap_eqI [symmetric]) (auto simp: is_arg_max_linorder)
  ultimately show ?thesis
    unfolding arg_max_def by (metis (mono_tags, lifting) someI_ex)
qed

section \<open>Set helpers\<close>

lemma set_uniq [simp]: "set (uniq xs) = set xs"
  by (induction xs) auto

lemma distinct_uniq [simp]: "distinct (uniq xs)"
  by (induction xs) auto

lemma Map_map [simp]: "Map xs f = map f xs"
  by (induction xs) auto

lemma set_SetSubstract [simp]: "set (SetSubstract a b) = set a - set b"
  by (auto simp: SetSubstract_def Let_def)

lemma SetSubstract_empty_iff: "SetSubstract a b = [] \<longleftrightarrow> set a \<subseteq> set b"
  using set_SetSubstract [of a b] by (metis Diff_eq_empty_iff set_empty)

lemma HasPrefixes_iff: "HasPrefixes s ps \<longleftrightarrow> (\<exists>p\<in>set ps. HasPrefix s p)"
  by (induction ps) auto

section \<open>Feature flags and log levels\<close>

lemma FeatureFlagOn_unset:
  "e k = None \<Longrightarrow> FeatureFlagOn e k \<longleftrightarrow> k = AutomaticChildApproval"
  by (simp add: FeatureFlagOn_def Getenv_def ParseBool_def)

lemma BlockAllResources_iff:
  "BlockAllResources e \<longleftrightarrow> ToLower (Getenv e ResourceValidationMode) \<noteq> ''podsonly''"
  by (auto simp: BlockAllResources_def Let_def)

end
