(* ===== verification/Trust_Auth.thy ===== *)
theory Trust_Auth
  imports Utils
begin

text \<open>
  Package \<open>internal/validator/auth\<close>: trust roots and their lookup by key reference
  (\<open>trust_root.go\<close>), registry credentials and their lookup by image (\<open>LookUp\<close> of
  \<open>auth.go\<close>). The Go map of credentials is an association list whose order is the iteration
  order; the lemmas show that the result does not depend on it.
\<close>

section \<open>Definitions\<close>

subsection \<open>trust_root.go\<close>

record Keyless =
  kl_Issuer :: string
  kl_Subject :: string
  kl_IssuerRegex :: string
  kl_SubjectRegex :: string

record TrustRoot =
  tr_Name :: string
  tr_Key :: string
  tr_Cert :: string
  tr_TSCert :: string
  tr_Keyless :: Keyless

text \<open>The inner loop: the first trust root with the given name.\<close>

fun find_trust_root :: "string \<Rightarrow> TrustRoot list \<Rightarrow> TrustRoot option" where
  "find_trust_root keyRef [] = None"
| "find_trust_root keyRef (tr # trs) = (if tr_Name tr = keyRef then Some tr else find_trust_root keyRef trs)"

text \<open>The loop over the remaining key references at index \<open>idx\<close>; \<open>n\<close> is their total number.\<close>

fun trust_roots_loop ::
  "TrustRoot list \<Rightarrow> nat \<Rightarrow> nat \<Rightarrow> string list \<Rightarrow> TrustRoot list \<Rightarrow> TrustRoot list res" where
  "trust_roots_loop trustRoots n idx [] trustRootsKeys = Inr trustRootsKeys"
| "trust_roots_loop trustRoots n idx (keyRef # keyRefs) trustRootsKeys =
     (if keyRef = ''*'' \<and> n = 1 then Inr trustRoots
      else
        let trustRootsKeys = (case find_trust_root keyRef trustRoots of
                                None \<Rightarrow> trustRootsKeys | Some tr \<Rightarrow> trustRootsKeys @ [tr])
        in if length trustRootsKeys < idx + 1
           then Inl (''unable to find trust root '' @ keyRef)
           else trust_roots_loop trustRoots n (idx + 1) keyRefs trustRootsKeys)"

definition effective_refs :: "string list \<Rightarrow> bool \<Rightarrow> string list" where
  "effective_refs keyRefs useDefaultValue =
     (let noKeyRefProvided = length keyRefs = 0 \<or> (length keyRefs = 1 \<and> keyRefs ! 0 = [])
      in if noKeyRefProvided \<and> useDefaultValue then [''default''] else keyRefs)"

text \<open>
  The early \<open>return trustRoots\<close> of the wildcard leaves the function before the final check for an
  empty result.
\<close>

definition GetTrustRoots :: "string list \<Rightarrow> TrustRoot list \<Rightarrow> bool \<Rightarrow> TrustRoot list res" where
  "GetTrustRoots keyRefs trustRoots useDefaultValue =
     (let keyRefs = effective_refs keyRefs useDefaultValue
      in case trust_roots_loop trustRoots (length keyRefs) 0 keyRefs [] of
           Inl err \<Rightarrow> Inl err
         | Inr trustRootsKeys \<Rightarrow>
             if keyRefs = [''*''] then Inr trustRootsKeys
             else if length trustRootsKeys = 0
             then Inl (''no trust roots defined for key references '' @ fmt_slice keyRefs)
             else Inr trustRootsKeys)"

subsection \<open>auth.go: credentials\<close>

record AuthEntry =
  ae_Username :: string
  ae_Password :: string

record Auth =
  AuthConfigs :: "(string \<times> AuthEntry) list"
  UseKeychain :: bool

definition zero_AuthEntry :: AuthEntry where
  "zero_AuthEntry = \<lparr>ae_Username = [], ae_Password = []\<rparr>"

fun best_hit :: "string \<Rightarrow> string \<Rightarrow> string list \<Rightarrow> string" where
  "best_hit img bestHit [] = bestHit"
| "best_hit img bestHit (k # ks) =
     best_hit img (if length k > length bestHit then if HasPrefix img k then k else bestHit
                   else bestHit) ks"

definition LookUp :: "Auth \<Rightarrow> string \<Rightarrow> AuthEntry" where
  "LookUp a img =
     (let bestHit = best_hit img [] (map fst (AuthConfigs a))
      in if bestHit \<noteq> []
         then case map_of (AuthConfigs a) bestHit of Some e \<Rightarrow> e | None \<Rightarrow> zero_AuthEntry
         else zero_AuthEntry)"

section \<open>Trust roots\<close>

lemma find_trust_root_Some:
  "find_trust_root k trs = Some tr \<Longrightarrow> tr \<in> set trs \<and> tr_Name tr = k"
  by (induction trs) (auto split: if_splits)

lemma find_trust_root_None: "find_trust_root k trs = None \<longleftrightarrow> k \<notin> tr_Name ` set trs"
  by (induction trs) auto

lemma those_map_Some: "those (map f xs) = Some ys \<longleftrightarrow> list_all2 (\<lambda>x y. f x = Some y) xs ys"
  by (induction xs arbitrary: ys) (auto simp: list_all2_Cons1 split: option.splits)

lemma trust_roots_loop_Inr:
  assumes "\<not> (n = 1 \<and> ''*'' \<in> set refs)" and "length acc = idx"
  shows "trust_roots_loop trs n idx refs acc = Inr out \<longleftrightarrow>
    (\<exists>new. out = acc @ new \<and> those (map (\<lambda>k. find_trust_root k trs) refs) = Some new)"
  using assms
proof (induction trs n idx refs acc rule: trust_roots_loop.induct)
  case (2 trs n idx k ks acc)
  then show ?case
    by (cases "find_trust_root k trs") auto
qed auto

lemma trust_roots_loop_Inl:
  assumes "length acc = idx" and "trust_roots_loop trs n idx refs acc = Inl err"
  shows "\<exists>k\<in>set refs. k \<notin> tr_Name ` set trs \<and> err = ''unable to find trust root '' @ k"
  using assms
proof (induction trs n idx refs acc rule: trust_roots_loop.induct)
  case (2 trs n idx k ks acc)
  show ?case
  proof (cases "find_trust_root k trs")
    case None
    with "2.prems" have "err = ''unable to find trust root '' @ k"
      by (simp split: if_splits)
    with None show ?thesis by (simp add: find_trust_root_None)
  next
    case (Some tr)
    with 2 show ?thesis by (force split: if_splits)
  qed
qed auto

lemma not_single_star: "refs \<noteq> [''*''] \<Longrightarrow> \<not> (length refs = 1 \<and> ''*'' \<in> set refs)"
  by (auto simp: length_Suc_conv)

lemma GetTrustRoots_Inr:
  "GetTrustRoots keyRefs trs d = Inr out \<longleftrightarrow>
     (let refs = effective_refs keyRefs d
      in if refs = [''*''] then out = trs
         else refs \<noteq> [] \<and> those (map (\<lambda>k. find_trust_root k trs) refs) = Some out)"
proof -
  let ?refs = "effective_refs keyRefs d"
  let ?loop = "trust_roots_loop trs (length ?refs) 0 ?refs []"
  show ?thesis
  proof (cases "?refs = [''*'']")
    case True
    then show ?thesis by (auto simp: GetTrustRoots_def Let_def)
  next
    case False
    have loop: "?loop = Inr x \<longleftrightarrow>
        those (map (\<lambda>k. find_trust_root k trs) ?refs) = Some x" for x
      using trust_roots_loop_Inr [OF not_single_star [OF False], of "[]" 0 trs x] by auto
    have "?refs = []" if "those (map (\<lambda>k. find_trust_root k trs) ?refs) = Some []"
      using that by (simp add: those_map_Some)
    then have empty: "?loop \<noteq> Inr []" if "?refs \<noteq> []" using that loop by metis
    have "GetTrustRoots keyRefs trs d =
        (case ?loop of Inl err \<Rightarrow> Inl err
         | Inr ks \<Rightarrow> if length ks = 0
             then Inl (''no trust roots defined for key references '' @ fmt_slice ?refs) else Inr ks)"
      unfolding GetTrustRoots_def Let_def if_not_P [OF False] ..
    also have "\<dots> = Inr out \<longleftrightarrow> ?refs \<noteq> [] \<and> ?loop = Inr out"
      using empty by (cases ?loop; cases "?refs = []") auto
    finally show ?thesis using False loop by (simp add: Let_def)
  qed
qed

lemma found_trust_roots:
  "list_all2 (\<lambda>k tr. find_trust_root k trs = Some tr) refs out \<Longrightarrow>
   set out \<subseteq> set trs \<and> map tr_Name out = refs"
  by (induction rule: list_all2_induct) (auto dest: find_trust_root_Some)

lemma GetTrustRoots_subset:
  assumes "GetTrustRoots refs trs d = Inr out"
  shows "set out \<subseteq> set trs"
  using assms found_trust_roots [of trs "effective_refs refs d" out]
  by (simp add: GetTrustRoots_Inr those_map_Some Let_def split: if_split_asm)

lemma GetTrustRoots_names:
  assumes "GetTrustRoots refs trs d = Inr out" and "effective_refs refs d \<noteq> [''*'']"
  shows "map tr_Name out = effective_refs refs d"
  using assms found_trust_roots [of trs "effective_refs refs d" out]
  by (simp add: GetTrustRoots_Inr those_map_Some Let_def)

text \<open>
  C13 (functional). \<open>GetTrustRoots\<close> succeeds exactly when every key reference resolves: a single
  \<open>*\<close> gives all trust roots, no reference gives \<open>default\<close> where a default is wanted; otherwise the
  result is, for each reference in order, the first trust root of that name. Comparing the number
  of roots found so far with the loop index detects every missing reference.
\<close>

theorem GetTrustRoots_correct:
  "GetTrustRoots keyRefs trs d = Inr out \<longleftrightarrow>
     (let refs = effective_refs keyRefs d
      in if refs = [''*''] then out = trs
         else refs \<noteq> [] \<and> those (map (\<lambda>k. find_trust_root k trs) refs) = Some out)"
  by (rule GetTrustRoots_Inr)

text \<open>
  When \<open>GetTrustRoots\<close> fails, either no reference was given at all, or the error
  names a reference for which no trust root is configured.
\<close>

theorem GetTrustRoots_error:
  assumes "GetTrustRoots keyRefs trs d = Inl err"
  shows "(effective_refs keyRefs d = [] \<and> err = ''no trust roots defined for key references []'') \<or>
         (\<exists>k\<in>set (effective_refs keyRefs d).
            k \<notin> tr_Name ` set trs \<and> err = ''unable to find trust root '' @ k)"
proof -
  let ?refs = "effective_refs keyRefs d"
  consider "trust_roots_loop trs (length ?refs) 0 ?refs [] = Inl err"
    | "trust_roots_loop trs (length ?refs) 0 ?refs [] = Inr []" "?refs \<noteq> [''*'']"
      "err = ''no trust roots defined for key references '' @ fmt_slice ?refs"
    using assms by (auto simp: GetTrustRoots_def Let_def split: sum.splits if_splits)
  then show ?thesis
  proof cases
    case 1
    then show ?thesis using trust_roots_loop_Inl [of "[]" 0] by auto
  next
    case 2
    then have "?refs = []"
      using trust_roots_loop_Inr [OF not_single_star, of ?refs "[]" 0 trs "[]"]
      by (auto simp: those_map_Some)
    with 2 show ?thesis by (simp add: fmt_slice_def)
  qed
qed

theorem GetTrustRoots_error_witness:
  "GetTrustRoots [''alice''] [] True = Inl ''unable to find trust root alice''"
proof -
  obtain err where err: "GetTrustRoots [''alice''] [] True = Inl err"
    by (simp add: GetTrustRoots_def effective_refs_def)
  from GetTrustRoots_error [OF this] err show ?thesis by (simp add: effective_refs_def)
qed

section \<open>Credentials\<close>

definition longer_hit :: "string \<Rightarrow> string \<Rightarrow> string \<Rightarrow> string" where
  "longer_hit img b k = (if length k > length b then if HasPrefix img k then k else b else b)"

lemma best_hit_Cons: "best_hit img b (k # ks) = best_hit img (longer_hit img b k) ks"
  by (simp add: longer_hit_def)

declare best_hit.simps(2) [simp del] best_hit_Cons [simp]

lemma longer_hit_props:
  "length b \<le> length (longer_hit img b k)" "longer_hit img b k \<in> {b, k}"
  "HasPrefix img b \<Longrightarrow> HasPrefix img (longer_hit img b k)"
  "HasPrefix img k \<Longrightarrow> length k \<le> length (longer_hit img b k)"
  by (auto simp: longer_hit_def)

lemma best_hit_prefix: "HasPrefix img b \<Longrightarrow> HasPrefix img (best_hit img b ks)"
  by (induction ks arbitrary: b) (simp_all add: longer_hit_props)

lemma best_hit_member: "best_hit img b ks \<in> insert b (set ks)"
proof (induction ks arbitrary: b)
  case (Cons k ks)
  from Cons [of "longer_hit img b k"] longer_hit_props(2) [of img b k] show ?case by auto
qed simp

lemma best_hit_grows: "length b \<le> length (best_hit img b ks)"
proof (induction ks arbitrary: b)
  case (Cons k ks)
  show ?case using Cons [of "longer_hit img b k"] longer_hit_props(1) [of b img k] by simp
qed simp

lemma best_hit_longest: "k \<in> set ks \<Longrightarrow> HasPrefix img k \<Longrightarrow> length k \<le> length (best_hit img b ks)"
proof (induction ks arbitrary: b)
  case (Cons x ks)
  show ?case
  proof (cases "k = x")
    case True
    with Cons.prems show ?thesis
      using best_hit_grows [of "longer_hit img b x" img ks] longer_hit_props(4) [of img x b] by simp
  next
    case False
    with Cons show ?thesis by simp
  qed
qed simp

lemma best_hit_eqI:
  assumes "k \<in> set ks" "HasPrefix img k"
    and "\<And>k'. k' \<in> set ks \<Longrightarrow> HasPrefix img k' \<Longrightarrow> length k' \<le> length k"
  shows "best_hit img [] ks = k"
proof -
  let ?b = "best_hit img [] ks"
  have "HasPrefix img ?b" and b: "?b = [] \<or> ?b \<in> set ks"
    using best_hit_prefix [of img "[]" ks] best_hit_member [of img "[]" ks] by auto
  moreover have "length k \<le> length ?b" using best_hit_longest [of k ks img] assms(1,2) by auto
  moreover have "length ?b \<le> length k" using b assms(3) \<open>HasPrefix img ?b\<close> by auto
  ultimately show ?thesis using assms(2) by (intro two_prefixes_same_length [of img]) auto
qed

lemma best_hit_same_set:
  assumes "set ks = set ks'"
  shows "best_hit img [] ks = best_hit img [] ks'"
proof -
  have le: "length (best_hit img [] xs) \<le> length (best_hit img [] ys)" if "set xs = set ys" for xs ys
  proof (cases "best_hit img [] xs = []")
    case False
    with best_hit_member [of img "[]" xs] that have "best_hit img [] xs \<in> set ys" by auto
    then show ?thesis by (rule best_hit_longest) (simp add: best_hit_prefix)
  qed simp
  show ?thesis
    by (rule two_prefixes_same_length [of img])
      (simp_all add: best_hit_prefix le_antisym [OF le [OF assms] le [OF assms [symmetric]]])
qed

lemma LookUp_longest:
  assumes "map_of (AuthConfigs a) k = Some e" "k \<noteq> []" "HasPrefix img k"
    and "\<And>k'. k' \<in> dom (map_of (AuthConfigs a)) \<Longrightarrow> HasPrefix img k' \<Longrightarrow> length k' \<le> length k"
  shows "LookUp a img = e"
proof -
  have "k \<in> set (map fst (AuthConfigs a))" using map_of_SomeD [OF assms(1)] by force
  then have "best_hit img [] (map fst (AuthConfigs a)) = k"
    using assms(3,4) by (intro best_hit_eqI) (auto simp: dom_map_of_conv_image_fst)
  with assms show ?thesis by (simp add: LookUp_def)
qed

lemma LookUp_none:
  assumes "\<And>k. k \<in> dom (map_of (AuthConfigs a)) \<Longrightarrow> HasPrefix img k \<Longrightarrow> k = []"
  shows "LookUp a img = zero_AuthEntry"
  using best_hit_prefix [of img "[]"] best_hit_member [of img "[]" "map fst (AuthConfigs a)"] assms
  by (auto simp: LookUp_def Let_def dom_map_of_conv_image_fst)

text \<open>
  \<open>LookUp\<close> returns the credentials of the longest configured key that is a
  prefix of the image, and the empty entry when no non-empty key is; the unspecified iteration
  order of the map has no influence.
\<close>

theorem LookUp_longest_prefix:
  assumes "map_of (AuthConfigs a) k = Some e" and "k \<noteq> []" and "HasPrefix img k"
    and "\<forall>k'\<in>dom (map_of (AuthConfigs a)). HasPrefix img k' \<longrightarrow> length k' \<le> length k"
  shows "LookUp a img = e"
  using assms by (intro LookUp_longest) auto

theorem LookUp_longest_prefix_witness:
  "LookUp \<lparr>AuthConfigs = [(''reg.io'', \<lparr>ae_Username = ''u'', ae_Password = ''p''\<rparr>),
                         (''reg.io/team'', \<lparr>ae_Username = ''t'', ae_Password = ''q''\<rparr>)],
          UseKeychain = False\<rparr> ''reg.io/team/app'' = \<lparr>ae_Username = ''t'', ae_Password = ''q''\<rparr>"
  by (rule LookUp_longest_prefix [of _ "''reg.io/team''"]) (simp_all add: HasPrefix_def)

text \<open>
  Two maps with the same contents give the same credentials for every image,
  whatever order their entries are visited in.
\<close>

theorem LookUp_order_irrelevant:
  assumes "map_of (AuthConfigs a) = map_of (AuthConfigs b)"
  shows "LookUp a img = LookUp b img"
proof -
  have "set (map fst (AuthConfigs a)) = set (map fst (AuthConfigs b))"
    using arg_cong [OF assms, of dom] by (simp add: dom_map_of_conv_image_fst)
  from best_hit_same_set [OF this] assms show ?thesis by (simp add: LookUp_def Let_def)
qed

theorem LookUp_order_irrelevant_witness:
  "LookUp \<lparr>AuthConfigs = [(''a'', x), (''ab'', y)], UseKeychain = False\<rparr> ''abc'' =
   LookUp \<lparr>AuthConfigs = [(''ab'', y), (''a'', x)], UseKeychain = False\<rparr> ''abc''"
  by (rule LookUp_order_irrelevant) auto

text \<open>
  The prefix test of \<open>LookUp\<close> does not stop at a registry or path boundary: the
  credentials of a key are returned for every image whose name continues the key in any way, so
  those of \<open>reg.io\<close> also for an image of the host \<open>reg.io.example.com\<close>.
\<close>

theorem LookUp_ignores_boundary:
  "LookUp \<lparr>AuthConfigs = [(c # k, e)], UseKeychain = kc\<rparr> (c # k @ rest) = e"
  by (rule LookUp_longest [of _ "c # k"]) (auto simp: HasPrefix_def)

end
