(* ===== verification/Image_Ref.thy ===== *)
theory Image_Ref
  imports Utils
begin

text \<open>
  Package \<open>internal/image\<close>: image references (\<open>image.go\<close>) and registry/repository strings
  (\<open>registry.go\<close>). The reference parser of \<open>go-containerregistry\<close> (\<open>name.ParseReference\<close>,
  \<open>name.NewRegistry\<close>, \<open>name.NewRepository\<close>) is third-party code and a parameter: its results
  are the values observed through the methods of \<open>name.Reference\<close> and \<open>name.Repository\<close>.
\<close>

section \<open>Definitions\<close>

subsection \<open>image.go\<close>

text \<open>
  What the program observes of a \<open>name.Repository\<close>: \<open>Name()\<close>, which \<open>String()\<close> returns too,
  and \<open>RegistryStr()\<close>; and of a \<open>name.Reference\<close>.
\<close>

record Repository =
  repo_Name :: string
  repo_RegistryStr :: string

record Reference =
  ref_Context :: Repository
  ref_Identifier :: string
  ref_Scope :: "string \<Rightarrow> string"

type_synonym parser = "string \<Rightarrow> Reference res"

record Image =
  original :: string
  img_ref :: Reference
  img_tag :: string
  img_digest :: string

definition Context :: "Image \<Rightarrow> Repository" where
  "Context i = ref_Context (img_ref i)"

definition Identifier :: "Image \<Rightarrow> string" where
  "Identifier i = ref_Identifier (img_ref i)"

definition New :: "parser \<Rightarrow> string \<Rightarrow> Image res" where
  "New parse s =
     (case parse s of
        Inl err \<Rightarrow> Inl err
      | Inr r \<Rightarrow>
          (let i = \<lparr>original = s, img_ref = r, img_tag = [], img_digest = []\<rparr>;
               ident = Identifier i
           in if HasPrefix ident ''sha256:''
              then let i = i\<lparr>img_digest := ident\<rparr>;
                       fullyQualifiedImagePath = StringOverlap (repo_Name (Context i)) (original i);
                       tagAndDigest =
                         TrimPrefix (TrimPrefix (original i) fullyQualifiedImagePath) '':''
                   in Inr (i\<lparr>img_tag := TrimSuffix tagAndDigest (''@'' @ ident)\<rparr>)
              else Inr (i\<lparr>img_tag := TrimPrefix ident '':''\<rparr>)))"

definition Name :: "Image \<Rightarrow> string" where
  "Name i =
     (let tag = (if img_tag i \<noteq> [] then '':'' @ img_tag i else []);
          digest = (if img_digest i \<noteq> [] then ''@'' @ img_digest i else [])
      in repo_Name (Context i) @ tag @ digest)"

definition Scope :: "Image \<Rightarrow> string \<Rightarrow> string" where
  "Scope i s = ref_Scope (img_ref i) s"

definition OriginalString :: "Image \<Rightarrow> string" where
  "OriginalString i = original i"

definition String :: "Image \<Rightarrow> string" where
  "String i = Name i"

definition NotaryReference :: "Image \<Rightarrow> string" where
  "NotaryReference i =
     (if HasPrefix (repo_Name (Context i)) ''index.docker.io''
      then TrimPrefix (repo_Name (Context i)) ''index.''
      else repo_Name (Context i))"

definition Tag :: "Image \<Rightarrow> string" where
  "Tag i = img_tag i"

definition Digest :: "Image \<Rightarrow> string" where
  "Digest i = img_digest i"

definition SetDigest :: "Image \<Rightarrow> string \<Rightarrow> Image" where
  "SetDigest i digest =
     (let digest = (if digest \<noteq> [] \<and> \<not> HasPrefix digest ''sha256:'' then ''sha256:'' @ digest
                    else digest)
      in i\<lparr>img_digest := digest\<rparr>)"

subsection \<open>registry.go\<close>

record RegistryRepo =
  rr_original :: string
  rr_registry :: string
  rr_repo :: string

abbreviation EmptyAuthRegistry :: string where
  "EmptyAuthRegistry \<equiv> ''EMPTYAUTH''"

text \<open>The two parsers of the third-party package: only their error is used.\<close>

definition NewRegistryRepo ::
  "(string \<Rightarrow> string option) \<Rightarrow> (string \<Rightarrow> string option) \<Rightarrow> string \<Rightarrow> RegistryRepo res" where
  "NewRegistryRepo newRegistry newRepository s =
     (if s = EmptyAuthRegistry then Inr \<lparr>rr_original = s, rr_registry = s, rr_repo = []\<rparr>
      else
        let orig = s;
            s = TrimPrefixes s [''https://'', ''http://''];
            s = (if HasPrefixes s [''index.docker.io'', ''docker.io''] \<and> HasSuffix s ''/v1/''
                 then TrimSuffix s ''/v1/'' else s);
            (registry, repo) =
              (case Index s (CHR ''/'') of None \<Rightarrow> (s, [])
               | Some idx \<Rightarrow> (take idx s, drop (idx + 1) s))
        in case newRegistry registry of
             Some err \<Rightarrow> Inl (''unable to parse registry '' @ registry @ '': '' @ err)
           | None \<Rightarrow>
               (case (if repo \<noteq> [] then newRepository repo else None) of
                  Some err \<Rightarrow> Inl (''unable to parse repository '' @ repo @ '': '' @ err)
                | None \<Rightarrow> Inr \<lparr>rr_original = orig, rr_registry = registry, rr_repo = repo\<rparr>))"

definition RegistryRepo_String :: "RegistryRepo \<Rightarrow> string" where
  "RegistryRepo_String r = (if rr_repo r = [] then rr_registry r else rr_registry r @ ''/'' @ rr_repo r)"

section \<open>Digests\<close>

text \<open>A digest of a modelled image is empty or carries the algorithm prefix.\<close>

definition wf_digest :: "string \<Rightarrow> bool" where
  "wf_digest d \<longleftrightarrow> d = [] \<or> HasPrefix d ''sha256:''"

lemmas image_defs = Context_def Identifier_def Name_def Digest_def Tag_def OriginalString_def
  String_def Scope_def

lemma SetDigest_frame [simp]:
  "original (SetDigest i d) = original i" "img_ref (SetDigest i d) = img_ref i"
  "img_tag (SetDigest i d) = img_tag i" "OriginalString (SetDigest i d) = OriginalString i"
  "Context (SetDigest i d) = Context i"
  by (simp_all add: SetDigest_def Let_def OriginalString_def Context_def)

lemma Digest_SetDigest:
  "Digest (SetDigest i d) =
     (if d = [] \<or> HasPrefix d ''sha256:'' then d else ''sha256:'' @ d)"
  by (auto simp: SetDigest_def Digest_def Let_def)

lemma wf_digest_SetDigest [simp]: "wf_digest (Digest (SetDigest i d))"
  by (simp add: Digest_SetDigest wf_digest_def)

lemma SetDigest_own [simp]: "wf_digest (Digest i) \<Longrightarrow> SetDigest i (Digest i) = i"
  by (auto simp: SetDigest_def Digest_def wf_digest_def Let_def)

lemma New_InrD:
  assumes "New parse s = Inr i"
  shows "original i = s" "\<exists>r. parse s = Inr r \<and> img_ref i = r" "wf_digest (Digest i)"
  using assms
  by (auto simp: New_def Let_def Digest_def wf_digest_def Identifier_def split: sum.splits if_splits)

section \<open>Recovering the tag of a reference with tag and digest\<close>

lemma two_separators:
  "a @ c # x = b @ e # y \<Longrightarrow> c \<noteq> e \<Longrightarrow> c \<in> set y \<or> e \<in> set x"
  by (auto simp: append_eq_append_conv2 Cons_eq_append_conv append_eq_Cons_conv)

text \<open>
  The overlap of a repository name with a reference that continues with a tag or a digest ends
  at the repository part: a longer one would carry the port separator into the path.
\<close>

lemma overlap_at_tag:
  assumes N: "N = h @ CHR ''/'' # path" and path: "CHR '':'' \<notin> set path"
    and p: "suffix p N" and rest: "CHR ''/'' \<notin> set rest"
  shows "StringOverlap N (p @ CHR '':'' # rest) = p"
proof (rule StringOverlap_eqI [OF p])
  show "prefix p (p @ CHR '':'' # rest)" by simp
next
  fix y assume y: "suffix y N" "prefix y (p @ CHR '':'' # rest)"
  show "length y \<le> length p"
  proof (rule ccontr)
    assume "\<not> length y \<le> length p"
    with y(2) obtain x where yx: "y = p @ CHR '':'' # x" and x: "prefix x rest"
      by (auto simp: prefix_append prefix_Cons dest: prefix_length_le)
    from x rest have nx: "CHR ''/'' \<notin> set x" by (meson set_mono_prefix subsetD)
    from y(1) N obtain z where z: "h @ CHR ''/'' # path = z @ y" by (auto simp: suffix_def)
    then have "h @ CHR ''/'' # path = (z @ p) @ CHR '':'' # x" by (simp add: yx)
    from two_separators [OF this] path nx show False by auto
  qed
qed

lemma overlap_at_digest:
  assumes N: "CHR ''@'' \<notin> set N" and p: "suffix p N"
  shows "StringOverlap N (p @ CHR ''@'' # rest) = p"
proof (rule StringOverlap_eqI [OF p])
  show "prefix p (p @ CHR ''@'' # rest)" by simp
next
  fix y assume y: "suffix y N" "prefix y (p @ CHR ''@'' # rest)"
  show "length y \<le> length p"
  proof (rule ccontr)
    assume "\<not> length y \<le> length p"
    with y(2) have "CHR ''@'' \<in> set y"
      by (auto simp: prefix_append prefix_Cons dest: prefix_length_le)
    with y(1) N show False by (meson set_mono_suffix subsetD)
  qed
qed

text \<open>The text between repository and digest.\<close>

definition tag_part :: "string \<Rightarrow> string" where
  "tag_part t = (if t = [] then [] else '':'' @ t)"

lemma New_tag_digest_aux:
  assumes parse: "parse (p @ tag_part t @ ''@'' @ d) = Inr r"
    and d: "ref_Identifier r = d" "HasPrefix d ''sha256:''" "CHR ''/'' \<notin> set d"
    and N: "repo_Name (ref_Context r) = h @ ''/'' @ path" "CHR '':'' \<notin> set path"
      "CHR ''@'' \<notin> set h \<union> set path"
    and p: "suffix p (repo_Name (ref_Context r))"
    and t: "CHR ''/'' \<notin> set t"
  shows "New parse (p @ tag_part t @ ''@'' @ d) =
           Inr \<lparr>original = p @ tag_part t @ ''@'' @ d, img_ref = r, img_tag = t, img_digest = d\<rparr>"
proof (cases "t = []")
  case True
  have "StringOverlap (repo_Name (ref_Context r)) (p @ CHR ''@'' # d) = p"
    using N p by (intro overlap_at_digest) auto
  moreover have "TrimPrefix (CHR ''@'' # d) '':'' = CHR ''@'' # d"
    by (simp add: TrimPrefix_other)
  moreover have "TrimSuffix (CHR ''@'' # d) (CHR ''@'' # d) = []"
    using TrimSuffix_append [of "[]"] by simp
  ultimately show ?thesis
    using parse d True by (simp add: New_def tag_part_def Let_def image_defs)
next
  case False
  have "StringOverlap (repo_Name (ref_Context r)) (p @ CHR '':'' # t @ CHR ''@'' # d) = p"
    using N p t d(3) by (intro overlap_at_tag [of _ h path]) auto
  moreover have "TrimPrefix (CHR '':'' # t @ CHR ''@'' # d) '':'' = t @ CHR ''@'' # d"
    using TrimPrefix_append [of "'':''"] by simp
  ultimately show ?thesis
    using parse d False by (simp add: New_def tag_part_def Let_def image_defs)
qed

lemma Name_tag_part:
  "Name i = repo_Name (Context i) @ tag_part (img_tag i) @
            (if img_digest i = [] then [] else ''@'' @ img_digest i)"
  by (simp add: Name_def tag_part_def Let_def)

text \<open>
  C39 (roundtrip). The tag that \<open>name.Reference\<close> loses is recovered: for a reference
  \<open>repo:tag@sha256:...\<close> (or without tag) whose repository part is the parsed repository name or
  a suffix of it after the default registry and namespace, \<open>New\<close> stores exactly that tag and
  digest, and \<open>Name\<close> prints the fully qualified repository with both.
\<close>

theorem New_tag_digest:
  assumes "parse (p @ tag_part t @ ''@'' @ d) = Inr r"
    and "ref_Identifier r = d" and "HasPrefix d ''sha256:''" and "CHR ''/'' \<notin> set d"
    and "repo_Name (ref_Context r) = h @ ''/'' @ path" and "CHR '':'' \<notin> set path"
    and "CHR ''@'' \<notin> set h \<union> set path"
    and "suffix p (repo_Name (ref_Context r))" and "CHR ''/'' \<notin> set t"
  shows "\<exists>i. New parse (p @ tag_part t @ ''@'' @ d) = Inr i \<and> Tag i = t \<and> Digest i = d \<and>
             Name i = h @ ''/'' @ path @ tag_part t @ ''@'' @ d"
proof -
  have "d \<noteq> []" using assms(3) by auto
  with New_tag_digest_aux [of parse p t d r h path] assms show ?thesis
    by (simp add: Tag_def Digest_def Name_tag_part Context_def)
qed

theorem New_tag_digest_witness:
  "\<exists>parse i. New parse ''nginx:1@sha256:aa'' = Inr i \<and> Tag i = ''1'' \<and> Digest i = ''sha256:aa'' \<and>
     Name i = ''index.docker.io/library/nginx:1@sha256:aa''"
proof -
  let ?r = "\<lparr>ref_Context = \<lparr>repo_Name = ''index.docker.io/library/nginx'',
                            repo_RegistryStr = ''index.docker.io''\<rparr>,
             ref_Identifier = ''sha256:aa'', ref_Scope = (\<lambda>s. s)\<rparr>"
  have "suffix ''nginx'' ''index.docker.io/library/nginx''"
    by (rule suffixI [of _ "''index.docker.io/library/''"]) simp
  then show ?thesis
    using New_tag_digest [of "\<lambda>_. Inr ?r" "''nginx''" "''1''" "''sha256:aa''" ?r
        "''index.docker.io''" "''library/nginx''"]
    by (intro exI [of _ "\<lambda>_. Inr ?r"]) (simp add: tag_part_def HasPrefix_def)
qed

text \<open>
  Where no suffix of the parsed repository name starts the given reference, the whole
  reference ends up in the tag. This is the case for \<open>docker.io/nginx:1@sha256:...\<close>, whose
  parsed name is \<open>index.docker.io/library/nginx\<close>: the registry alias is rewritten and the
  implicit namespace inserted, so the manual extraction of the tag finds no overlap.
\<close>

theorem New_tag_without_overlap:
  assumes "parse (q @ ''@'' @ d) = Inr r" and "ref_Identifier r = d" and "HasPrefix d ''sha256:''"
    and "StringOverlap (repo_Name (ref_Context r)) (q @ ''@'' @ d) = []"
    and "\<not> HasPrefix (q @ ''@'' @ d) '':''"
  shows "\<exists>i. New parse (q @ ''@'' @ d) = Inr i \<and> Tag i = q"
  using assms TrimSuffix_append [of q "''@'' @ d"]
  by (simp add: New_def Let_def image_defs TrimPrefix_other)

theorem New_tag_without_overlap_witness:
  "\<exists>parse i. New parse ''docker.io/nginx:1@sha256:aa'' = Inr i \<and> Tag i = ''docker.io/nginx:1''"
proof -
  let ?r = "\<lparr>ref_Context = \<lparr>repo_Name = ''index.docker.io/library/nginx'',
                            repo_RegistryStr = ''index.docker.io''\<rparr>,
             ref_Identifier = ''sha256:aa'', ref_Scope = (\<lambda>s. s)\<rparr>"
  have "StringOverlap ''index.docker.io/library/nginx'' ''docker.io/nginx:1@sha256:aa'' = []"
    by (simp add: StringOverlap_def Max_def overlap_from.simps HasPrefix_def)
  then show ?thesis
    using New_tag_without_overlap [of "\<lambda>_. Inr ?r" "''docker.io/nginx:1''" "''sha256:aa''" ?r]
    by (intro exI [of _ "\<lambda>_. Inr ?r"]) (simp add: HasPrefix_def)
qed

end
