(* ===== verification/Files.thy ===== *)
theory Files
  imports Go_Prelude
begin

text \<open>
  \<open>internal/utils/files.go\<close>: the resolution of file names below a base directory, with the
  functions of \<open>path/filepath\<close> (on Unix) it uses: \<open>Abs\<close>, \<open>Clean\<close> and \<open>Dir\<close> on rooted paths.
  The file system is a parameter, \<open>EvalSymlinks\<close>.
\<close>

section \<open>Definitions\<close>

subsection \<open>path/filepath\<close>

text \<open>The components that \<open>Clean\<close> keeps of a rooted path, in reverse: \<open>..\<close> at the root is dropped.\<close>

fun clean_components :: "string list \<Rightarrow> string list \<Rightarrow> string list" where
  "clean_components acc [] = acc"
| "clean_components acc (c # cs) =
     (if c = [] \<or> c = ''.'' then clean_components acc cs
      else if c = ''..'' then clean_components (tl acc) cs
      else clean_components (c # acc) cs)"

definition Clean :: "string \<Rightarrow> string" where
  "Clean path = CHR ''/'' # Join ''/'' (rev (clean_components [] (Split (CHR ''/'') path)))"

text \<open>\<open>Abs\<close> of a relative path joins it to the working directory, which may be unknown.\<close>

definition Abs :: "string res \<Rightarrow> string \<Rightarrow> string res" where
  "Abs cwd path =
     (if HasPrefix path ''/'' then Inr (Clean path)
      else case cwd of Inl err \<Rightarrow> Inl err | Inr wd \<Rightarrow> Inr (Clean (wd @ ''/'' @ path)))"

text \<open>\<open>Dir\<close> of a rooted path: everything before the last slash, cleaned.\<close>

definition Dir :: "string \<Rightarrow> string" where
  "Dir path = Clean (Join ''/'' (butlast (Split (CHR ''/'') path)) @ ''/'')"

subsection \<open>files.go\<close>

text \<open>The loop over the path elements.\<close>

fun resolve_elements :: "string \<Rightarrow> string list \<Rightarrow> string res" where
  "resolve_elements path [] = Inr path"
| "resolve_elements path (elem # elems) =
     (let resolved = Clean (path @ ''/'' @ elem)
      in if HasPrefix resolved path then resolve_elements resolved elems
         else Inl (''path element '' @ [CHR 0x27] @ elem @ [CHR 0x27] @
                   '' goes beyond its parent path element '' @ path))"

definition SafeFileName ::
  "string res \<Rightarrow> (string \<Rightarrow> string res) \<Rightarrow> string \<Rightarrow> string list \<Rightarrow> string res" where
  "SafeFileName cwd EvalSymlinks baseDir pathElements =
     (case Abs cwd baseDir of
        Inl err \<Rightarrow> Inl (''failed to resolve '' @ baseDir @ '': '' @ err)
      | Inr base \<Rightarrow>
      (case resolve_elements base pathElements of
        Inl err \<Rightarrow> Inl err
      | Inr path \<Rightarrow>
          let finalDir = Dir path @ ''/''
          in case EvalSymlinks path of
               Inl err \<Rightarrow> Inl (''failed to resolve '' @ path @ '': '' @ err)
             | Inr finalPath \<Rightarrow>
                 if HasPrefix finalPath finalDir then Inr finalPath
                 else Inl (''symlink on '' @ path @ '' goes beyond its parent directory '' @ finalDir)))"

section \<open>Lemmas\<close>

text \<open>A plain component is one that \<open>Clean\<close> keeps.\<close>

definition plain :: "string \<Rightarrow> bool" where
  "plain c \<longleftrightarrow> c \<noteq> [] \<and> c \<noteq> ''.'' \<and> c \<noteq> ''..'' \<and> CHR ''/'' \<notin> set c"

definition rooted :: "string list \<Rightarrow> string" where
  "rooted cs = CHR ''/'' # Join ''/'' cs"

lemma clean_components_plain: "list_all plain cs \<Longrightarrow> clean_components acc cs = rev cs @ acc"
  by (induction cs arbitrary: acc) (auto simp: plain_def)

lemma clean_components_append:
  "clean_components acc (cs @ ds) = clean_components (clean_components acc cs) ds"
  by (induction cs arbitrary: acc) auto

lemma clean_components_all_plain:
  "list_all plain acc \<Longrightarrow> \<forall>c \<in> set cs. CHR ''/'' \<notin> set c \<Longrightarrow> list_all plain (clean_components acc cs)"
proof (induction cs arbitrary: acc)
  case (Cons c cs)
  have "list_all plain (tl acc)" using Cons.prems(1) by (cases acc) auto
  moreover have "c \<noteq> [] \<Longrightarrow> c \<noteq> ''.'' \<Longrightarrow> c \<noteq> ''..'' \<Longrightarrow> plain c"
    using Cons.prems(2) by (simp add: plain_def)
  ultimately show ?case using Cons by simp
qed simp

definition kept :: "string \<Rightarrow> bool" where
  "kept c \<longleftrightarrow> c \<noteq> [] \<and> c \<noteq> ''.''"

lemma clean_components_no_dotdot:
  "''..'' \<notin> set cs \<Longrightarrow> clean_components acc cs = rev (filter kept cs) @ acc"
  by (induction cs arbitrary: acc) (auto simp: kept_def)

lemma Split_append:
  "Split c (a @ c # b) = Split c a @ Split c b"
proof (induction a)
  case (Cons x a)
  then show ?case by (cases "Split c a") (auto simp: Let_def)
qed simp

lemma Split_no: "c \<notin> set s \<Longrightarrow> Split c s = [s]"
  by (induction s) auto

lemma Split_Join:
  "ws \<noteq> [] \<Longrightarrow> \<forall>w \<in> set ws. c \<notin> set w \<Longrightarrow> Split c (Join [c] ws) = ws"
  by (induction "[c]" ws rule: Join.induct) (auto simp: Split_no Split_append)

lemma plain_no_slash: "list_all plain bs \<Longrightarrow> \<forall>w \<in> set bs. CHR ''/'' \<notin> set w"
  by (auto simp: list_all_iff plain_def)

lemma Split_rooted: "list_all plain bs \<Longrightarrow> filter kept (Split (CHR ''/'') (rooted bs)) = bs"
proof (cases "bs = []")
  case False
  assume "list_all plain bs"
  then have "Split (CHR ''/'') (rooted bs) = [] # bs"
    unfolding rooted_def using False by (simp add: Split_Join plain_no_slash)
  moreover have "filter kept bs = bs"
    using \<open>list_all plain bs\<close> by (auto simp: list_all_iff plain_def kept_def filter_id_conv)
  ultimately show ?thesis by (simp add: kept_def)
qed (simp add: rooted_def kept_def)

lemma Clean_eq: "Clean p = rooted (rev (clean_components [] (Split (CHR ''/'') p)))"
  by (simp add: Clean_def rooted_def)

lemma Clean_plain: "\<exists>bs. list_all plain bs \<and> Clean p = rooted bs"
  unfolding Clean_eq using clean_components_all_plain[of "[]" "Split (CHR ''/'') p"] Split_no_sep[of _ "CHR ''/''" p]
  by (intro exI[of _ "rev (clean_components [] (Split (CHR ''/'') p))"]) auto

lemma Clean_join:
  assumes "list_all plain bs" and "''..'' \<notin> set (Split (CHR ''/'') e)"
  shows "Clean (rooted bs @ ''/'' @ e) = rooted (bs @ filter kept (Split (CHR ''/'') e))"
proof -
  have dd: "''..'' \<notin> set (Split (CHR ''/'') (rooted bs))"
  proof (cases "bs = []")
    case False
    then have "Split (CHR ''/'') (rooted bs) = [] # bs"
      unfolding rooted_def using assms(1) by (simp add: Split_Join plain_no_slash)
    then show ?thesis using assms(1) by (auto simp: list_all_iff plain_def)
  qed (simp add: rooted_def)
  have "Split (CHR ''/'') (rooted bs @ ''/'' @ e) = Split (CHR ''/'') (rooted bs) @ Split (CHR ''/'') e"
    using Split_append[of "CHR ''/''" "rooted bs" e] by simp
  then show ?thesis
    unfolding Clean_eq using dd assms(2) Split_rooted[OF assms(1)]
    by (simp add: clean_components_no_dotdot)
qed

lemma rooted_append: "rooted (bs @ ds) = (if ds = [] then rooted bs else if bs = [] then rooted ds
    else rooted bs @ rooted ds)"
proof -
  have "bs \<noteq> [] \<Longrightarrow> ds \<noteq> [] \<Longrightarrow> Join ''/'' (bs @ ds) = Join ''/'' bs @ ''/'' @ Join ''/'' ds"
  proof (induction bs)
    case (Cons b bs)
    then show ?case by (cases bs) (auto simp: Join_Cons)
  qed simp
  then show ?thesis by (auto simp: rooted_def)
qed

lemma HasPrefix_rooted [simp]: "HasPrefix (rooted (bs @ ds)) (rooted bs)"
  unfolding rooted_append using HasPrefix_append[of "rooted bs" "[]"] by (simp add: rooted_def)

lemma Split_rooted_eq: "list_all plain bs \<Longrightarrow> bs \<noteq> [] \<Longrightarrow> Split (CHR ''/'') (rooted bs) = [] # bs"
  using Split_Join[of bs "CHR ''/''"] plain_no_slash[of bs] by (simp add: rooted_def)

lemma resolve_no_dotdot:
  assumes "list_all plain bs" and "\<forall>e \<in> set elems. ''..'' \<notin> set (Split (CHR ''/'') e)"
  shows "resolve_elements (rooted bs) elems =
    Inr (rooted (bs @ concat (map (\<lambda>e. filter kept (Split (CHR ''/'') e)) elems)))"
  using assms
proof (induction elems arbitrary: bs)
  case (Cons e elems)
  let ?ds = "filter kept (Split (CHR ''/'') e)"
  have "list_all plain ?ds"
    using Cons.prems(2) Split_no_sep[of _ "CHR ''/''" e] by (auto simp: list_all_iff plain_def kept_def)
  with Cons.prems(1) have "list_all plain (bs @ ?ds)" by simp
  from Cons.IH[OF this] Cons.prems show ?case
    using Clean_join[OF Cons.prems(1), of e] by (simp add: Let_def)
qed simp

lemma Dir_rooted:
  assumes "list_all plain ps"
  shows "Dir (rooted ps) = rooted (butlast ps)"
proof (cases "ps = []")
  case False
  then have S: "Split (CHR ''/'') (rooted ps) = [] # ps"
    unfolding rooted_def using assms by (simp add: Split_Join plain_no_slash)
  have b: "list_all plain (butlast ps)" using assms by (auto simp: list_all_iff dest: in_set_butlastD)
  show ?thesis
  proof (cases "butlast ps = []")
    case True
    then show ?thesis using False unfolding Dir_def S by (simp add: Clean_eq rooted_def)
  next
    case ne: False
    then have "Join ''/'' (butlast ([] # ps)) = rooted (butlast ps)"
      using False by (simp add: Join_Cons rooted_def)
    then show ?thesis unfolding Dir_def S using Clean_join[OF b, of "[]"] by (simp add: kept_def)
  qed
qed (simp add: Dir_def rooted_def Clean_eq)

text \<open>Where a resolved file lies, for a base in normal form and elements without \<open>..\<close>.\<close>

lemma SafeFileName_rooted:
  assumes "SafeFileName cwd EvalSymlinks baseDir elems = Inr f" and "Abs cwd baseDir = Inr (rooted bs)"
    and "list_all plain bs" and "\<forall>e \<in> set elems. ''..'' \<notin> set (Split (CHR ''/'') e)"
    and "ds = concat (map (\<lambda>e. filter kept (Split (CHR ''/'') e)) elems)"
  shows "list_all plain (bs @ ds)" and "EvalSymlinks (rooted (bs @ ds)) = Inr f"
    and "HasPrefix f (rooted (butlast (bs @ ds)) @ ''/'')"
proof -
  show pl: "list_all plain (bs @ ds)"
    using assms(3,4) Split_no_sep[of _ "CHR ''/''"] unfolding assms(5)
    by (fastforce simp: list_all_iff plain_def kept_def)
  have "resolve_elements (rooted bs) elems = Inr (rooted (bs @ ds))"
    unfolding assms(5) by (rule resolve_no_dotdot[OF assms(3,4)])
  with assms(1,2) have "EvalSymlinks (rooted (bs @ ds)) = Inr f \<and> HasPrefix f (rooted (butlast (bs @ ds)) @ ''/'')"
    unfolding SafeFileName_def Let_def using Dir_rooted[OF pl] by (auto split: sum.split_asm if_split_asm)
  then show "EvalSymlinks (rooted (bs @ ds)) = Inr f" "HasPrefix f (rooted (butlast (bs @ ds)) @ ''/'')" by auto
qed

section \<open>Properties\<close>

text \<open>
  C35 (safety). Path elements without a \<open>..\<close> component cannot leave the base directory: whenever
  \<open>SafeFileName\<close> succeeds, the path it resolved consists of the components of the base followed by
  those of the elements, and the file it returns is what this path names in the file system, inside
  the directory of that path (a symbolic link that leads elsewhere is refused).
\<close>
theorem SafeFileName_below_base:
  assumes "SafeFileName cwd EvalSymlinks baseDir elems = Inr f"
    and "Abs cwd baseDir = Inr base"
    and "\<forall>e \<in> set elems. ''..'' \<notin> set (Split (CHR ''/'') e)"
  shows "\<exists>bs ds. base = rooted bs \<and> list_all plain (bs @ ds) \<and>
    ds = concat (map (\<lambda>e. filter kept (Split (CHR ''/'') e)) elems) \<and>
    EvalSymlinks (rooted (bs @ ds)) = Inr f \<and> HasPrefix f (rooted (butlast (bs @ ds)) @ ''/'')"
proof -
  obtain bs where bs: "base = rooted bs" "list_all plain bs"
    using assms(2) Clean_plain unfolding Abs_def by (auto split: if_split_asm sum.split_asm)
  from SafeFileName_rooted[OF assms(1) assms(2)[unfolded bs(1)] bs(2) assms(3) refl] bs(1) show ?thesis by blast
qed

theorem SafeFileName_below_base_witness:
  "SafeFileName (Inr ''/'') Inr ''/app/secrets'' [''reg'', ''secret.yaml''] = Inr ''/app/secrets/reg/secret.yaml'' \<and>
   HasPrefix ''/app/secrets/reg/secret.yaml'' ''/app/''"
proof -
  have s: "SafeFileName (Inr ''/'') Inr ''/app/secrets'' [''reg'', ''secret.yaml''] = Inr ''/app/secrets/reg/secret.yaml''"
    and a: "Abs (Inr ''/'') ''/app/secrets'' = Inr ''/app/secrets''"
    and d: "\<forall>e \<in> set [''reg'', ''secret.yaml'']. ''..'' \<notin> set (Split (CHR ''/'') e)" by code_simp+
  show ?thesis using s SafeFileName_below_base[OF s a d] by simp
qed

text \<open>
  The check against the parent compares strings without a final slash, so an
  element with \<open>..\<close> may move to a sibling whose name extends the name of the base directory: from
  \<open>/app/secrets\<close> the element \<open>../secrets-x\<close> is accepted and leads to \<open>/app/secrets-x\<close>.
\<close>
theorem SafeFileName_sibling:
  assumes "list_all plain (bs @ [b])" and "plain (b @ x)" and "bs \<noteq> []"
  shows "SafeFileName cwd Inr (rooted (bs @ [b])) [''../'' @ b @ x] = Inr (rooted (bs @ [b @ x]))"
proof -
  have pb: "list_all plain bs" "plain b" using assms(1) by auto
  have px: "list_all plain (bs @ [b @ x])" using pb assms(2) by simp
  have S: "Split (CHR ''/'') (rooted (bs @ [b]) @ ''/'' @ ''../'' @ b @ x) = ([] # bs @ [b]) @ [''..'', b @ x]"
  proof -
    have "Split (CHR ''/'') (rooted (bs @ [b])) = [] # bs @ [b]"
      using Split_rooted_eq[OF assms(1)] by simp
    moreover have "Split (CHR ''/'') (''../'' @ b @ x) = [''..'', b @ x]"
      using assms(2) by (simp add: plain_def Split_no)
    ultimately show ?thesis using Split_append[of "CHR ''/''" "rooted (bs @ [b])"] by simp
  qed
  have abs: "Abs cwd (rooted (bs @ [b])) = Inr (rooted (bs @ [b]))"
    using clean_components_plain[OF assms(1), of "[]"] Split_rooted_eq[OF assms(1)]
    unfolding Abs_def Clean_eq by (simp add: rooted_def)
  have clean: "Clean (rooted (bs @ [b]) @ ''/'' @ ''../'' @ b @ x) = rooted (bs @ [b @ x])"
    unfolding Clean_eq S clean_components_append
    using clean_components_plain[OF assms(1), of "[]"] assms(2) by (auto simp: plain_def)
  have pre: "rooted (bs @ [b @ x]) = rooted (bs @ [b]) @ x"
    unfolding rooted_append[of bs] using assms(3) by (simp add: rooted_def)
  have r: "resolve_elements (rooted (bs @ [b])) [''../'' @ b @ x] = Inr (rooted (bs @ [b @ x]))"
    using clean unfolding pre by (simp add: Let_def)
  have "rooted (bs @ [b @ x]) = rooted bs @ ''/'' @ b @ x"
    unfolding rooted_append[of bs] using assms(3) by (simp add: rooted_def)
  then show ?thesis
    unfolding SafeFileName_def abs r Let_def sum.case Dir_rooted[OF px]
    using HasPrefix_append[of "rooted bs @ ''/''" "b @ x"] by simp
qed

theorem SafeFileName_sibling_witness:
  "SafeFileName (Inl ''no cwd'') Inr ''/app/secrets'' [''../secrets-x''] = Inr ''/app/secrets-x''"
  using SafeFileName_sibling[of "[''app'']" "''secrets''" "''-x''"] by (simp add: plain_def rooted_def)

end
