(* ===== verification/Policy.thy ===== *)
theory Policy
  imports Utils
begin

text \<open>
  Package \<open>internal/policy\<close>: the rules of the image policy (\<open>rule.go\<close>) and the match of a
  rule against an image (\<open>match.go\<close>). A match is ranked by its number of components, then by
  its prefix lengths, then by its component lengths; the lemmas show that \<open>Compare\<close> is the
  choice of the higher rank in that lexicographic order, and the locale \<open>best_choice\<close> states
  once what a left-to-right selection by such a comparison returns.
\<close>

section \<open>Definitions\<close>

subsection \<open>rule.go\<close>

record RuleOptions =
  ro_TrustRoot :: string
  ro_VerifyTLog :: "bool option"
  ro_VerifySCT :: "bool option"
  ro_Threshold :: int
  ro_Required :: "string list"
  ro_Delegations :: "string list"
  ro_ValidationMode :: string
  ro_VerificationLevel :: string
  ro_VerifyTimestamp :: string

record Rule =
  rule_Pattern :: string
  rule_Validator :: string
  rule_With :: RuleOptions

text \<open>The zero values \<open>policy.RuleOptions{}\<close> and \<open>policy.Rule{}\<close>.\<close>

definition zero_RuleOptions :: RuleOptions where
  "zero_RuleOptions =
     \<lparr>ro_TrustRoot = [], ro_VerifyTLog = None, ro_VerifySCT = None, ro_Threshold = 0,
      ro_Required = [], ro_Delegations = [], ro_ValidationMode = [],
      ro_VerificationLevel = [], ro_VerifyTimestamp = []\<rparr>"

definition zero_Rule :: Rule where
  "zero_Rule = \<lparr>rule_Pattern = [], rule_Validator = [], rule_With = zero_RuleOptions\<rparr>"

subsection \<open>match.go\<close>

record Match =
  m_Rule :: Rule
  componentCount :: nat
  componentLengths :: "nat list"
  prefixLengths :: "nat list"

text \<open>The loop over the components: \<open>ic[idx]\<close> panics where the image has fewer of them.\<close>

fun prefix_lengths :: "string list \<Rightarrow> string list \<Rightarrow> nat list go" where
  "prefix_lengths [] ic = Ret []"
| "prefix_lengths (c # cs) [] = Panic ''index out of range''"
| "prefix_lengths (c # cs) (i # is) =
     go_bind (LongestCommonPrefix [c, i]) (\<lambda>p.
     go_bind (prefix_lengths cs is) (\<lambda>ps. Ret (length p # ps)))"

definition NewMatch :: "Rule \<Rightarrow> string \<Rightarrow> Match go" where
  "NewMatch rule img =
     (let components = Split (CHR ''/'') (rule_Pattern rule);
          cc = length components;
          cl = map length components;
          ic = Split (CHR ''/'') img
      in go_bind (prefix_lengths components ic) (\<lambda>pl.
         Ret \<lparr>m_Rule = rule, componentCount = cc, componentLengths = cl, prefixLengths = pl\<rparr>))"

datatype winner = First | Second | Tie

text \<open>One of the two index loops of \<open>Compare\<close>: \<open>m2\<close>'s slice is indexed by \<open>m1\<close>'s range.\<close>

fun compare_lengths :: "nat list \<Rightarrow> nat list \<Rightarrow> winner go" where
  "compare_lengths [] ys = Ret Tie"
| "compare_lengths (x # xs) [] = Panic ''index out of range''"
| "compare_lengths (x # xs) (y # ys) =
     (if x > y then Ret First else if x < y then Ret Second else compare_lengths xs ys)"

definition Compare :: "Match \<Rightarrow> Match \<Rightarrow> Match go" where
  "Compare m1 m2 =
     (if componentCount m1 > componentCount m2 then Ret m1
      else if componentCount m1 < componentCount m2 then Ret m2
      else go_bind (compare_lengths (prefixLengths m1) (prefixLengths m2)) (\<lambda>w.
        case w of
          First \<Rightarrow> Ret m1
        | Second \<Rightarrow> Ret m2
        | Tie \<Rightarrow>
            go_bind (compare_lengths (componentLengths m1) (componentLengths m2)) (\<lambda>w'.
              case w' of First \<Rightarrow> Ret m1 | Second \<Rightarrow> Ret m2 | Tie \<Rightarrow> Ret m1)))"

subsection \<open>Specification: well-formed matches and their rank\<close>

definition wf_match :: "Match \<Rightarrow> bool" where
  "wf_match m \<longleftrightarrow> length (componentLengths m) = componentCount m
                \<and> length (prefixLengths m) = componentCount m"

definition rank :: "Match \<Rightarrow> nat \<times> nat list \<times> nat list" where
  "rank m = (componentCount m, prefixLengths m, componentLengths m)"

text \<open>The rank of a pattern for an image, without building a match.\<close>

definition pattern_rank :: "string \<Rightarrow> string \<Rightarrow> nat \<times> nat list \<times> nat list" where
  "pattern_rank img pattern =
     (let cs = Split (CHR ''/'') pattern
      in (length cs,
          map2 (\<lambda>c i. length (concat (map byte_string (longest_common_prefix c i))))
               cs (Split (CHR ''/'') img),
          map length cs))"

section \<open>Selecting the best of a list\<close>

text \<open>
  A partial comparison \<open>better\<close> that, on values satisfying \<open>invar\<close>, returns its first
  argument unless the second has the strictly higher key.
\<close>

locale best_choice =
  fixes better :: "'a \<Rightarrow> 'a \<Rightarrow> 'a go"
    and key :: "'a \<Rightarrow> 'k::linorder"
    and invar :: "'a \<Rightarrow> bool"
  assumes better_eq: "invar x \<Longrightarrow> invar y \<Longrightarrow> better x y = Ret (if key y \<le> key x then x else y)"
begin

primrec select :: "'a \<Rightarrow> 'a list \<Rightarrow> 'a go" where
  "select b [] = Ret b"
| "select b (x # xs) = go_bind (better x b) (\<lambda>b'. select b' xs)"

lemma select_returns: "invar b \<Longrightarrow> list_all invar xs \<Longrightarrow> \<exists>r. select b xs = Ret r \<and> invar r"
  by (induction xs arbitrary: b) (auto simp: better_eq)

text \<open>The result is the last of the elements (start value included) with the highest key.\<close>

lemma select_last_max:
  assumes "invar b" and "list_all invar xs" and "select b xs = Ret r"
  shows "\<exists>us vs. b # xs = us @ r # vs \<and> (\<forall>u\<in>set us. key u \<le> key r) \<and> (\<forall>v\<in>set vs. key v < key r)"
  using assms
proof (induction xs arbitrary: b)
  case Nil
  then show ?case by (intro exI [of _ "[]"]) simp
next
  case (Cons x xs)
  let ?b' = "if key b \<le> key x then x else b"
  have b': "better x b = Ret ?b'" using Cons.prems by (simp add: better_eq)
  with Cons.prems have "invar ?b'" "list_all invar xs" "select ?b' xs = Ret r" by simp_all
  from Cons.IH [OF this] obtain us vs where
    split: "?b' # xs = us @ r # vs" and us: "\<forall>u\<in>set us. key u \<le> key r"
    and vs: "\<forall>v\<in>set vs. key v < key r" by blast
  show ?case
  proof (cases us)
    case Nil
    show ?thesis
    proof (cases "key b \<le> key x")
      case True
      with Nil split have "b # x # xs = [b] @ r # vs" and "key b \<le> key r" by auto
      with vs show ?thesis by (intro exI [of _ "[b]"] exI [of _ vs]) auto
    next
      case False
      with Nil split vs show ?thesis by (intro exI [of _ "[]"] exI [of _ "x # vs"]) auto
    qed
  next
    case (Cons u us')
    with split us have "b # x # xs = (b # x # us') @ r # vs" and "key x \<le> key r" "key b \<le> key r"
      by (auto split: if_splits)
    with us Cons vs show ?thesis
      by (intro exI [of _ "b # x # us'"] exI [of _ vs]) auto
  qed
qed

end

section \<open>Compare chooses the higher rank\<close>

lemma compare_lengths_eq:
  "length xs = length ys \<Longrightarrow>
   compare_lengths xs ys = Ret (if ys < xs then First else if xs < ys then Second else Tie)"
  by (induction xs ys rule: compare_lengths.induct) auto

lemma Compare_rank:
  assumes "wf_match m1" and "wf_match m2"
  shows "Compare m1 m2 = Ret (if rank m2 \<le> rank m1 then m1 else m2)"
proof (cases "componentCount m1 = componentCount m2")
  case True
  with assms show ?thesis
    by (auto simp: Compare_def rank_def wf_match_def compare_lengths_eq less_eq_prod_def
        less_prod_def not_less)
next
  case False
  then show ?thesis by (auto simp: Compare_def rank_def less_eq_prod_def)
qed

interpretation match_choice: best_choice Compare rank wf_match
  by unfold_locales (rule Compare_rank)

section \<open>NewMatch\<close>

lemma prefix_lengths_eq:
  "length cs \<le> length ic \<Longrightarrow>
   prefix_lengths cs ic =
     Ret (map2 (\<lambda>c i. length (concat (map byte_string (longest_common_prefix c i)))) cs ic)"
  by (induction cs ic rule: prefix_lengths.induct)
    (simp_all add: LongestCommonPrefix_eq Longest_common_prefix_pair)

lemma prefix_lengths_panics: "panics (prefix_lengths cs ic) \<longleftrightarrow> length ic < length cs"
proof (cases "length cs \<le> length ic")
  case True
  then show ?thesis by (simp add: prefix_lengths_eq)
next
  case False
  then show ?thesis
    by (induction cs ic rule: prefix_lengths.induct)
      (auto simp: LongestCommonPrefix_eq)
qed

lemma NewMatch_panics:
  "panics (NewMatch rule img) \<longleftrightarrow>
     count_list img (CHR ''/'') < count_list (rule_Pattern rule) (CHR ''/'')"
  by (simp add: NewMatch_def Let_def prefix_lengths_panics length_Split)

lemma NewMatch_Ret:
  assumes "NewMatch rule img = Ret m"
  shows "wf_match m" "m_Rule m = rule" "rank m = pattern_rank img (rule_Pattern rule)"
proof -
  let ?cs = "Split (CHR ''/'') (rule_Pattern rule)" and ?ic = "Split (CHR ''/'') img"
  have "\<not> panics (NewMatch rule img)" using assms by simp
  then have le: "length ?cs \<le> length ?ic" by (simp add: NewMatch_panics length_Split)
  with assms show "wf_match m" "m_Rule m = rule" "rank m = pattern_rank img (rule_Pattern rule)"
    by (auto simp: NewMatch_def Let_def prefix_lengths_eq wf_match_def rank_def pattern_rank_def)
qed

lemma NewMatch_returns:
  "count_list (rule_Pattern rule) (CHR ''/'') \<le> count_list img (CHR ''/'') \<Longrightarrow>
   \<exists>m. NewMatch rule img = Ret m"
  using NewMatch_panics [of rule img] by (cases "NewMatch rule img") auto

text \<open>
  On the matches that \<open>NewMatch\<close> builds for one image, \<open>Compare\<close> never
  panics and returns the match whose pattern has more components, else the longer prefix in the
  left-most differing component, else the longer left-most differing component, and the match
  it was called on where all of these agree.
\<close>

theorem Compare_correct:
  assumes "NewMatch r1 img = Ret m1" and "NewMatch r2 img = Ret m2"
  shows "Compare m1 m2 =
    Ret (if pattern_rank img (rule_Pattern r2) \<le> pattern_rank img (rule_Pattern r1) then m1 else m2)"
  using Compare_rank NewMatch_Ret [OF assms(1)] NewMatch_Ret [OF assms(2)] by simp

theorem Compare_correct_witness:
  "\<exists>m1 m2.
     NewMatch (zero_Rule\<lparr>rule_Pattern := ''do*/*''\<rparr>) ''doc/img'' = Ret m1 \<and>
     NewMatch (zero_Rule\<lparr>rule_Pattern := ''*:*''\<rparr>) ''doc/img'' = Ret m2 \<and>
     Compare m2 m1 = Ret m1"
proof -
  let ?r1 = "zero_Rule\<lparr>rule_Pattern := ''do*/*''\<rparr>" and ?r2 = "zero_Rule\<lparr>rule_Pattern := ''*:*''\<rparr>"
  obtain m1 m2 where m: "NewMatch ?r1 ''doc/img'' = Ret m1" "NewMatch ?r2 ''doc/img'' = Ret m2"
    using NewMatch_returns [of ?r1 "''doc/img''"] NewMatch_returns [of ?r2 "''doc/img''"] by auto
  have "\<not> pattern_rank ''doc/img'' (rule_Pattern ?r1) \<le> pattern_rank ''doc/img'' (rule_Pattern ?r2)"
    by (simp add: pattern_rank_def less_eq_prod_def)
  with Compare_correct [OF m(2) m(1)] m show ?thesis by auto
qed

end
