(* ===== verification/Validator_Iface.thy ===== *)
theory Validator_Iface
  imports Policy Image_Ref
begin

text \<open>
  The validator interface: \<open>internal/validator/validator.go\<close> and the static validator of
  \<open>internal/validator/staticvalidator\<close>. A value of the Go interface \<open>Validate\<close> is its method: a
  function of the image and the rule options. The image is a pointer which some validators
  update, so the method returns the image as it leaves it beside the digest or the error.
\<close>

section \<open>Definitions\<close>

subsection \<open>validator.go\<close>

type_synonym validate = "Image \<Rightarrow> RuleOptions \<Rightarrow> (Image \<times> string res) go"

record Validator =
  v_Name :: string
  v_Type :: string
  SpecificValidator :: validate

abbreviation StaticValidatorType :: string where "StaticValidatorType \<equiv> ''static''"
abbreviation CosignValidatorType :: string where "CosignValidatorType \<equiv> ''cosign''"
abbreviation NotaryV1ValidatorType :: string where "NotaryV1ValidatorType \<equiv> ''notaryv1''"
abbreviation NotationValidatorType :: string where "NotationValidatorType \<equiv> ''notation''"

text \<open>
  The decoded YAML mapping holds strings and other values; the assertion \<open>name.(string)\<close>
  panics on the others. \<open>load\<close> stands for \<open>unmarshal(specific)\<close>, the decoding of the node into
  the specific validator of the given type.
\<close>

datatype yaml = YString string | YBool bool | YOther

definition Validator_UnmarshalYAML ::
  "(string \<Rightarrow> yaml option) res \<Rightarrow> (string \<Rightarrow> validate res go) \<Rightarrow> Validator res go" where
  "Validator_UnmarshalYAML unmarshalled load =
     (case unmarshalled of
        Inl err \<Rightarrow> Ret (Inl err)
      | Inr vData \<Rightarrow>
          (case vData ''name'' of
             None \<Rightarrow> Ret (Inl ''validator is missing a name'')
           | Some (YString name) \<Rightarrow>
               (case vData ''type'' of
                  None \<Rightarrow> Ret (Inl ''validator is missing a type'')
                | Some (YString type) \<Rightarrow>
                    if type = StaticValidatorType \<or> type = CosignValidatorType
                       \<or> type = NotaryV1ValidatorType \<or> type = NotationValidatorType
                    then go_bind (load type) (\<lambda>specific.
                      Ret (case specific of
                             Inl err \<Rightarrow> Inl err
                           | Inr s \<Rightarrow> Inr \<lparr>v_Name = name, v_Type = type, SpecificValidator = s\<rparr>))
                    else Ret (Inl (''unsupported type '' @ [CHR 0x22] @ type @ [CHR 0x22] @
                                   '' for validator''))
                | Some _ \<Rightarrow> Panic ''interface conversion'')
           | Some _ \<Rightarrow> Panic ''interface conversion''))"

definition Validator_ValidateImage :: "Validator \<Rightarrow> validate" where
  "Validator_ValidateImage v img opts = SpecificValidator v img opts"

subsection \<open>static_validator.go\<close>

record StaticValidator =
  sv_Name :: string
  sv_Type :: string
  sv_Approve :: bool

definition StaticValidator_ValidateImage :: "StaticValidator \<Rightarrow> validate" where
  "StaticValidator_ValidateImage sv img opts =
     Ret (img, if sv_Approve sv then Inr (Digest img) else Inl ''static deny'')"

section \<open>The contract of a validator\<close>

text \<open>
  A call that waits forever has no result. It shares the constructor of the panics, under a message of
  its own; only the goroutine of such a call is affected, while a panic ends the process.
\<close>

abbreviation blocked :: string where
  "blocked \<equiv> ''blocked forever''"

text \<open>
  What the soundness of the validation handler rests on: the method leaves everything of the image but
  the digest as it was, whenever it returns.
\<close>

locale keeps_image =
  fixes validate :: validate
  assumes frame: "validate img opts = Ret (img', r) \<Longrightarrow>
      original img' = original img \<and> img_ref img' = img_ref img \<and> img_tag img' = img_tag img"
begin

lemma OriginalString_kept: "validate img opts = Ret (img', r) \<Longrightarrow> OriginalString img' = OriginalString img"
  by (auto simp: OriginalString_def dest: frame)

lemma Name_after_SetDigest:
  assumes "validate img opts = Ret (img', r)"
  shows "Name (SetDigest img' d) = Name (SetDigest img d)"
  using frame [OF assms] by (simp add: Name_def SetDigest_def Let_def Context_def)

end

text \<open>What its liveness rests on: the method returns, too.\<close>

locale validator_method = keeps_image +
  assumes returns: "\<exists>img' r. validate img opts = Ret (img', r)"
begin

lemma no_panic: "\<not> panics (validate img opts)"
  using returns [of img opts] by auto

end

text \<open>A method whose calls each have a contract of their own, with the schedule of this call for instance.\<close>

lemma keeps_image_of_calls:
  assumes "\<And>img opts. keeps_image (f img opts)"
  shows "keeps_image (\<lambda>img opts. f img opts img opts)"
  using assms by unfold_locales (blast dest: keeps_image.frame)

lemma validator_method_of_calls:
  assumes "\<And>img opts. validator_method (f img opts)"
  shows "validator_method (\<lambda>img opts. f img opts img opts)"
proof -
  have "keeps_image (\<lambda>img opts. f img opts img opts)"
    by (rule keeps_image_of_calls) (rule validator_method.axioms(1)[OF assms])
  then show ?thesis
    using validator_method.returns[OF assms] by (simp add: validator_method_def validator_method_axioms_def)
qed

interpretation static: validator_method "StaticValidator_ValidateImage sv"
  by unfold_locales (auto simp: StaticValidator_ValidateImage_def)

end
