(* ===== verification/Auth_Load.thy ===== *)
theory Auth_Load
  imports Trust_Auth Image_Ref Files Validator_Iface
begin

text \<open>
  \<open>internal/validator/auth/auth.go\<close>: the loading of registry credentials from the files of a secret.
  The file system, the YAML decoder of a credential file and the reader of a Docker configuration are
  parameters (the record \<open>auth_ext\<close>).
\<close>

section \<open>Definitions\<close>

abbreviation SecretsDir :: string where "SecretsDir \<equiv> ''/app/secrets''"
abbreviation DefaultAuthFile :: string where "DefaultAuthFile \<equiv> ''secret.yaml''"
abbreviation DockerAuthFile :: string where "DockerAuthFile \<equiv> ''.dockerconfigjson''"

text \<open>The anonymous struct of a default credential file.\<close>

record auth_file =
  af_Username :: string
  af_Password :: string
  af_Registry :: string

text \<open>
  \<open>au_LoadDocker\<close> gives the entries of the Docker configuration in the order in which the loop over
  the map visits them.
\<close>

record auth_ext =
  au_cwd :: "string res"
  au_EvalSymlinks :: "string \<Rightarrow> string res"
  au_ReadFile :: "string \<Rightarrow> string res"
  au_Unmarshal :: "string \<Rightarrow> auth_file res"
  au_Open :: "string \<Rightarrow> string res"
  au_LoadDocker :: "string \<Rightarrow> (string \<times> AuthEntry) list res"
  au_newRegistry :: "string \<Rightarrow> string option"
  au_newRepository :: "string \<Rightarrow> string option"

abbreviation registry_of :: "auth_ext \<Rightarrow> string \<Rightarrow> RegistryRepo res" where
  "registry_of ax s \<equiv> NewRegistryRepo (au_newRegistry ax) (au_newRepository ax) s"

definition readDefaultAuthFile :: "auth_ext \<Rightarrow> string \<Rightarrow> (string \<times> AuthEntry) list res" where
  "readDefaultAuthFile ax filePath =
     (case au_ReadFile ax filePath of
        Inl err \<Rightarrow> Inl (''unable to read secret '' @ filePath @ '': '' @ err)
      | Inr secretBytes \<Rightarrow>
     (case au_Unmarshal ax secretBytes of
        Inl err \<Rightarrow> Inl err
      | Inr af \<Rightarrow>
          let registry = (if af_Registry af = [] then EmptyAuthRegistry else af_Registry af)
          in case registry_of ax registry of
               Inl err \<Rightarrow> Inl (''unable to parse registry '' @ registry @ '': '' @ err)
             | Inr rr \<Rightarrow>
                 Inr [(RegistryRepo_String rr, \<lparr>ae_Username = af_Username af, ae_Password = af_Password af\<rparr>)]))"

text \<open>The loop over the entries of the Docker configuration.\<close>

fun docker_entries ::
  "auth_ext \<Rightarrow> (string \<times> AuthEntry) list \<Rightarrow> (string \<times> AuthEntry) list \<Rightarrow> (string \<times> AuthEntry) list res" where
  "docker_entries ax [] authCfgs = Inr authCfgs"
| "docker_entries ax ((key, val) # entries) authCfgs =
     (case registry_of ax key of
        Inl err \<Rightarrow> Inl (''unable to parse registry '' @ key @ '': '' @ err)
      | Inr rr \<Rightarrow> docker_entries ax entries (map_put (RegistryRepo_String rr) val authCfgs))"

definition readDockerAuthFile :: "auth_ext \<Rightarrow> string \<Rightarrow> (string \<times> AuthEntry) list res" where
  "readDockerAuthFile ax filePath =
     (case au_Open ax filePath of
        Inl err \<Rightarrow> Inl err
      | Inr secretFile \<Rightarrow>
     (case au_LoadDocker ax secretFile of
        Inl err \<Rightarrow> Inl err
      | Inr cfg \<Rightarrow> docker_entries ax cfg []))"

text \<open>The loop over the two kinds of files: the first one that exists is read.\<close>

fun read_secret ::
  "auth_ext \<Rightarrow> string \<Rightarrow> (string \<times> (string \<Rightarrow> (string \<times> AuthEntry) list res)) list \<Rightarrow>
     (string \<times> AuthEntry) list res" where
  "read_secret ax secretName [] = Inl (''no authentication file for secret '' @ secretName)"
| "read_secret ax secretName ((fileName, readFunction) # cases) =
     (case SafeFileName (au_cwd ax) (au_EvalSymlinks ax) SecretsDir [secretName, fileName] of
        Inl err \<Rightarrow> read_secret ax secretName cases
      | Inr file \<Rightarrow>
          (case readFunction file of
             Inl err \<Rightarrow> Inl (''error reading authentication file '' @ file @ '': '' @ err)
           | Inr authConfigs \<Rightarrow> Inr authConfigs))"

definition auth_cases :: "auth_ext \<Rightarrow> (string \<times> (string \<Rightarrow> (string \<times> AuthEntry) list res)) list" where
  "auth_cases ax = [(DefaultAuthFile, readDefaultAuthFile ax), (DockerAuthFile, readDockerAuthFile ax)]"

definition Auth_UnmarshalYAML :: "auth_ext \<Rightarrow> Auth \<Rightarrow> (string \<Rightarrow> yaml option) res \<Rightarrow> Auth res go" where
  "Auth_UnmarshalYAML ax a unmarshalled =
     (case unmarshalled of
        Inl err \<Rightarrow> Ret (Inl err)
      | Inr vdata \<Rightarrow>
          (case vdata ''secretName'' of
             Some (YString secretName) \<Rightarrow>
               Ret (map_sum id (\<lambda>cfgs. a\<lparr>AuthConfigs := cfgs\<rparr>) (read_secret ax secretName (auth_cases ax)))
           | Some _ \<Rightarrow> Panic ''interface conversion''
           | None \<Rightarrow>
               (case vdata ''useKeychain'' of
                  Some (YBool b) \<Rightarrow> Ret (Inr (a\<lparr>UseKeychain := b\<rparr>))
                | Some _ \<Rightarrow> Panic ''interface conversion''
                | None \<Rightarrow> Ret (Inl ''neither secretName nor useKeychain defined''))))"

section \<open>Lemmas\<close>

text \<open>
  The loop over the Docker configuration: it fails at a key that does not parse, and otherwise builds a map
  whose keys are the normalised registries, each with one of the entries for it.
\<close>

lemma docker_entries_Cons:
  "docker_entries ax ((k, v) # es) cfgs = Inr cfgs' \<longleftrightarrow>
     (\<exists>rr. registry_of ax k = Inr rr \<and> docker_entries ax es (map_put (RegistryRepo_String rr) v cfgs) = Inr cfgs')"
  by (cases "registry_of ax k") simp_all

lemma docker_entries_dom:
  "docker_entries ax es cfgs = Inr cfgs' \<Longrightarrow> dom (map_of cfgs) \<subseteq> dom (map_of cfgs')"
proof (induction es arbitrary: cfgs)
  case (Cons x es)
  then show ?case by (cases x) (force simp: docker_entries_Cons simp del: docker_entries.simps(2))
qed simp

lemma docker_entries_keys:
  assumes "docker_entries ax es cfgs = Inr cfgs'" and "(k, v) \<in> set es"
  shows "\<exists>rr. registry_of ax k = Inr rr \<and> RegistryRepo_String rr \<in> dom (map_of cfgs')"
  using assms
proof (induction es arbitrary: cfgs)
  case (Cons x es)
  obtain k' v' rr where x: "x = (k', v')" "registry_of ax k' = Inr rr"
    and rest: "docker_entries ax es (map_put (RegistryRepo_String rr) v' cfgs) = Inr cfgs'"
    using Cons.prems(1) by (cases x) (auto simp: docker_entries_Cons simp del: docker_entries.simps(2))
  have "RegistryRepo_String rr \<in> dom (map_of cfgs')" using docker_entries_dom[OF rest] by auto
  with Cons.IH[OF rest] Cons.prems(2) x show ?case by auto
qed simp

lemma docker_entries_origin:
  assumes "docker_entries ax es cfgs = Inr cfgs'" and "map_of cfgs' r = Some e"
  shows "map_of cfgs r = Some e \<or> (\<exists>k rr. (k, e) \<in> set es \<and> registry_of ax k = Inr rr \<and> r = RegistryRepo_String rr)"
  using assms
proof (induction es arbitrary: cfgs)
  case (Cons x es)
  obtain k v rr where x: "x = (k, v)" "registry_of ax k = Inr rr"
    and rest: "docker_entries ax es (map_put (RegistryRepo_String rr) v cfgs) = Inr cfgs'"
    using Cons.prems(1) by (cases x) (auto simp: docker_entries_Cons simp del: docker_entries.simps(2))
  show ?case using Cons.IH[OF rest Cons.prems(2)] x by (auto split: if_split_asm)
qed simp

text \<open>A secret is a plain name, that is one component of a path: its files lie in its own directory.\<close>

lemma SafeFileName_in_secret:
  assumes "SafeFileName cwd EvalSymlinks SecretsDir [s, f] = Inr file" and "plain s" and "plain f"
  shows "HasPrefix file (SecretsDir @ ''/'' @ s @ ''/'')"
proof -
  have one: "Split (CHR ''/'') c = [c]" if "plain c" for c using that by (simp add: plain_def Split_no)
  have base: "Abs cwd SecretsDir = Inr (rooted [''app'', ''secrets''])" by (simp add: Abs_def rooted_def) code_simp
  have "list_all plain [''app'', ''secrets'']" by code_simp
  moreover have "\<forall>e \<in> set [s, f]. ''..'' \<notin> set (Split (CHR ''/'') e)"
    using one[OF assms(2)] one[OF assms(3)] assms(2,3) by (auto simp: plain_def)
  moreover have "[s, f] = concat (map (\<lambda>e. filter kept (Split (CHR ''/'') e)) [s, f])"
    using one[OF assms(2)] one[OF assms(3)] assms(2,3) by (simp add: plain_def kept_def)
  ultimately have "HasPrefix file (rooted (butlast ([''app'', ''secrets''] @ [s, f])) @ ''/'')"
    by (rule SafeFileName_rooted(3)[OF assms(1) base])
  then show ?thesis by (simp add: rooted_def Join_Cons)
qed

text \<open>What a successful loading has read.\<close>

lemma read_secret_Inr:
  "read_secret ax s cases = Inr cfgs \<Longrightarrow>
     \<exists>f readf file. (f, readf) \<in> set cases \<and> readf file = Inr cfgs \<and>
       SafeFileName (au_cwd ax) (au_EvalSymlinks ax) SecretsDir [s, f] = Inr file"
  by (induction cases) (force split: sum.split_asm)+

lemma Auth_UnmarshalYAML_Inr:
  "Auth_UnmarshalYAML ax a unmarshalled = Ret (Inr a') \<longleftrightarrow>
     (\<exists>vdata. unmarshalled = Inr vdata \<and>
        ((\<exists>s cfgs. vdata ''secretName'' = Some (YString s) \<and> read_secret ax s (auth_cases ax) = Inr cfgs \<and>
            a' = a\<lparr>AuthConfigs := cfgs\<rparr>) \<or>
         (\<exists>b. vdata ''secretName'' = None \<and> vdata ''useKeychain'' = Some (YBool b) \<and> a' = a\<lparr>UseKeychain := b\<rparr>)))"
  by (cases unmarshalled)
    (auto simp: Auth_UnmarshalYAML_def map_sum_def split: option.split yaml.split sum.split_asm)

section \<open>An example\<close>

text \<open>A secret with a Docker configuration for Docker Hub and one team of another registry.\<close>

definition hub_entry :: AuthEntry where "hub_entry = \<lparr>ae_Username = ''hub'', ae_Password = ''p''\<rparr>"
definition team_entry :: AuthEntry where "team_entry = \<lparr>ae_Username = ''team'', ae_Password = ''q''\<rparr>"

definition example_ax :: auth_ext where
  "example_ax = \<lparr>au_cwd = Inr ''/'',
     au_EvalSymlinks = \<lambda>p. if HasSuffix p DockerAuthFile then Inr p else Inl ''no such file'',
     au_ReadFile = Inr, au_Unmarshal = \<lambda>s. Inr \<lparr>af_Username = ''u'', af_Password = ''p'', af_Registry = []\<rparr>,
     au_Open = Inr,
     au_LoadDocker = \<lambda>s. Inr [(''https://index.docker.io/v1/'', hub_entry), (''reg.io/team'', team_entry)],
     au_newRegistry = \<lambda>s. None, au_newRepository = \<lambda>s. None\<rparr>"

abbreviation no_credentials :: Auth where
  "no_credentials \<equiv> \<lparr>AuthConfigs = [], UseKeychain = False\<rparr>"

abbreviation secret_node :: "(string \<Rightarrow> yaml option) res" where
  "secret_node \<equiv> Inr [''secretName'' \<mapsto> YString ''reg'']"

definition example_credentials :: Auth where
  "example_credentials = \<lparr>AuthConfigs = [(''index.docker.io'', hub_entry), (''reg.io/team'', team_entry)], UseKeychain = False\<rparr>"

lemma example_file:
  "SafeFileName (au_cwd example_ax) (au_EvalSymlinks example_ax) SecretsDir [''reg'', DefaultAuthFile] =
     Inl ''failed to resolve /app/secrets/reg/secret.yaml: no such file''"
  "SafeFileName (au_cwd example_ax) (au_EvalSymlinks example_ax) SecretsDir [''reg'', DockerAuthFile] =
     Inr ''/app/secrets/reg/.dockerconfigjson''"
  by code_simp+

lemma example_registries:
  "registry_of example_ax ''https://index.docker.io/v1/'' =
     Inr \<lparr>rr_original = ''https://index.docker.io/v1/'', rr_registry = ''index.docker.io'', rr_repo = []\<rparr>"
  "registry_of example_ax ''reg.io/team'' =
     Inr \<lparr>rr_original = ''reg.io/team'', rr_registry = ''reg.io'', rr_repo = ''team''\<rparr>"
  by code_simp+

lemma example_docker: "readDockerAuthFile example_ax file = Inr (AuthConfigs example_credentials)"
proof -
  have "docker_entries example_ax [(''https://index.docker.io/v1/'', hub_entry), (''reg.io/team'', team_entry)] [] =
      Inr (AuthConfigs example_credentials)" by code_simp
  then show ?thesis by (simp add: readDockerAuthFile_def example_ax_def)
qed

lemma example_auth: "Auth_UnmarshalYAML example_ax no_credentials secret_node = Ret (Inr example_credentials)"
proof -
  have "read_secret example_ax ''reg'' (auth_cases example_ax) = Inr (AuthConfigs example_credentials)"
    unfolding auth_cases_def read_secret.simps example_file sum.case example_docker ..
  then show ?thesis by (simp add: Auth_UnmarshalYAML_def example_credentials_def)
qed

section \<open>Properties\<close>

text \<open>
  C24 (safety). Credentials come from the files of their secret: if the secret has a plain name (no separator, not
  \<open>.\<close> or \<open>..\<close>), whatever the loading returns was read from a file below the directory of this secret,
  symbolic links included, and by the reader for this kind of file.
\<close>
theorem Auth_credentials_in_secret:
  assumes "Auth_UnmarshalYAML ax a (Inr vdata) = Ret (Inr a')" and "vdata ''secretName'' = Some (YString s)" and "plain s"
  shows "\<exists>file. HasPrefix file (SecretsDir @ ''/'' @ s @ ''/'') \<and> UseKeychain a' = UseKeychain a \<and>
    (readDefaultAuthFile ax file = Inr (AuthConfigs a') \<or> readDockerAuthFile ax file = Inr (AuthConfigs a'))"
proof -
  have "read_secret ax s (auth_cases ax) = Inr (AuthConfigs a')" and k: "UseKeychain a' = UseKeychain a"
    using assms(1,2) by (auto simp: Auth_UnmarshalYAML_Inr)
  then obtain f readf fn where f: "(f, readf) \<in> set (auth_cases ax)" "readf fn = Inr (AuthConfigs a')"
    "SafeFileName (au_cwd ax) (au_EvalSymlinks ax) SecretsDir [s, f] = Inr fn"
    using read_secret_Inr by blast
  have "plain f" using f(1) by (auto simp: auth_cases_def plain_def)
  from SafeFileName_in_secret[OF f(3) assms(3) this] f(1,2) k show ?thesis by (auto simp: auth_cases_def)
qed

theorem Auth_credentials_in_secret_witness:
  "\<exists>file. HasPrefix file ''/app/secrets/reg/'' \<and> readDockerAuthFile example_ax file = Inr (AuthConfigs example_credentials)"
proof -
  have "plain ''reg''" by code_simp
  from Auth_credentials_in_secret[OF example_auth _ this] example_docker show ?thesis by auto
qed

text \<open>
  C23 (functional). The credentials of a Docker configuration are used for the images of their registry: when a secret
  has only a Docker configuration, the lookup for an image returns the entry of the longest of its
  registries (normalised: without scheme, and without the \<open>/v1/\<close> of Docker Hub) that is a prefix of the image,
  in whatever order the loop visits the entries, provided that no two entries for
  the same registry differ.
\<close>
theorem docker_credentials_used:
  assumes "Auth_UnmarshalYAML ax a (Inr vdata) = Ret (Inr a')" and "vdata ''secretName'' = Some (YString s)"
    and "\<exists>err. SafeFileName (au_cwd ax) (au_EvalSymlinks ax) SecretsDir [s, DefaultAuthFile] = Inl err"
    and "SafeFileName (au_cwd ax) (au_EvalSymlinks ax) SecretsDir [s, DockerAuthFile] = Inr file"
    and "au_Open ax file = Inr content" and "au_LoadDocker ax content = Inr es" and "(k, e) \<in> set es"
    and "registry_of ax k = Inr rr" and "RegistryRepo_String rr \<noteq> []" and "HasPrefix img (RegistryRepo_String rr)"
    and "\<forall>(k', e') \<in> set es. \<forall>rr'. registry_of ax k' = Inr rr' \<and> HasPrefix img (RegistryRepo_String rr') \<longrightarrow>
      length (RegistryRepo_String rr') \<le> length (RegistryRepo_String rr) \<and>
      (RegistryRepo_String rr' = RegistryRepo_String rr \<longrightarrow> e' = e)"
  shows "LookUp a' img = e"
proof -
  obtain cfgs where "read_secret ax s (auth_cases ax) = Inr cfgs" and a': "a' = a\<lparr>AuthConfigs := cfgs\<rparr>"
    using assms(1,2) by (auto simp: Auth_UnmarshalYAML_Inr)
  then have docker: "docker_entries ax es [] = Inr cfgs"
    using assms(3-6) by (auto simp: auth_cases_def readDockerAuthFile_def split: sum.split_asm)
  note entry = docker_entries_origin[OF docker]
  obtain e' where e': "map_of cfgs (RegistryRepo_String rr) = Some e'"
    using docker_entries_keys[OF docker assms(7)] assms(8) by auto
  with entry assms(10,11) have "e' = e" by fastforce
  have "length k' \<le> length (RegistryRepo_String rr)" if "k' \<in> dom (map_of (AuthConfigs a'))" "HasPrefix img k'" for k'
    using that entry assms(11) a' by fastforce
  with LookUp_longest[of a' "RegistryRepo_String rr" e img] e' \<open>e' = e\<close> a' assms(9,10) show ?thesis by simp
qed

theorem docker_credentials_used_witness:
  "LookUp example_credentials ''index.docker.io/library/nginx'' = hub_entry"
proof (rule docker_credentials_used[OF example_auth _ _ example_file(2) _ _ _ example_registries(1)])
  let ?es = "[(''https://index.docker.io/v1/'', hub_entry), (''reg.io/team'', team_entry)]"
  show "au_LoadDocker example_ax ''/app/secrets/reg/.dockerconfigjson'' = Inr ?es"
    by (simp add: example_ax_def)
  show "au_Open example_ax ''/app/secrets/reg/.dockerconfigjson'' = Inr ''/app/secrets/reg/.dockerconfigjson''"
    by (simp add: example_ax_def)
qed (simp_all add: example_file example_registries RegistryRepo_String_def)

end
