(* ===== verification/Config.thy ===== *)
theory Config
  imports Validator_Iface
begin

text \<open>
  Package \<open>internal/config\<close>: lookup of a validator by name and of the most specific policy rule
  that matches an image. Glob compilation (\<open>github.com/gobwas/glob\<close>) is a parameter: \<^const>\<open>None\<close>
  is the panic of \<open>glob.MustCompile\<close>, \<open>Some g\<close> the compiled matcher. The \<open>Alerting\<close> field of
  the struct is read by no code of the program and left out.
\<close>

section \<open>Definitions\<close>

type_synonym glob = "string \<Rightarrow> (string \<Rightarrow> bool) option"

record Config =
  Validators :: "Validator list"
  Rules :: "Rule list"

fun find_validator :: "string \<Rightarrow> Validator list \<Rightarrow> Validator res" where
  "find_validator key [] =
     Inl (''validator '' @ [CHR 0x22] @ key @ [CHR 0x22] @ '' not found'')"
| "find_validator key (v # vs) = (if v_Name v = key then Inr v else find_validator key vs)"

definition Config_Validator :: "Config \<Rightarrow> string \<Rightarrow> Validator res" where
  "Config_Validator c key =
     (let key = (if key = [] then ''default'' else key) in find_validator key (Validators c))"

text \<open>The wildcards that \<open>MatchingRule\<close> adds to a pattern before compiling it.\<close>

definition wildcard :: "string \<Rightarrow> string" where
  "wildcard pattern =
     (let pattern = (if \<not> HasPrefix pattern ''*'' then ''*'' @ pattern else pattern)
      in if \<not> HasSuffix pattern ''*'' then pattern @ ''*'' else pattern)"

fun match_loop :: "glob \<Rightarrow> string \<Rightarrow> Match \<Rightarrow> Rule list \<Rightarrow> Match go" where
  "match_loop glob img bestMatch [] = Ret bestMatch"
| "match_loop glob img bestMatch (rule # rules) =
     (case glob (wildcard (rule_Pattern rule)) of
        None \<Rightarrow> Panic ''glob: MustCompile''
      | Some g \<Rightarrow>
          if g img
          then go_bind (NewMatch rule img) (\<lambda>match.
               go_bind (Compare match bestMatch) (\<lambda>best. match_loop glob img best rules))
          else match_loop glob img bestMatch rules)"

definition MatchingRule :: "glob \<Rightarrow> Config \<Rightarrow> string \<Rightarrow> Rule res go" where
  "MatchingRule glob c img =
     go_bind (NewMatch zero_Rule []) (\<lambda>start.
     go_bind (match_loop glob img start (Rules c)) (\<lambda>bestMatch.
       Ret (if rule_Pattern (m_Rule bestMatch) = [] then Inl ''no matching rule''
            else Inr (m_Rule bestMatch))))"

subsection \<open>Specification\<close>

definition matches :: "glob \<Rightarrow> string \<Rightarrow> Rule \<Rightarrow> bool" where
  "matches glob img r \<longleftrightarrow>
     (case glob (wildcard (rule_Pattern r)) of None \<Rightarrow> False | Some g \<Rightarrow> g img)"

text \<open>
  A policy is usable for an image: every pattern compiles and is not empty (the \<open>required\<close>
  validation of the configuration), and a pattern that matches has no more components than the
  image (true of patterns whose slashes are outside of alternatives and character classes).
\<close>

definition policy_ok :: "glob \<Rightarrow> Config \<Rightarrow> string \<Rightarrow> bool" where
  "policy_ok glob c img \<longleftrightarrow>
     list_all (\<lambda>r. glob (wildcard (rule_Pattern r)) \<noteq> None \<and> rule_Pattern r \<noteq> [] \<and>
                   (matches glob img r \<longrightarrow>
                      count_list (rule_Pattern r) (CHR ''/'') \<le> count_list img (CHR ''/'')))
       (Rules c)"

abbreviation spec_rank :: "string \<Rightarrow> Rule \<Rightarrow> nat \<times> nat list \<times> nat list" where
  "spec_rank img r \<equiv> pattern_rank img (rule_Pattern r)"

section \<open>MatchingRule returns the most specific rule\<close>

definition start_match :: Match where
  "start_match = \<lparr>m_Rule = zero_Rule, componentCount = 1, componentLengths = [0], prefixLengths = [0]\<rparr>"

lemma NewMatch_start: "NewMatch zero_Rule [] = Ret start_match"
proof -
  have "LongestCommonPrefix [[], []] = Ret []"
    by (simp add: LongestCommonPrefix_pair ascii_def)
  then show ?thesis by (simp add: NewMatch_def zero_Rule_def start_match_def)
qed

lemma start_match_wf [simp]: "wf_match start_match"
  by (simp add: start_match_def wf_match_def)

lemma rank_start_le:
  assumes "NewMatch r img = Ret m"
  shows "rank start_match \<le> rank m"
proof -
  have "wf_match m" using NewMatch_Ret(1) [OF assms] .
  moreover have "0 < componentCount m"
    using NewMatch_Ret(3) [OF assms] by (simp add: rank_def pattern_rank_def Let_def)
  ultimately show ?thesis
    by (cases "componentLengths m"; cases "prefixLengths m")
      (auto simp: rank_def start_match_def wf_match_def less_eq_prod_def)
qed

lemma match_loop_select:
  assumes "list_all (\<lambda>r. glob (wildcard (rule_Pattern r)) \<noteq> None \<and>
       (matches glob img r \<longrightarrow>
          count_list (rule_Pattern r) (CHR ''/'') \<le> count_list img (CHR ''/''))) rules"
  shows "\<exists>ms. list_all2 (\<lambda>r m. NewMatch r img = Ret m) (filter (matches glob img) rules) ms \<and>
              (\<forall>b. match_loop glob img b rules = match_choice.select b ms)"
  using assms
proof (induction rules)
  case (Cons r rules)
  then obtain ms where ms: "list_all2 (\<lambda>r m. NewMatch r img = Ret m) (filter (matches glob img) rules) ms"
    "\<And>b. match_loop glob img b rules = match_choice.select b ms" by auto
  from Cons.prems obtain g where g: "glob (wildcard (rule_Pattern r)) = Some g" by auto
  show ?case
  proof (cases "g img")
    case True
    with g have r: "matches glob img r" by (simp add: matches_def)
    with Cons.prems obtain m where m: "NewMatch r img = Ret m"
      using NewMatch_returns [of r img] by auto
    with ms g True r show ?thesis by (intro exI [of _ "m # ms"]) simp
  next
    case False
    with g have "\<not> matches glob img r" by (simp add: matches_def)
    with ms g False show ?thesis by (intro exI [of _ ms]) simp
  qed
qed simp

lemma list_all2_map_key:
  "list_all2 (\<lambda>r m. NewMatch r img = Ret m) rs ms \<Longrightarrow>
   map m_Rule ms = rs \<and> map rank ms = map (spec_rank img) rs \<and> list_all wf_match ms"
  by (induction rule: list_all2_induct) (auto dest: NewMatch_Ret)

lemma MatchingRule_cases:
  assumes ok: "policy_ok glob c img"
  shows "(if filter (matches glob img) (Rules c) = []
          then MatchingRule glob c img = Ret (Inl ''no matching rule'')
          else \<exists>us r vs. filter (matches glob img) (Rules c) = us @ r # vs \<and>
                 (\<forall>u\<in>set us. spec_rank img u \<le> spec_rank img r) \<and>
                 (\<forall>v\<in>set vs. spec_rank img v < spec_rank img r) \<and>
                 MatchingRule glob c img = Ret (Inr r))"
proof -
  let ?rs = "filter (matches glob img) (Rules c)"
  obtain ms where ms: "list_all2 (\<lambda>r m. NewMatch r img = Ret m) ?rs ms"
    and loop: "match_loop glob img start_match (Rules c) = match_choice.select start_match ms"
    using match_loop_select [of glob img "Rules c"] ok unfolding policy_ok_def
    by (auto simp: list_all_iff)
  from list_all2_map_key [OF ms] have rules: "map m_Rule ms = ?rs"
    and keys: "map rank ms = map (spec_rank img) ?rs" and wf: "list_all wf_match ms" by auto
  obtain b where b: "match_choice.select start_match ms = Ret b"
    using match_choice.select_returns [OF start_match_wf wf] by auto
  have MR: "MatchingRule glob c img =
      Ret (if rule_Pattern (m_Rule b) = [] then Inl ''no matching rule'' else Inr (m_Rule b))"
    by (simp add: MatchingRule_def NewMatch_start loop b)
  obtain us vs where split: "start_match # ms = us @ b # vs"
    and us: "\<forall>u\<in>set us. rank u \<le> rank b" and vs: "\<forall>v\<in>set vs. rank v < rank b"
    using match_choice.select_last_max [OF start_match_wf wf b] by blast
  show ?thesis
  proof (cases "?rs = []")
    case True
    with ms b have "b = start_match" by simp
    then have "rule_Pattern (m_Rule b) = []" by (simp add: start_match_def zero_Rule_def)
    with MR True show ?thesis by simp
  next
    case False
    then obtain m ms' where mm: "ms = m # ms'" using rules by (cases ms) auto
    with ms obtain r where "NewMatch r img = Ret m" by (auto simp: list_all2_Cons2)
    with mm split vs rank_start_le have "us \<noteq> []" by (cases us) (auto simp: leD)
    then obtain us' where us': "us = start_match # us'" "ms = us' @ b # vs"
      using split by (cases us) auto
    have eq: "?rs = map m_Rule us' @ m_Rule b # map m_Rule vs" using rules us'(2) by simp
    have ranks: "map rank us' = map (spec_rank img) (map m_Rule us')"
      "rank b = spec_rank img (m_Rule b)" "map rank vs = map (spec_rank img) (map m_Rule vs)"
      using keys unfolding rules [symmetric] us'(2) by simp_all
    have "m_Rule b \<in> set ?rs" by (simp add: eq)
    with ok have "rule_Pattern (m_Rule b) \<noteq> []" by (auto simp: policy_ok_def list_all_iff)
    with MR have "MatchingRule glob c img = Ret (Inr (m_Rule b))" by simp
    moreover have "\<forall>u\<in>set (map m_Rule us'). spec_rank img u \<le> spec_rank img (m_Rule b)"
      "\<forall>v\<in>set (map m_Rule vs). spec_rank img v < spec_rank img (m_Rule b)"
      using us vs ranks us'(1) by (auto simp: map_eq_conv)
    ultimately show ?thesis unfolding if_not_P [OF False] using eq by blast
  qed
qed

text \<open>
  C12 (functional). For a usable policy with a matching rule, \<open>MatchingRule\<close> terminates without
  panic and returns the matching rule of the highest rank (more components, then longer prefixes
  from the left, then longer components from the left); among equally ranked rules it is the one
  that comes last in the configuration.
\<close>

theorem MatchingRule_most_specific:
  assumes "policy_ok glob c img" and "r0 \<in> set (Rules c)" and "matches glob img r0"
  shows "\<exists>us r vs. filter (matches glob img) (Rules c) = us @ r # vs \<and>
           (\<forall>u\<in>set us. spec_rank img u \<le> spec_rank img r) \<and>
           (\<forall>v\<in>set vs. spec_rank img v < spec_rank img r) \<and>
           MatchingRule glob c img = Ret (Inr r)"
proof -
  have "filter (matches glob img) (Rules c) \<noteq> []"
    using assms(2,3) by (auto simp: filter_empty_conv)
  with MatchingRule_cases [OF assms(1)] show ?thesis by simp
qed

definition example_rule :: "string \<Rightarrow> Rule" where
  "example_rule p = zero_Rule\<lparr>rule_Pattern := p\<rparr>"

definition example_config :: Config where
  "example_config = \<lparr>Validators = [], Rules = [example_rule ''*:*'', example_rule ''docker.io/*'']\<rparr>"

definition match_all :: glob where
  "match_all p = Some (\<lambda>s. True)"

lemma example_policy_ok: "policy_ok match_all example_config ''docker.io/a:1''"
  by (simp add: policy_ok_def example_config_def example_rule_def match_all_def)

theorem MatchingRule_most_specific_witness:
  "MatchingRule match_all example_config ''docker.io/a:1'' = Ret (Inr (example_rule ''docker.io/*''))"
proof -
  let ?img = "''docker.io/a:1''"
  have all: "filter (matches match_all ?img) (Rules example_config) =
      [example_rule ''*:*'', example_rule ''docker.io/*'']"
    by (simp add: matches_def match_all_def example_config_def)
  have lt: "spec_rank ?img (example_rule ''*:*'') < spec_rank ?img (example_rule ''docker.io/*'')"
    by (simp add: pattern_rank_def example_rule_def zero_Rule_def less_prod_def)
  obtain us r vs where r: "[example_rule ''*:*'', example_rule ''docker.io/*''] = us @ r # vs"
    "\<forall>u\<in>set us. spec_rank ?img u \<le> spec_rank ?img r"
    "\<forall>v\<in>set vs. spec_rank ?img v < spec_rank ?img r"
    "MatchingRule match_all example_config ?img = Ret (Inr r)"
    using MatchingRule_most_specific [OF example_policy_ok, of "example_rule ''*:*''"]
    unfolding all by (auto simp: matches_def match_all_def example_config_def)
  with lt show ?thesis by (auto simp: Cons_eq_append_conv)
qed

text \<open>
  For a usable policy \<open>MatchingRule\<close> reports \<open>no matching rule\<close> exactly when no
  rule of the configuration matches the image.
\<close>

theorem MatchingRule_none:
  assumes "policy_ok glob c img"
  shows "MatchingRule glob c img = Ret (Inl ''no matching rule'')
         \<longleftrightarrow> \<not> list_ex (matches glob img) (Rules c)"
  using MatchingRule_cases [OF assms]
  by (auto simp: list_ex_iff filter_empty_conv split: if_splits)

theorem MatchingRule_none_witness:
  "MatchingRule (\<lambda>p. Some (\<lambda>s. False)) example_config ''docker.io/a:1'' = Ret (Inl ''no matching rule'')"
  using MatchingRule_none [of "\<lambda>p. Some (\<lambda>s. False)" example_config "''docker.io/a:1''"]
  by (simp add: policy_ok_def matches_def example_config_def example_rule_def zero_Rule_def)

text \<open>
  The hypothesis on components is needed: a rule whose pattern matches although it
  has more components than the image (a glob with alternatives such as \<open>{a/b/c/d,*}\<close>) makes
  \<open>MatchingRule\<close> index the image's components out of range, which ends the process.
\<close>

theorem MatchingRule_component_panic:
  assumes "Rules c = r # rs" and "matches glob img r"
    and "count_list img (CHR ''/'') < count_list (rule_Pattern r) (CHR ''/'')"
  shows "panics (MatchingRule glob c img)"
proof -
  obtain g where "glob (wildcard (rule_Pattern r)) = Some g" "g img"
    using assms(2) by (auto simp: matches_def split: option.splits)
  moreover have "panics (NewMatch r img)" using assms(3) by (simp add: NewMatch_panics)
  ultimately show ?thesis using assms(1) by (simp add: MatchingRule_def NewMatch_start)
qed

theorem MatchingRule_component_panic_witness:
  "panics (MatchingRule match_all \<lparr>Validators = [], Rules = [example_rule ''{a/b/c/d,*}'']\<rparr> ''reg.io/img:1'')"
  by (rule MatchingRule_component_panic [where r = "example_rule ''{a/b/c/d,*}''" and rs = "[]"])
    (simp_all add: matches_def match_all_def example_rule_def)

section \<open>Lookup of validators\<close>

lemma find_validator_eq:
  "find_validator key vs =
     (case find (\<lambda>v. v_Name v = key) vs of Some v \<Rightarrow> Inr v
      | None \<Rightarrow> Inl (''validator '' @ [CHR 0x22] @ key @ [CHR 0x22] @ '' not found''))"
  by (induction vs) auto

lemma Config_Validator_Inr:
  "Config_Validator c key = Inr v \<Longrightarrow>
   v \<in> set (Validators c) \<and> v_Name v = (if key = [] then ''default'' else key)"
  by (auto simp: Config_Validator_def find_validator_eq Let_def find_Some_iff split: option.splits if_splits)

end
