(* ===== verification/Caching.thy ===== *)
theory Caching
  imports Utils "HOL-Library.Word"
begin

text \<open>
  Package \<open>internal/caching\<close>: the choice of the cache implementation and its expiry
  (\<open>caching.go\<close>), the disabled cache (\<open>empty.go\<close>) and the Redis cache (\<open>redis.go\<close>) over an
  abstract client of the library \<open>go-redis\<close>. A value of the Go interface \<open>Cacher\<close> is the
  record of the methods the program calls, over the state \<open>'w\<close> of the cache server. The locale
  \<open>cache_contract\<close> is what the validation handler may rely on.
\<close>

section \<open>Definitions\<close>

subsection \<open>The interface\<close>

record 'w Cacher =
  cache_Get :: "'w \<Rightarrow> string \<Rightarrow> string res"
  cache_Set :: "'w \<Rightarrow> string \<Rightarrow> string \<Rightarrow> 'w \<times> string option"
  cache_Del :: "'w \<Rightarrow> string list \<Rightarrow> 'w \<times> string option"
  cache_Keys :: "'w \<Rightarrow> string \<Rightarrow> string list res"
  cache_Ping :: "'w \<Rightarrow> string option"

subsection \<open>empty.go\<close>

definition EmptyCache_Get :: "'w \<Rightarrow> string \<Rightarrow> string res" where
  "EmptyCache_Get w key = Inl ''cache disabled''"

definition EmptyCache_Set :: "'w \<Rightarrow> string \<Rightarrow> string \<Rightarrow> 'w \<times> string option" where
  "EmptyCache_Set w key value = (w, None)"

definition EmptyCache :: "'w Cacher" where
  "EmptyCache = \<lparr>cache_Get = EmptyCache_Get, cache_Set = EmptyCache_Set,
     cache_Del = (\<lambda>w keys. (w, None)), cache_Keys = (\<lambda>w pattern. Inr []), cache_Ping = (\<lambda>w. None)\<rparr>"

subsection \<open>redis.go\<close>

text \<open>
  The methods of \<open>redis.Client\<close> the wrapper calls; \<open>Set\<close> takes the expiry as a 64-bit number
  of nanoseconds.
\<close>

record 'w redis_client =
  client_Get :: "'w \<Rightarrow> string \<Rightarrow> string res"
  client_Set :: "'w \<Rightarrow> string \<Rightarrow> string \<Rightarrow> 64 word \<Rightarrow> 'w \<times> string option"
  client_Del :: "'w \<Rightarrow> string list \<Rightarrow> 'w \<times> string option"
  client_Keys :: "'w \<Rightarrow> string \<Rightarrow> string list res"
  client_Ping :: "'w \<Rightarrow> string res"

record 'w Redis =
  redisClient :: "'w redis_client"
  expiry :: "64 word"

definition Redis_Get :: "'w Redis \<Rightarrow> 'w \<Rightarrow> string \<Rightarrow> string res" where
  "Redis_Get r w key = client_Get (redisClient r) w key"

definition Redis_Set :: "'w Redis \<Rightarrow> 'w \<Rightarrow> string \<Rightarrow> string \<Rightarrow> 'w \<times> string option" where
  "Redis_Set r w key value = client_Set (redisClient r) w key value (expiry r)"

definition Redis_Del :: "'w Redis \<Rightarrow> 'w \<Rightarrow> string list \<Rightarrow> 'w \<times> string option" where
  "Redis_Del r w keys = client_Del (redisClient r) w keys"

definition Redis_Keys :: "'w Redis \<Rightarrow> 'w \<Rightarrow> string \<Rightarrow> string list res" where
  "Redis_Keys r w pattern = client_Keys (redisClient r) w pattern"

definition Redis_Ping :: "'w Redis \<Rightarrow> 'w \<Rightarrow> string option" where
  "Redis_Ping r w = (case client_Ping (redisClient r) w of Inl err \<Rightarrow> Some err | Inr _ \<Rightarrow> None)"

definition Redis_Cacher :: "'w Redis \<Rightarrow> 'w Cacher" where
  "Redis_Cacher r = \<lparr>cache_Get = Redis_Get r, cache_Set = Redis_Set r, cache_Del = Redis_Del r,
     cache_Keys = Redis_Keys r, cache_Ping = Redis_Ping r\<rparr>"

definition NewRedis :: "'w redis_client \<Rightarrow> 64 word \<Rightarrow> 'w Redis" where
  "NewRedis client exp = \<lparr>redisClient = client, expiry = exp\<rparr>"

subsection \<open>caching.go\<close>

text \<open>\<open>strconv.ParseInt(s, 10, 64)\<close>: an optional sign and decimal digits within 64 bits.\<close>

definition ParseInt64 :: "string \<Rightarrow> int option" where
  "ParseInt64 s =
     (case s of
        [] \<Rightarrow> None
      | c # t \<Rightarrow>
          (let neg = (c = CHR ''-''); ds = (if c = CHR ''-'' \<or> c = CHR ''+'' then t else s)
           in if ds = [] then None
              else case digits_value 0 ds of
                     None \<Rightarrow> None
                   | Some v \<Rightarrow>
                       let n = (if neg then - v else v)
                       in if - (2 ^ 63) \<le> n \<and> n < 2 ^ 63 then Some n else None))"

abbreviation CacheExpirySecondsKey :: string where
  "CacheExpirySecondsKey \<equiv> ''CACHE_EXPIRY_SECONDS''"
abbreviation CacheErrorsKey :: string where
  "CacheErrorsKey \<equiv> ''CACHE_ERRORS''"

text \<open>The configured number of seconds, 30 by default.\<close>

definition expiry_seconds :: "env \<Rightarrow> int" where
  "expiry_seconds e =
     (case e CacheExpirySecondsKey of
        None \<Rightarrow> 30
      | Some configured \<Rightarrow> (case ParseInt64 configured of None \<Rightarrow> 30 | Some n \<Rightarrow> n))"

text \<open>\<open>time.Duration(seconds) * time.Second\<close>, a 64-bit multiplication.\<close>

definition seconds_duration :: "int \<Rightarrow> 64 word" where
  "seconds_duration n = word_of_int n * 1000000000"

definition NewCacher :: "'w redis_client \<Rightarrow> env \<Rightarrow> 'w Cacher" where
  "NewCacher client e =
     (let expirySeconds = expiry_seconds e
      in if expirySeconds \<le> 0 then EmptyCache
         else Redis_Cacher (NewRedis client (seconds_duration expirySeconds)))"

text \<open>
  \<open>CacheErrors\<close> returns what \<open>ParseBool\<close> returned even where that failed, and then the value
  beside the error is false.
\<close>

definition CacheErrors :: "env \<Rightarrow> bool" where
  "CacheErrors e =
     (case e CacheErrorsKey of
        None \<Rightarrow> True
      | Some configured \<Rightarrow> (case ParseBool configured of Some b \<Rightarrow> b | None \<Rightarrow> False))"

section \<open>The contract of a cache\<close>

text \<open>
  A lookup after a store gives the stored value or misses (the entry may have expired, the store
  may have failed); a store under one key never shows under another.
\<close>

locale cache_contract =
  fixes cache :: "'w Cacher"
  assumes get_set_same:
      "cache_Get cache (fst (cache_Set cache w k v)) k = Inr x \<Longrightarrow> x = v \<or> cache_Get cache w k = Inr x"
    and get_set_other:
      "k' \<noteq> k \<Longrightarrow> cache_Get cache (fst (cache_Set cache w k v)) k' = Inr x \<Longrightarrow>
       cache_Get cache w k' = Inr x"
begin

text \<open>A run of stores, and where the values of a later lookup come from.\<close>

primrec stores :: "'w \<Rightarrow> (string \<times> string) list \<Rightarrow> 'w" where
  "stores w [] = w"
| "stores w (kv # kvs) = stores (fst (cache_Set cache w (fst kv) (snd kv))) kvs"

lemma get_after_stores:
  "cache_Get cache (stores w kvs) k = Inr x \<Longrightarrow> (k, x) \<in> set kvs \<or> cache_Get cache w k = Inr x"
proof (induction kvs arbitrary: w)
  case (Cons kv kvs)
  let ?w = "fst (cache_Set cache w (fst kv) (snd kv))"
  from Cons have "(k, x) \<in> set kvs \<or> cache_Get cache ?w k = Inr x" by simp
  then show ?case
    by (cases "k = fst kv") (auto dest: get_set_same get_set_other simp: prod_eq_iff)
qed simp

end

interpretation empty_cache: cache_contract EmptyCache
  by unfold_locales (simp_all add: EmptyCache_def EmptyCache_Get_def)

text \<open>
  The documented behaviour of a Redis server as far as the wrapper needs it: \<open>SET\<close> with any
  expiry leaves the other keys alone and the stored value or nothing under its key.
\<close>

locale redis_server =
  fixes client :: "'w redis_client"
  assumes redis_same: "client_Get client (fst (client_Set client w k v d)) k = Inr x \<Longrightarrow>
      x = v \<or> client_Get client w k = Inr x"
    and redis_other: "k' \<noteq> k \<Longrightarrow> client_Get client (fst (client_Set client w k v d)) k' = Inr x \<Longrightarrow>
      client_Get client w k' = Inr x"

sublocale redis_server \<subseteq> cached: cache_contract "Redis_Cacher (NewRedis client d)" for d
  by unfold_locales
    (auto simp: Redis_Cacher_def Redis_Get_def Redis_Set_def NewRedis_def dest: redis_same redis_other)

text \<open>
  A reference server with a clock: an entry is visible until its deadline. It shows that the
  hypotheses on the client can be met.
\<close>

type_synonym store = "nat \<times> (string \<times> string \<times> nat) list"

definition store_get :: "store \<Rightarrow> string \<Rightarrow> string res" where
  "store_get s k =
     (case map_of (snd s) k of
        None \<Rightarrow> Inl ''redis: nil''
      | Some (v, deadline) \<Rightarrow> if fst s < deadline then Inr v else Inl ''redis: nil'')"

definition store_set :: "store \<Rightarrow> string \<Rightarrow> string \<Rightarrow> 64 word \<Rightarrow> store \<times> string option" where
  "store_set s k v d = ((fst s, (k, v, fst s + unat d) # snd s), None)"

definition store_client :: "store redis_client" where
  "store_client = \<lparr>client_Get = store_get, client_Set = store_set,
     client_Del = (\<lambda>s keys. ((fst s, filter (\<lambda>e. fst e \<notin> set keys) (snd s)), None)),
     client_Keys = (\<lambda>s pattern. Inr (map fst (snd s))), client_Ping = (\<lambda>s. Inr ''PONG'')\<rparr>"

interpretation store_server: redis_server store_client
  by unfold_locales
    (auto simp: store_client_def store_get_def store_set_def split: if_splits option.splits)

section \<open>Expiry and error caching\<close>

text \<open>
  \<open>ParseInt\<close> reads back every 64-bit number in its decimal form, so the
  configured cache expiry is the number the deployment wrote into the environment.
\<close>

theorem ParseInt64_Itoa:
  assumes "- (2 ^ 63) \<le> n" and "n < 2 ^ 63"
  shows "ParseInt64 (Itoa n) = Some n"
proof (cases "n < 0")
  case True
  with assms show ?thesis
    by (simp add: ParseInt64_def Itoa_def digits_value_decimal)
next
  case False
  obtain c t where ct: "decimal (nat n) = c # t" "c \<noteq> CHR ''-''" "c \<noteq> CHR ''+''"
    using decimal_first by blast
  have "digits_value 0 (c # t) = Some n" using digits_value_decimal [of "nat n"] ct(1) False by simp
  with assms ct False show ?thesis
    by (simp add: ParseInt64_def Itoa_def del: digits_value.simps)
qed

theorem ParseInt64_Itoa_witness: "ParseInt64 (Itoa (-30)) = Some (-30)"
  by (rule ParseInt64_Itoa) simp_all

text \<open>
  The expiry passed to Redis is the configured number of seconds in nanoseconds
  exactly up to 9223372036 seconds; from there on the 64-bit multiplication wraps around.
\<close>

theorem seconds_duration_bounds:
  assumes "0 \<le> n" and "n < 2 ^ 63"
  shows "sint (seconds_duration n) = n * 1000000000 \<longleftrightarrow> n \<le> 9223372036"
proof -
  have "seconds_duration n = word_of_int (n * 1000000000)"
    by (simp add: seconds_duration_def)
  then have "sint (seconds_duration n) = signed_take_bit 63 (n * 1000000000)"
    by (simp only: sint_sbintrunc') simp
  then show ?thesis using assms by (simp add: signed_take_bit_int_eq_self_iff) arith
qed

theorem seconds_duration_bounds_witness: "sint (seconds_duration 30) = 30000000000"
  using seconds_duration_bounds [of 30] by simp

text \<open>
  For a value that is not a boolean \<open>CacheErrors\<close> switches error caching off, while
  its warning announces the default, on, and an unset variable does switch it on.
\<close>

theorem CacheErrors_invalid:
  assumes "e CacheErrorsKey = Some s" and "ParseBool s = None"
  shows "\<not> CacheErrors e \<and> CacheErrors (e(CacheErrorsKey := None))"
  using assms by (simp add: CacheErrors_def)

theorem CacheErrors_invalid_witness: "\<not> CacheErrors [CacheErrorsKey \<mapsto> ''not a bool'']"
  using CacheErrors_invalid [of "[CacheErrorsKey \<mapsto> ''not a bool'']" "''not a bool''"]
  by (simp add: ParseBool_def)

end
