(* ===== verification/Json.thy ===== *)
theory Json
  imports Go_Prelude
begin

text \<open>
  The JSON code the program uses: \<open>JsonEscapeString\<close> of \<open>internal/utils/strings.go\<close> over the string
  encoder of \<open>encoding/json\<close> (HTML escaping off), and \<open>json.Unmarshal\<close> as far as the struct of the
  cached entries needs it: a parser for JSON values with Go's string unquoting (escapes,
  surrogates, replacement of invalid UTF-8) and the assignment of string fields. The round trip of
  the escaping through the parser is what the cache relies on.
\<close>

section \<open>Definitions\<close>

subsection \<open>UTF-8\<close>

abbreviation byte :: "char \<Rightarrow> nat" where
  "byte c \<equiv> of_char c"

definition cont :: "char \<Rightarrow> bool" where
  "cont c \<longleftrightarrow> 128 \<le> byte c \<and> byte c \<le> 191"

text \<open>The sequences of two, three and four bytes that are well-formed, and their code points.\<close>

definition ok3 :: "char \<Rightarrow> char \<Rightarrow> char \<Rightarrow> bool" where
  "ok3 a b c \<longleftrightarrow> cont b \<and> cont c \<and> (byte a = 224 \<longrightarrow> 160 \<le> byte b) \<and> (byte a = 237 \<longrightarrow> byte b \<le> 159)"

definition ok4 :: "char \<Rightarrow> char \<Rightarrow> char \<Rightarrow> char \<Rightarrow> bool" where
  "ok4 a b c d \<longleftrightarrow> cont b \<and> cont c \<and> cont d \<and> (byte a = 240 \<longrightarrow> 144 \<le> byte b)
                  \<and> (byte a = 244 \<longrightarrow> byte b \<le> 143)"

definition rune2 :: "char \<Rightarrow> char \<Rightarrow> nat" where
  "rune2 a b = (byte a - 192) * 64 + (byte b - 128)"

definition rune3 :: "char \<Rightarrow> char \<Rightarrow> char \<Rightarrow> nat" where
  "rune3 a b c = (byte a - 224) * 4096 + (byte b - 128) * 64 + (byte c - 128)"

definition rune4 :: "char \<Rightarrow> char \<Rightarrow> char \<Rightarrow> char \<Rightarrow> nat" where
  "rune4 a b c d = (byte a - 240) * 262144 + (byte b - 128) * 4096 + (byte c - 128) * 64
                   + (byte d - 128)"

text \<open>\<open>utf8.DecodeRuneInString\<close>: the code point and its width; \<open>(65533, 1)\<close> for an invalid byte.\<close>

fun decode_rune :: "string \<Rightarrow> nat \<times> nat" where
  "decode_rune [] = (65533, 0)"
| "decode_rune (a # t) =
     (if byte a < 128 then (byte a, 1)
      else if 194 \<le> byte a \<and> byte a \<le> 223 then
        (case t of b # _ \<Rightarrow> if cont b then (rune2 a b, 2) else (65533, 1) | _ \<Rightarrow> (65533, 1))
      else if 224 \<le> byte a \<and> byte a \<le> 239 then
        (case t of b # c # _ \<Rightarrow> if ok3 a b c then (rune3 a b c, 3) else (65533, 1)
         | _ \<Rightarrow> (65533, 1))
      else if 240 \<le> byte a \<and> byte a \<le> 244 then
        (case t of b # c # d # _ \<Rightarrow> if ok4 a b c d then (rune4 a b c d, 4) else (65533, 1)
         | _ \<Rightarrow> (65533, 1))
      else (65533, 1))"

declare decode_rune.simps(2) [simp del]

text \<open>\<open>utf8.AppendRune\<close>.\<close>

definition encode_rune :: "nat \<Rightarrow> string" where
  "encode_rune r =
     (let r = (if (55296 \<le> r \<and> r \<le> 57343) \<or> 1114111 < r then 65533 else r)
      in if r < 128 then [char_of r]
         else if r < 2048 then [char_of (192 + r div 64), char_of (128 + r mod 64)]
         else if r < 65536 then
           [char_of (224 + r div 4096), char_of (128 + r div 64 mod 64), char_of (128 + r mod 64)]
         else [char_of (240 + r div 262144), char_of (128 + r div 4096 mod 64),
               char_of (128 + r div 64 mod 64), char_of (128 + r mod 64)])"

subsection \<open>Encoding of strings\<close>

definition hex_digit :: "nat \<Rightarrow> char" where
  "hex_digit n = (if n < 10 then char_of (48 + n) else char_of (87 + n))"

abbreviation DQ :: char where "DQ \<equiv> CHR 0x22"
abbreviation BS :: char where "BS \<equiv> CHR 0x5C"

definition escape_ascii :: "char \<Rightarrow> string" where
  "escape_ascii c =
     (if c = DQ \<or> c = BS then [BS, c]
      else if 32 \<le> byte c then [c]
      else if byte c = 8 then [BS, CHR ''b'']
      else if byte c = 12 then [BS, CHR ''f'']
      else if byte c = 10 then [BS, CHR ''n'']
      else if byte c = 13 then [BS, CHR ''r'']
      else if byte c = 9 then [BS, CHR ''t'']
      else [BS, CHR ''u'', CHR ''0'', CHR ''0'', hex_digit (byte c div 16), hex_digit (byte c mod 16)])"

function json_escape :: "string \<Rightarrow> string" where
  "json_escape [] = []"
| "json_escape (a # s) =
     (if byte a < 128 then escape_ascii a @ json_escape s
      else
        let (r, n) = decode_rune (a # s)
        in if r = 65533 \<and> n = 1 then [BS] @ ''ufffd'' @ json_escape s
           else if r = 8232 \<or> r = 8233
           then [BS] @ ''u202'' @ [hex_digit (r mod 16)] @ json_escape (drop (n - 1) s)
           else take n (a # s) @ json_escape (drop (n - 1) s))"
  by pat_completeness auto
termination by (relation "measure length") auto

definition Encode :: "string \<Rightarrow> string" where
  "Encode s = [DQ] @ json_escape s @ [DQ, CHR 0x0A]"

text \<open>The slice \<open>o[1 : len(o)-2]\<close>.\<close>

definition JsonEscapeString :: "string \<Rightarrow> string" where
  "JsonEscapeString i = (let o' = Encode i in drop 1 (take (length o' - 2) o'))"

subsection \<open>Decoding of strings\<close>

definition hex_value :: "char \<Rightarrow> nat option" where
  "hex_value c =
     (let x = byte c in
      if 48 \<le> x \<and> x \<le> 57 then Some (x - 48)
      else if 97 \<le> x \<and> x \<le> 102 then Some (x - 87)
      else if 65 \<le> x \<and> x \<le> 70 then Some (x - 55) else None)"

fun getu4 :: "string \<Rightarrow> (nat \<times> string) option" where
  "getu4 (a # b # c # d # s) =
     (case (hex_value a, hex_value b, hex_value c, hex_value d) of
        (Some w, Some x, Some y, Some z) \<Rightarrow> Some (w * 4096 + x * 256 + y * 16 + z, s)
      | _ \<Rightarrow> None)"
| "getu4 _ = None"

definition simple_escape :: "char \<Rightarrow> char option" where
  "simple_escape e =
     (if e = DQ \<or> e = BS \<or> e = CHR ''/'' then Some e
      else if e = CHR ''b'' then Some (CHR 0x08)
      else if e = CHR ''f'' then Some (CHR 0x0C)
      else if e = CHR ''n'' then Some (CHR 0x0A)
      else if e = CHR ''r'' then Some (CHR 0x0D)
      else if e = CHR ''t'' then Some (CHR 0x09) else None)"

text \<open>The low half of a surrogate pair, if an escape with one follows.\<close>

fun low_surrogate :: "nat \<Rightarrow> string \<Rightarrow> (nat \<times> string) option" where
  "low_surrogate r (x # u # s) =
     (if x = BS \<and> u = CHR ''u'' then
        (case getu4 s of
           Some (r', s') \<Rightarrow>
             if 55296 \<le> r \<and> r < 56320 \<and> 56320 \<le> r' \<and> r' < 57344
             then Some ((r - 55296) * 1024 + (r' - 56320) + 65536, s') else None
         | None \<Rightarrow> None)
      else None)"
| "low_surrogate r _ = None"

definition prepend :: "string \<Rightarrow> (string \<times> string) option \<Rightarrow> (string \<times> string) option" where
  "prepend p res = map_option (\<lambda>(v, rest). (p @ v, rest)) res"

lemma getu4_shorter: "getu4 s = Some (r, s') \<Longrightarrow> length s' < length s"
  by (induction s rule: getu4.induct) (auto split: option.splits)

lemma low_surrogate_shorter: "low_surrogate r s = Some (r', s') \<Longrightarrow> length s' < length s"
  by (induction r s rule: low_surrogate.induct)
    (auto split: option.splits if_splits dest: getu4_shorter)

text \<open>
  The rest of a string literal after its opening quote: its value and what follows the closing
  quote; \<^const>\<open>None\<close> where the literal is malformed.
\<close>

function unquote :: "string \<Rightarrow> (string \<times> string) option" where
  "unquote [] = None"
| "unquote (a # s) =
     (if a = DQ then Some ([], s)
      else if a = BS then
        (case s of
           [] \<Rightarrow> None
         | e # t \<Rightarrow>
             if e = CHR ''u'' then
               (case getu4 t of
                  None \<Rightarrow> None
                | Some (r, t') \<Rightarrow>
                    if 55296 \<le> r \<and> r \<le> 57343 then
                      (case low_surrogate r t' of
                         Some (r', t'') \<Rightarrow> prepend (encode_rune r') (unquote t'')
                       | None \<Rightarrow> prepend (encode_rune 65533) (unquote t'))
                    else prepend (encode_rune r) (unquote t'))
             else (case simple_escape e of None \<Rightarrow> None | Some c \<Rightarrow> prepend [c] (unquote t)))
      else if byte a < 32 then None
      else if byte a < 128 then prepend [a] (unquote s)
      else let (r, n) = decode_rune (a # s)
           in prepend (encode_rune r) (unquote (drop (n - 1) s)))"
  by pat_completeness auto
termination
  by (relation "measure length") (auto dest!: getu4_shorter low_surrogate_shorter)

subsection \<open>Decoding of values\<close>

datatype json = JNull | JBool bool | JNumber | JString string
  | JArray "json list" | JObject "(string \<times> json) list"

definition skip_ws :: "string \<Rightarrow> string" where
  "skip_ws s = dropWhile (\<lambda>c. c = CHR 0x20 \<or> c = CHR 0x09 \<or> c = CHR 0x0D \<or> c = CHR 0x0A) s"

definition is_digit :: "char \<Rightarrow> bool" where
  "is_digit c \<longleftrightarrow> 48 \<le> byte c \<and> byte c \<le> 57"

text \<open>What follows a non-empty run of digits, an optional fraction, an optional exponent.\<close>

definition digits_rest :: "string \<Rightarrow> string option" where
  "digits_rest s = (case s of a # _ \<Rightarrow> if is_digit a then Some (dropWhile is_digit s) else None
                    | [] \<Rightarrow> None)"

definition fraction_rest :: "string \<Rightarrow> string option" where
  "fraction_rest s = (case s of a # t \<Rightarrow> if a = CHR ''.'' then digits_rest t else Some s
                      | [] \<Rightarrow> Some [])"

definition exponent_rest :: "string \<Rightarrow> string option" where
  "exponent_rest s =
     (case s of
        a # t \<Rightarrow>
          if a = CHR ''e'' \<or> a = CHR ''E''
          then digits_rest (case t of b # u \<Rightarrow> if b = CHR ''+'' \<or> b = CHR ''-'' then u else t
                            | [] \<Rightarrow> [])
          else Some s
      | [] \<Rightarrow> Some [])"

definition number_rest :: "string \<Rightarrow> string option" where
  "number_rest s =
     (let s = TrimPrefix s ''-''
      in Option.bind (case s of a # t \<Rightarrow> if a = CHR ''0'' then Some t else digits_rest s
                      | [] \<Rightarrow> None)
           (\<lambda>t. Option.bind (fraction_rest t) exponent_rest))"

text \<open>
  Values, object members and array elements. The first argument is fuel (each call spends one
  unit and consumes input, so the length of the text is enough), the second the nesting depth,
  which Go limits to 10000.
\<close>

fun parse_value :: "nat \<Rightarrow> nat \<Rightarrow> string \<Rightarrow> (json \<times> string) option"
  and parse_members :: "nat \<Rightarrow> nat \<Rightarrow> string \<Rightarrow> ((string \<times> json) list \<times> string) option"
  and parse_elements :: "nat \<Rightarrow> nat \<Rightarrow> string \<Rightarrow> (json list \<times> string) option" where
  "parse_value 0 d s = None"
| "parse_value (Suc n) d s =
     (case skip_ws s of
        [] \<Rightarrow> None
      | a # t \<Rightarrow>
          if a = DQ then map_option (\<lambda>(v, r). (JString v, r)) (unquote t)
          else if a = CHR ''{'' then
            (if 10000 \<le> d then None
             else case skip_ws t of
                    [] \<Rightarrow> None
                  | b # u \<Rightarrow> if b = CHR ''}'' then Some (JObject [], u)
                             else map_option (\<lambda>(ms, r). (JObject ms, r))
                                    (parse_members n (Suc d) (b # u)))
          else if a = CHR ''['' then
            (if 10000 \<le> d then None
             else case skip_ws t of
                    [] \<Rightarrow> None
                  | b # u \<Rightarrow> if b = CHR '']'' then Some (JArray [], u)
                             else map_option (\<lambda>(vs, r). (JArray vs, r))
                                    (parse_elements n (Suc d) (b # u)))
          else if HasPrefix (a # t) ''true'' then Some (JBool True, drop 4 (a # t))
          else if HasPrefix (a # t) ''false'' then Some (JBool False, drop 5 (a # t))
          else if HasPrefix (a # t) ''null'' then Some (JNull, drop 4 (a # t))
          else map_option (\<lambda>r. (JNumber, r)) (number_rest (a # t)))"
| "parse_members 0 d s = None"
| "parse_members (Suc n) d s =
     (case skip_ws s of
        [] \<Rightarrow> None
      | a # t \<Rightarrow>
          if a \<noteq> DQ then None
          else case unquote t of
            None \<Rightarrow> None
          | Some (k, r) \<Rightarrow>
              (case skip_ws r of
                 [] \<Rightarrow> None
               | b # r' \<Rightarrow>
                   if b \<noteq> CHR '':'' then None
                   else case parse_value n d r' of
                     None \<Rightarrow> None
                   | Some (v, r'') \<Rightarrow>
                       (case skip_ws r'' of
                          [] \<Rightarrow> None
                        | c # q \<Rightarrow>
                            if c = CHR '','' then map_option (\<lambda>(ms, x). ((k, v) # ms, x)) (parse_members n d q)
                            else if c = CHR ''}'' then Some ([(k, v)], q) else None)))"
| "parse_elements 0 d s = None"
| "parse_elements (Suc n) d s =
     (case parse_value n d s of
        None \<Rightarrow> None
      | Some (v, r) \<Rightarrow>
          (case skip_ws r of
             [] \<Rightarrow> None
           | c # q \<Rightarrow>
               if c = CHR '','' then map_option (\<lambda>(vs, x). (v # vs, x)) (parse_elements n d q)
               else if c = CHR '']'' then Some ([v], q) else None))"

definition parse_json :: "string \<Rightarrow> json option" where
  "parse_json s = (case parse_value (2 * length s + 2) 0 s of
                     Some (v, r) \<Rightarrow> if skip_ws r = [] then Some v else None
                   | None \<Rightarrow> None)"

subsection \<open>The cached entry: skip.go\<close>

record CachedEntry =
  ce_Digest :: string
  ce_Error :: string

text \<open>
  Field names match without regard to case; besides the ASCII letters the long s folds to \<open>s\<close>.
\<close>

fun fold_name :: "string \<Rightarrow> string" where
  "fold_name (a # b # s) =
     (if byte a = 197 \<and> byte b = 191 then CHR ''s'' # fold_name s else lower_byte a # fold_name (b # s))"
| "fold_name s = map lower_byte s"

text \<open>
  Assignment of the members in order: a null leaves the field, a value of another type is an
  error that \<open>Unmarshal\<close> reports after decoding the rest; unknown members are ignored.
\<close>

fun assign_members :: "(string \<times> json) list \<Rightarrow> CachedEntry \<Rightarrow> CachedEntry res" where
  "assign_members [] e = Inr e"
| "assign_members ((k, v) # ms) e =
     (if fold_name k = ''digest'' then
        (case v of JString x \<Rightarrow> assign_members ms (e\<lparr>ce_Digest := x\<rparr>)
         | JNull \<Rightarrow> assign_members ms e
         | _ \<Rightarrow> Inl ''json: cannot unmarshal into field digest'')
      else if fold_name k = ''error'' then
        (case v of JString x \<Rightarrow> assign_members ms (e\<lparr>ce_Error := x\<rparr>)
         | JNull \<Rightarrow> assign_members ms e
         | _ \<Rightarrow> Inl ''json: cannot unmarshal into field error'')
      else assign_members ms e)"

definition Unmarshal_CachedEntry :: "string \<Rightarrow> CachedEntry res" where
  "Unmarshal_CachedEntry s =
     (case parse_json s of
        None \<Rightarrow> Inl ''invalid json''
      | Some JNull \<Rightarrow> Inr \<lparr>ce_Digest = [], ce_Error = []\<rparr>
      | Some (JObject ms) \<Rightarrow> assign_members ms \<lparr>ce_Digest = [], ce_Error = []\<rparr>
      | Some _ \<Rightarrow> Inl ''json: cannot unmarshal into CachedEntry'')"

text \<open>The text that \<open>ValidateImage\<close> stores: \<open>{"digest":"%s","error":"%s"}\<close>.\<close>

definition cache_value :: "string \<Rightarrow> string \<Rightarrow> string" where
  "cache_value digest err =
     [CHR ''{'', DQ] @ ''digest'' @ [DQ, CHR '':'', DQ] @ JsonEscapeString digest @
     [DQ, CHR '','', DQ] @ ''error'' @ [DQ, CHR '':'', DQ] @ JsonEscapeString err @ [DQ, CHR ''}'']"

section \<open>Escaping and unquoting\<close>

declare unquote.simps(2) [simp del] json_escape.simps(2) [simp del] getu4.simps(1) [simp del]

lemma unquote_DQ [simp]: "unquote (DQ # s) = Some ([], s)"
  by (simp add: unquote.simps)

lemma JsonEscapeString_eq: "JsonEscapeString s = json_escape s"
  by (simp add: JsonEscapeString_def Encode_def Let_def)

text \<open>What a decoder sees of a byte string: invalid bytes become U+FFFD.\<close>

function sanitize :: "string \<Rightarrow> string" where
  "sanitize [] = []"
| "sanitize (a # s) =
     (if byte a < 128 then a # sanitize s
      else let (r, n) = decode_rune (a # s) in encode_rune r @ sanitize (drop (n - 1) s))"
  by pat_completeness auto
termination by (relation "measure length") auto

lemma hex_value_digit [simp]: "n < 16 \<Longrightarrow> hex_value (hex_digit n) = Some n"
  by (simp add: hex_value_def hex_digit_def Let_def)

lemma char_of_byte_eq: "byte c = n \<Longrightarrow> c = char_of n"
  by (metis char_of_char)

lemma encode_rune_ascii: "r < 128 \<Longrightarrow> encode_rune r = [char_of r]"
  by (simp add: encode_rune_def Let_def)

lemma unquote_escape_ascii:
  assumes "byte a < 128"
  shows "unquote (escape_ascii a @ s) = prepend [a] (unquote s)"
proof -
  consider "a = DQ" | "a = BS" | "a \<noteq> DQ" "a \<noteq> BS" "32 \<le> byte a"
    | "byte a \<in> {8, 12, 10, 13, 9}" | "byte a < 32" "byte a \<notin> {8, 12, 10, 13, 9}"
    by fastforce
  then show ?thesis
  proof cases
    case 3
    with assms show ?thesis by (simp add: escape_ascii_def unquote.simps(2))
  next
    case 4
    then have "a \<in> {CHR 0x08, CHR 0x0C, CHR 0x0A, CHR 0x0D, CHR 0x09}"
      by (simp add: of_char_eq_iff [symmetric, where ?'a = nat] del: of_char_eq_iff)
    then show ?thesis by (auto simp: escape_ascii_def simple_escape_def unquote.simps(2))
  next
    case 5
    then have "a \<noteq> DQ" "a \<noteq> BS" by auto
    moreover have "byte a div 16 < 16" "byte a mod 16 < 16" using 5 by auto
    moreover have "byte a div 16 * 16 + byte a mod 16 = byte a" by simp
    moreover have "hex_value (CHR ''0'') = Some 0" by (simp add: hex_value_def)
    ultimately show ?thesis using 5
      by (simp add: escape_ascii_def encode_rune_ascii unquote.simps(2) getu4.simps)
  qed (simp_all add: escape_ascii_def simple_escape_def unquote.simps(2))
qed

text \<open>A decoded multi-byte sequence depends on its own bytes only.\<close>

lemma decode_rune_cases:
  assumes "decode_rune (a # s) = (r, n)" and "128 \<le> byte a"
  obtains (invalid) "r = 65533" "n = 1"
  | (two) b u where "s = b # u" "n = 2" "194 \<le> byte a" "byte a \<le> 223" "cont b" "r = rune2 a b"
  | (three) b c u where "s = b # c # u" "n = 3" "224 \<le> byte a" "byte a \<le> 239" "ok3 a b c"
      "r = rune3 a b c"
  | (four) b c d u where "s = b # c # d # u" "n = 4" "240 \<le> byte a" "byte a \<le> 244" "ok4 a b c d"
      "r = rune4 a b c d"
proof -
  consider (2) "194 \<le> byte a \<and> byte a \<le> 223" | (3) "224 \<le> byte a \<and> byte a \<le> 239"
    | (4) "240 \<le> byte a \<and> byte a \<le> 244"
    | (0) "\<not> (194 \<le> byte a \<and> byte a \<le> 223)" "\<not> (224 \<le> byte a \<and> byte a \<le> 239)"
      "\<not> (240 \<le> byte a \<and> byte a \<le> 244)" by blast
  then show ?thesis
  proof cases
    case 2
    with assms invalid two show ?thesis
      by (auto simp: decode_rune.simps split: list.splits if_split_asm)
  next
    case 3
    with assms invalid three show ?thesis
      by (auto simp: decode_rune.simps split: list.splits if_split_asm)
  next
    case 4
    with assms invalid four show ?thesis
      by (auto simp: decode_rune.simps split: list.splits if_split_asm)
  next
    case 0
    with assms invalid show ?thesis by (simp add: decode_rune.simps)
  qed
qed

lemma decode_rune_local:
  assumes "decode_rune (a # s) = (r, n)" and "128 \<le> byte a" and "\<not> (r = 65533 \<and> n = 1)"
  shows "1 < n" "n \<le> length (a # s)" "decode_rune (a # take (n - 1) s @ t) = (r, n)"
  using assms(1,2)
  by (cases rule: decode_rune_cases; use assms(3) in \<open>simp add: decode_rune.simps take_Cons'\<close>)+

lemma getu4_literals:
  "n < 16 \<Longrightarrow> getu4 (''202'' @ hex_digit n # s) = Some (8224 + n, s)"
  "getu4 (''fffd'' @ s) = Some (65533, s)"
  by (simp_all add: getu4.simps hex_value_def [of "CHR ''2''"] hex_value_def [of "CHR ''0''"]
      hex_value_def [of "CHR ''f''"] hex_value_def [of "CHR ''d''"])

lemma unquote_rune:
  "128 \<le> byte a \<Longrightarrow>
   unquote (a # s) = (let (r, n) = decode_rune (a # s)
                      in prepend (encode_rune r) (unquote (drop (n - 1) s)))"
  by (subst unquote.simps) (auto simp: Let_def)

lemma prepend_Some [simp]: "prepend p (Some (v, r)) = Some (p @ v, r)"
  by (simp add: prepend_def)

lemma unquote_u: "unquote (BS # CHR ''u'' # t) =
    (case getu4 t of
       None \<Rightarrow> None
     | Some (r, t') \<Rightarrow>
         if 55296 \<le> r \<and> r \<le> 57343 then
           (case low_surrogate r t' of
              Some (r', t'') \<Rightarrow> prepend (encode_rune r') (unquote t'')
            | None \<Rightarrow> prepend (encode_rune 65533) (unquote t'))
         else prepend (encode_rune r) (unquote t'))"
  by (subst unquote.simps) simp

lemma prepend_prepend [simp]: "prepend a (prepend b x) = prepend (a @ b) x"
  by (cases x) (auto simp: prepend_def)

lemma prepend_Nil [simp]: "prepend [] x = x"
  by (cases x) (auto simp: prepend_def)

text \<open>Escaped text is read back whatever follows it: it never ends the string and never joins with its context.\<close>

lemma unquote_escape_append: "unquote (json_escape s @ t) = prepend (sanitize s) (unquote t)"
proof (induction s rule: json_escape.induct)
  case 1
  show ?case by simp
next
  case (2 a s)
  show ?case
  proof (cases "byte a < 128")
    case True
    with 2 show ?thesis by (simp add: json_escape.simps unquote_escape_ascii)
  next
    case False
    obtain r n where rn: "decode_rune (a # s) = (r, n)" by force
    consider "r = 65533" "n = 1" | "r = 8232 \<or> r = 8233"
      | "\<not> (r = 65533 \<and> n = 1)" "r \<noteq> 8232" "r \<noteq> 8233" by blast
    then show ?thesis
    proof cases
      case 1
      have "unquote (BS # CHR ''u'' # ''fffd'' @ json_escape s @ t) =
          prepend (encode_rune 65533 @ sanitize s) (unquote t)"
        using 2(2) [OF False] rn 1 by (simp only: unquote_u getu4_literals) simp
      with False rn 1 show ?thesis by (simp add: json_escape.simps)
    next
      case 2
      then have r: "r mod 16 < 16" "8224 + r mod 16 = r" "\<not> (r = 65533 \<and> n = 1)" by auto
      have "unquote (BS # CHR ''u'' # ''202'' @ hex_digit (r mod 16) # json_escape (drop (n - 1) s) @ t) =
          prepend (encode_rune r @ sanitize (drop (n - 1) s)) (unquote t)"
        using 2 "2.IH"(3) [OF False] rn r
        by (simp only: unquote_u getu4_literals) auto
      with False rn 2 show ?thesis by (auto simp: json_escape.simps)
    next
      case 3
      from False have a: "128 \<le> byte a" by simp
      note loc = decode_rune_local [OF rn a 3(1)]
      let ?t = "json_escape (drop (n - 1) s)"
      have "unquote (a # take (n - 1) s @ ?t @ t) =
          prepend (encode_rune r) (unquote (?t @ t))"
        using loc by (subst unquote_rune [OF a]) (simp add: min_def)
      moreover have "take n (a # s) = a # take (n - 1) s" using loc(1) by (cases n) auto
      ultimately show ?thesis using False rn 3 "2.IH"(4) [OF False]
        by (auto simp: json_escape.simps)
    qed
  qed
qed

lemma unquote_escape: "unquote (json_escape s @ DQ # rest) = Some (sanitize s, rest)"
  by (simp add: unquote_escape_append prepend_def)

lemma sanitize_ascii: "ascii s \<Longrightarrow> sanitize s = s"
  by (induction s) (simp_all add: ascii_def)

section \<open>The cached entry\<close>

lemma unquote_plain:
  "a \<noteq> DQ \<Longrightarrow> a \<noteq> BS \<Longrightarrow> 32 \<le> byte a \<Longrightarrow> byte a < 128 \<Longrightarrow>
   unquote (a # s) = prepend [a] (unquote s)"
  by (simp add: unquote.simps)

lemma skip_ws_other [simp]:
  "a \<noteq> CHR 0x20 \<Longrightarrow> a \<noteq> CHR 0x09 \<Longrightarrow> a \<noteq> CHR 0x0D \<Longrightarrow> a \<noteq> CHR 0x0A \<Longrightarrow> skip_ws (a # s) = a # s"
  "skip_ws [] = []"
  by (simp_all add: skip_ws_def)

lemma fold_name_fields: "fold_name ''digest'' = ''digest''" "fold_name ''error'' = ''error''"
  by (simp_all add: lower_byte_def)

lemma parse_cache_value:
  "parse_value (Suc (Suc (Suc (Suc n)))) 0 (cache_value d e) =
     Some (JObject [(''digest'', JString (sanitize d)), (''error'', JString (sanitize e))], [])"
  by (simp add: cache_value_def JsonEscapeString_eq unquote_plain unquote_escape)

lemma Unmarshal_cache_value:
  "Unmarshal_CachedEntry (cache_value d e) = Inr \<lparr>ce_Digest = sanitize d, ce_Error = sanitize e\<rparr>"
proof -
  have "4 \<le> 2 * length (cache_value d e) + 2" by (simp add: cache_value_def)
  then obtain n where "2 * length (cache_value d e) + 2 = Suc (Suc (Suc (Suc n)))"
    by (auto simp: le_iff_add numeral_eq_Suc)
  with parse_cache_value [of n d e] show ?thesis
    by (simp add: Unmarshal_CachedEntry_def parse_json_def fold_name_fields
        del: parse_value.simps fold_name.simps)
qed

text \<open>
  C34 (roundtrip). The entry that \<open>ValidateImage\<close> formats into the cache is read back by
  \<open>json.Unmarshal\<close> with the same digest and error (invalid UTF-8 replaced): whatever quotes,
  backslashes or control characters an error message contains, it cannot forge the digest field.
\<close>

theorem cache_value_roundtrip:
  "Unmarshal_CachedEntry (cache_value d e) =
     Inr \<lparr>ce_Digest = (if ascii d then d else sanitize d),
          ce_Error = (if ascii e then e else sanitize e)\<rparr>"
  by (simp add: Unmarshal_cache_value sanitize_ascii)

end
