(* ===== verification/Workload.thy ===== *)
theory Workload
  imports Utils
begin

text \<open>
  Package \<open>internal/kubernetes\<close>: admission request objects (\<open>admission_objects.go\<close>), workload
  objects and their containers (\<open>workload_object.go\<close>) and the lookup of parent resources
  (\<open>kube_api.go\<close>). The deserializer of \<open>k8s.io/apimachinery\<close> and the Kubernetes API are
  parameters; the API types are modelled by the fields the program reads.
\<close>

section \<open>Definitions\<close>

subsection \<open>Kubernetes API types\<close>

record Container = c_Image :: string

record OwnerReference =
  or_APIVersion :: string
  or_Kind :: string
  or_Name :: string
  or_UID :: string

record GroupVersionKind =
  gvk_Group :: string
  gvk_Version :: string
  gvk_Kind :: string

record ObjectMeta =
  om_Name :: string
  om_GenerateName :: string
  om_OwnerReferences :: "OwnerReference list"
  om_DeletionTimestamp :: "string option"

record PodSpec =
  ps_Containers :: "Container list"
  ps_InitContainers :: "Container list"
  ps_EphemeralContainers :: "Container list"

text \<open>
  The objects the decoder can return. The pod template of a replication controller is a pointer,
  that of the other kinds a struct.
\<close>

datatype runtime_object =
    Pod ObjectMeta PodSpec
  | Deployment ObjectMeta PodSpec
  | ReplicationController ObjectMeta "PodSpec option"
  | ReplicaSet ObjectMeta PodSpec
  | DaemonSet ObjectMeta PodSpec
  | StatefulSet ObjectMeta PodSpec
  | Job ObjectMeta PodSpec
  | CronJob ObjectMeta PodSpec
  | OtherObject

text \<open>
  The universal decoder of apimachinery, a parameter: raw bytes and the expected kind (which also
  determines the empty object it decodes into) to the object (nil on failure), the actual kind and
  an error.
\<close>

type_synonym decoder = "string \<Rightarrow> GroupVersionKind \<Rightarrow>
    runtime_object option \<times> GroupVersionKind \<times> string option"

definition Deserialize ::
  "decoder \<Rightarrow> string \<Rightarrow> GroupVersionKind \<Rightarrow> runtime_object option \<times> string option" where
  "Deserialize decode raw gvk = (let (new_obj, actual, err) = decode raw gvk in (new_obj, err))"

subsection \<open>workload_object.go\<close>

record WorkloadObject =
  wlo_Name :: string
  wlo_Kind :: string
  wlo_Namespace :: string
  wlo_Containers :: "Container list"
  wlo_InitContainers :: "Container list"
  wlo_EphemeralContainers :: "Container list"
  wlo_Owners :: "OwnerReference list"
  wlo_Deleted :: bool

record IdxType =
  idx_Index :: nat
  idx_Type :: string

text \<open>The common end of all branches of the kind switch.\<close>

definition build_workload ::
  "string \<Rightarrow> string \<Rightarrow> string option \<Rightarrow> string \<Rightarrow> ObjectMeta \<Rightarrow> PodSpec \<Rightarrow> WorkloadObject res" where
  "build_workload kind namespace err name meta spec =
     (case err of
        Some e \<Rightarrow> Inl e
      | None \<Rightarrow>
          if ps_Containers spec = [] \<and> ps_InitContainers spec = [] \<and> ps_EphemeralContainers spec = []
          then Inl ''no containers found in workload object''
          else Inr \<lparr>wlo_Name = name, wlo_Kind = kind, wlo_Namespace = namespace,
                    wlo_Containers = ps_Containers spec, wlo_InitContainers = ps_InitContainers spec,
                    wlo_EphemeralContainers = ps_EphemeralContainers spec,
                    wlo_Owners = om_OwnerReferences meta,
                    wlo_Deleted = (om_DeletionTimestamp meta \<noteq> None)\<rparr>)"

text \<open>The kinds with a pod template read no ephemeral containers.\<close>

definition template_spec :: "PodSpec \<Rightarrow> PodSpec" where
  "template_spec s = s\<lparr>ps_EphemeralContainers := []\<rparr>"

definition NewWorkloadObjectFromBytes ::
  "decoder \<Rightarrow> string \<Rightarrow> GroupVersionKind \<Rightarrow> string \<Rightarrow> WorkloadObject res go" where
  "NewWorkloadObjectFromBytes decode raw gvk namespace =
     (let kind = gvk_Kind gvk;
          (obj, err) = Deserialize decode raw gvk;
          failed = Ret (Inl (''deserialize conversion to '' @ [CHR 0x22] @ kind @ [CHR 0x22] @
                             '' has failed''));
          build = build_workload kind namespace err
      in if kind = ''Pod'' then
           (case obj of
              Some (Pod m s) \<Rightarrow>
                Ret (build (if om_Name m = [] then om_GenerateName m else om_Name m) m s)
            | _ \<Rightarrow> failed)
         else if kind = ''Deployment'' then
           (case obj of Some (Deployment m s) \<Rightarrow> Ret (build (om_Name m) m (template_spec s)) | _ \<Rightarrow> failed)
         else if kind = ''ReplicationController'' then
           (case obj of
              Some (ReplicationController m None) \<Rightarrow> Panic ''nil pointer dereference''
            | Some (ReplicationController m (Some s)) \<Rightarrow> Ret (build (om_Name m) m (template_spec s))
            | _ \<Rightarrow> failed)
         else if kind = ''ReplicaSet'' then
           (case obj of Some (ReplicaSet m s) \<Rightarrow> Ret (build (om_Name m) m (template_spec s)) | _ \<Rightarrow> failed)
         else if kind = ''DaemonSet'' then
           (case obj of Some (DaemonSet m s) \<Rightarrow> Ret (build (om_Name m) m (template_spec s)) | _ \<Rightarrow> failed)
         else if kind = ''StatefulSet'' then
           (case obj of Some (StatefulSet m s) \<Rightarrow> Ret (build (om_Name m) m (template_spec s)) | _ \<Rightarrow> failed)
         else if kind = ''Job'' then
           (case obj of Some (Job m s) \<Rightarrow> Ret (build (om_Name m) m (template_spec s)) | _ \<Rightarrow> failed)
         else if kind = ''CronJob'' then
           (case obj of Some (CronJob m s) \<Rightarrow> Ret (build (om_Name m) m (template_spec s)) | _ \<Rightarrow> failed)
         else Ret (Inl (''unknown workload kind '' @ [CHR 0x22] @ kind @ [CHR 0x22])))"

text \<open>One container list into the map from image to positions.\<close>

fun consolidate ::
  "string \<Rightarrow> nat \<Rightarrow> Container list \<Rightarrow> (string \<times> IdxType list) list \<Rightarrow> (string \<times> IdxType list) list" where
  "consolidate ctype idx [] consolidated = consolidated"
| "consolidate ctype idx (container # cs) consolidated =
     (let newEntry = \<lparr>idx_Index = idx, idx_Type = ctype\<rparr>
      in consolidate ctype (Suc idx) cs
           (case map_of consolidated (c_Image container) of
              Some idxTypeList \<Rightarrow> map_put (c_Image container) (idxTypeList @ [newEntry]) consolidated
            | None \<Rightarrow> map_put (c_Image container) [newEntry] consolidated))"

definition ConsolidatedContainers :: "WorkloadObject \<Rightarrow> (string \<times> IdxType list) list" where
  "ConsolidatedContainers wlo =
     consolidate ''ephemeralContainers'' 0 (wlo_EphemeralContainers wlo)
       (consolidate ''initContainers'' 0 (wlo_InitContainers wlo)
         (consolidate ''containers'' 0 (wlo_Containers wlo) []))"

definition ImageSet :: "WorkloadObject \<Rightarrow> string list" where
  "ImageSet wlo =
     (let add = fold (\<lambda>c m. map_put (c_Image c) () m)
      in map fst (add (wlo_EphemeralContainers wlo)
           (add (wlo_InitContainers wlo) (add (wlo_Containers wlo) []))))"

text \<open>
  \<open>fmt.Sprintf(wlo.ContainerPathFormatString(), type, index)\<close>: the format string is applied
  at its only use.
\<close>

definition ContainerPathFormatString :: "WorkloadObject \<Rightarrow> string \<Rightarrow> nat \<Rightarrow> string" where
  "ContainerPathFormatString wlo ctype index =
     (let args = ctype @ ''/'' @ decimal index @ ''/image''
      in if wlo_Kind wlo = ''Pod'' then ''/spec/'' @ args
         else if wlo_Kind wlo = ''CronJob'' then ''/spec/jobTemplate/spec/template/spec/'' @ args
         else ''/spec/template/spec/'' @ args)"

subsection \<open>kube_api.go\<close>

text \<open>What is observed of an unstructured resource: UID, kind and JSON form.\<close>

record Unstructured =
  u_UID :: string
  u_GVK :: GroupVersionKind
  u_JSON :: "string res"

record GroupVersionResource =
  gvr_Group :: string
  gvr_Version :: string
  gvr_Resource :: string

text \<open>The dynamic client: resource, namespace and name to the resource.\<close>

type_synonym kube_client = "GroupVersionResource \<Rightarrow> string \<Rightarrow> string \<Rightarrow> Unstructured res"

definition fetchKubeResource ::
  "kube_client \<Rightarrow> string \<Rightarrow> string \<Rightarrow> string \<Rightarrow> string \<Rightarrow> string \<Rightarrow> Unstructured res" where
  "fetchKubeResource client grp vers resource namespace name =
     (let resourceId = \<lparr>gvr_Group = grp, gvr_Version = vers,
                        gvr_Resource = ToLower resource @ ''s''\<rparr>
      in case client resourceId namespace name of
           Inl err \<Rightarrow> Inl (''error getting resource: '' @ err)
         | Inr res \<Rightarrow> Inr res)"

definition group_version :: "string \<Rightarrow> string \<times> string" where
  "group_version apiVersion =
     (let groupVersion = Split (CHR ''/'') apiVersion
      in if length groupVersion > 1 then (groupVersion ! 0, groupVersion ! 1)
         else ([], groupVersion ! 0))"

text \<open>One iteration over the owners: the images it appends (none where the code continues).\<close>

definition owner_images ::
  "decoder \<Rightarrow> kube_client \<Rightarrow> string \<Rightarrow> OwnerReference \<Rightarrow> string list go" where
  "owner_images decode client namespace owner =
     (let (grp, vers) = group_version (or_APIVersion owner)
      in case fetchKubeResource client grp vers (or_Kind owner) namespace (or_Name owner) of
           Inl err \<Rightarrow> Ret []
         | Inr parent \<Rightarrow>
             if u_UID parent \<noteq> or_UID owner then Ret []
             else case u_JSON parent of
               Inl err \<Rightarrow> Ret []
             | Inr parentBytes \<Rightarrow>
                 go_bind (NewWorkloadObjectFromBytes decode parentBytes (u_GVK parent) namespace)
                   (\<lambda>r. case r of
                      Inl err \<Rightarrow> Ret []
                    | Inr parentWLO \<Rightarrow>
                        Ret (map c_Image (wlo_Containers parentWLO) @
                             map c_Image (wlo_InitContainers parentWLO) @
                             map c_Image (wlo_EphemeralContainers parentWLO))))"

fun owners_images ::
  "decoder \<Rightarrow> kube_client \<Rightarrow> string \<Rightarrow> OwnerReference list \<Rightarrow> string list \<Rightarrow> string list go" where
  "owners_images decode client namespace [] containers = Ret containers"
| "owners_images decode client namespace (owner # owners) containers =
     go_bind (owner_images decode client namespace owner) (\<lambda>imgs.
       owners_images decode client namespace owners (containers @ imgs))"

definition ParentContainerImagesFromKubeAPI ::
  "decoder \<Rightarrow> kube_client option \<Rightarrow> WorkloadObject \<Rightarrow> string list go" where
  "ParentContainerImagesFromKubeAPI decode client wlo =
     (case client of
        None \<Rightarrow> Ret []
      | Some cl \<Rightarrow> owners_images decode cl (wlo_Namespace wlo) (wlo_Owners wlo) [])"

subsection \<open>admission_objects.go\<close>

datatype Operation = Create | Update | Delete | Connect

record AdmissionRequest =
  ar_UID :: string
  ar_Kind :: GroupVersionKind
  ar_Namespace :: string
  ar_Operation :: Operation
  ar_Object :: string
  ar_OldObject :: string

record AdmissionRequestObjects =
  aro_NewObj :: WorkloadObject
  aro_OldObj :: WorkloadObject
  aro_Kind :: string
  aro_Namespace :: string
  aro_Operation :: Operation

definition empty_workload :: WorkloadObject where
  "empty_workload = \<lparr>wlo_Name = [], wlo_Kind = [], wlo_Namespace = [], wlo_Containers = [],
     wlo_InitContainers = [], wlo_EphemeralContainers = [], wlo_Owners = [], wlo_Deleted = False\<rparr>"

definition NewAdmissionRequestObjects ::
  "decoder \<Rightarrow> AdmissionRequest \<Rightarrow> AdmissionRequestObjects res go" where
  "NewAdmissionRequestObjects decode ar =
     go_bind (if ar_Operation ar = Update
              then NewWorkloadObjectFromBytes decode (ar_OldObject ar) (ar_Kind ar) (ar_Namespace ar)
              else Ret (Inr empty_workload)) (\<lambda>old.
       case old of
         Inl err \<Rightarrow> Ret (Inl (''error decoding old workload object: '' @ err))
       | Inr oldWLO \<Rightarrow>
           go_bind (NewWorkloadObjectFromBytes decode (ar_Object ar) (ar_Kind ar) (ar_Namespace ar))
             (\<lambda>new. case new of
                Inl err \<Rightarrow> Ret (Inl (''error decoding new workload object: '' @ err))
              | Inr wlo \<Rightarrow> Ret (Inr \<lparr>aro_NewObj = wlo, aro_OldObj = oldWLO,
                  aro_Kind = gvk_Kind (ar_Kind ar), aro_Namespace = ar_Namespace ar,
                  aro_Operation = ar_Operation ar\<rparr>)))"

subsection \<open>Specification\<close>

fun tagged :: "string \<Rightarrow> nat \<Rightarrow> Container list \<Rightarrow> (IdxType \<times> string) list" where
  "tagged ctype i [] = []"
| "tagged ctype i (c # cs) = (\<lparr>idx_Index = i, idx_Type = ctype\<rparr>, c_Image c) # tagged ctype (Suc i) cs"

definition all_containers :: "WorkloadObject \<Rightarrow> (IdxType \<times> string) list" where
  "all_containers wlo =
     tagged ''containers'' 0 (wlo_Containers wlo) @ tagged ''initContainers'' 0 (wlo_InitContainers wlo)
       @ tagged ''ephemeralContainers'' 0 (wlo_EphemeralContainers wlo)"

text \<open>The positions at which a workload object uses an image.\<close>

definition positions :: "WorkloadObject \<Rightarrow> string \<Rightarrow> IdxType list" where
  "positions wlo img = map fst (filter (\<lambda>p. snd p = img) (all_containers wlo))"

text \<open>The image of the container at a position, read from the workload object.\<close>

definition container_list :: "WorkloadObject \<Rightarrow> string \<Rightarrow> Container list" where
  "container_list wlo ctype =
     (if ctype = ''containers'' then wlo_Containers wlo
      else if ctype = ''initContainers'' then wlo_InitContainers wlo
      else if ctype = ''ephemeralContainers'' then wlo_EphemeralContainers wlo else [])"

definition image_at :: "WorkloadObject \<Rightarrow> IdxType \<Rightarrow> string option" where
  "image_at wlo p =
     (let cs = container_list wlo (idx_Type p)
      in if idx_Index p < length cs then Some (c_Image (cs ! idx_Index p)) else None)"

definition images_of :: "WorkloadObject \<Rightarrow> string set" where
  "images_of wlo = c_Image ` (set (wlo_Containers wlo) \<union> set (wlo_InitContainers wlo)
                              \<union> set (wlo_EphemeralContainers wlo))"

section \<open>Lemmas\<close>

lemma tagged_set:
  "(p, img) \<in> set (tagged ctype i cs) \<longleftrightarrow>
   idx_Type p = ctype \<and> i \<le> idx_Index p \<and> idx_Index p < i + length cs \<and> c_Image (cs ! (idx_Index p - i)) = img"
proof (induction cs arbitrary: i)
  case (Cons c cs)
  have eq: "p = \<lparr>idx_Index = i, idx_Type = ctype\<rparr> \<longleftrightarrow> idx_Index p = i \<and> idx_Type p = ctype"
    by (cases p) auto
  show ?case
  proof (cases "idx_Index p = i")
    case True
    then show ?thesis by (auto simp: Cons.IH eq)
  next
    case False
    then have "i \<le> idx_Index p \<Longrightarrow> idx_Index p - i = Suc (idx_Index p - Suc i)" by simp
    then show ?thesis using False by (auto simp: Cons.IH eq)
  qed
qed simp

lemma tagged_distinct: "distinct (map fst (tagged ctype i cs))"
proof (induction cs arbitrary: i)
  case (Cons c cs)
  have "\<lparr>idx_Index = i, idx_Type = ctype\<rparr> \<notin> fst ` set (tagged ctype (Suc i) cs)"
  proof
    assume "\<lparr>idx_Index = i, idx_Type = ctype\<rparr> \<in> fst ` set (tagged ctype (Suc i) cs)"
    then obtain img where "(\<lparr>idx_Index = i, idx_Type = ctype\<rparr>, img) \<in> set (tagged ctype (Suc i) cs)"
      by force
    then show False by (simp add: tagged_set)
  qed
  then show ?case using Cons by simp
qed simp

lemma fst_tagged: "p \<in> fst ` set (tagged ctype i cs) \<Longrightarrow> idx_Type p = ctype"
  by (force simp: tagged_set)

lemma distinct_all_containers: "distinct (map fst (all_containers wlo))"
  unfolding all_containers_def map_append distinct_append set_append set_map
  by (auto simp: tagged_distinct dest!: fst_tagged)

lemma positions_distinct: "distinct (positions wlo img)"
  using distinct_all_containers[of wlo] unfolding positions_def
  by (simp add: distinct_map inj_on_def)

lemma positions_set: "p \<in> set (positions wlo img) \<longleftrightarrow> image_at wlo p = Some img"
proof -
  have "p \<in> set (positions wlo img) \<longleftrightarrow> (p, img) \<in> set (all_containers wlo)"
    unfolding positions_def by force
  then show ?thesis
    unfolding all_containers_def image_at_def container_list_def by (auto simp: tagged_set Let_def)
qed

lemma consolidate_lookup:
  "map_of (consolidate ctype i cs m) img =
   (let ps = map fst (filter (\<lambda>p. snd p = img) (tagged ctype i cs))
    in case map_of m img of None \<Rightarrow> if ps = [] then None else Some ps | Some qs \<Rightarrow> Some (qs @ ps))"
  by (induction cs arbitrary: i m) (auto simp: Let_def split: option.splits)

lemma consolidate_distinct:
  "distinct (map fst m) \<Longrightarrow> distinct (map fst (consolidate ctype i cs m))"
  by (induction cs arbitrary: i m) (auto simp: Let_def split: option.splits)

lemma ConsolidatedContainers_lookup:
  "map_of (ConsolidatedContainers wlo) img =
   (if positions wlo img = [] then None else Some (positions wlo img))"
  unfolding ConsolidatedContainers_def positions_def all_containers_def
  by (simp add: consolidate_lookup Let_def split: option.splits)

lemma ConsolidatedContainers_distinct: "distinct (map fst (ConsolidatedContainers wlo))"
  unfolding ConsolidatedContainers_def by (simp add: consolidate_distinct)

lemma images_of_positions: "img \<in> images_of wlo \<longleftrightarrow> positions wlo img \<noteq> []"
proof -
  have t: "img \<in> c_Image ` set cs \<longleftrightarrow> img \<in> snd ` set (tagged ctype i cs)" for ctype i cs
    by (induction cs arbitrary: i) auto
  have "img \<in> images_of wlo \<longleftrightarrow> img \<in> snd ` set (all_containers wlo)"
    unfolding images_of_def all_containers_def set_append image_Un Un_iff t[symmetric] by blast
  also have "\<dots> \<longleftrightarrow> positions wlo img \<noteq> []"
    unfolding positions_def by (force simp: filter_empty_conv)
  finally show ?thesis .
qed

lemma ConsolidatedContainers_keys: "fst ` set (ConsolidatedContainers wlo) = images_of wlo"
  using images_of_positions ConsolidatedContainers_lookup
  by (metis (no_types, lifting) domIff dom_map_of_conv_image_fst option.distinct(1) set_eqI)

lemma add_images:
  "fst ` set (fold (\<lambda>c. map_put (c_Image c) ()) cs m) = fst ` set m \<union> c_Image ` set cs"
  by (induction cs arbitrary: m) (auto simp: keys_put)

lemma add_images_distinct:
  "distinct (map fst m) \<Longrightarrow> distinct (map fst (fold (\<lambda>c. map_put (c_Image c) ()) cs m))"
  by (induction cs arbitrary: m) auto

lemma set_ImageSet: "set (ImageSet wlo) = images_of wlo"
  unfolding ImageSet_def images_of_def Let_def set_map add_images by auto

lemma distinct_ImageSet: "distinct (ImageSet wlo)"
  unfolding ImageSet_def Let_def by (intro add_images_distinct) simp

lemma build_workload_Inr:
  "build_workload kind namespace err name meta spec = Inr w \<longleftrightarrow>
   err = None \<and> (ps_Containers spec \<noteq> [] \<or> ps_InitContainers spec \<noteq> [] \<or> ps_EphemeralContainers spec \<noteq> []) \<and>
   w = \<lparr>wlo_Name = name, wlo_Kind = kind, wlo_Namespace = namespace,
        wlo_Containers = ps_Containers spec, wlo_InitContainers = ps_InitContainers spec,
        wlo_EphemeralContainers = ps_EphemeralContainers spec, wlo_Owners = om_OwnerReferences meta,
        wlo_Deleted = (om_DeletionTimestamp meta \<noteq> None)\<rparr>"
  unfolding build_workload_def by (auto split: option.splits)

text \<open>What every decoded workload object satisfies: some container, the request's kind and namespace.\<close>

lemma NewWorkloadObject_Inr:
  assumes "NewWorkloadObjectFromBytes decode raw gvk namespace = Ret (Inr w)"
  shows "images_of w \<noteq> {} \<and> wlo_Kind w = gvk_Kind gvk \<and> wlo_Namespace w = namespace"
proof -
  obtain obj err where D: "Deserialize decode raw gvk = (obj, err)" by (cases "Deserialize decode raw gvk")
  have "\<exists>name m s. build_workload (gvk_Kind gvk) namespace err name m s = Inr w"
    using assms unfolding NewWorkloadObjectFromBytes_def Let_def D prod.case
    by (simp split: if_split_asm option.split_asm runtime_object.split_asm) blast+
  then obtain name m s where "build_workload (gvk_Kind gvk) namespace err name m s = Inr w" by blast
  then show ?thesis unfolding build_workload_Inr images_of_def by auto
qed

lemma owners_images_Ret:
  "owners_images decode client namespace owners acc = Ret imgs \<longleftrightarrow>
   (\<forall>ow \<in> set owners. \<not> panics (owner_images decode client namespace ow)) \<and>
   imgs = acc @ concat (map (\<lambda>ow. case owner_images decode client namespace ow of Ret xs \<Rightarrow> xs | Panic _ \<Rightarrow> []) owners)"
proof (induction owners arbitrary: acc)
  case Nil
  then show ?case by auto
next
  case (Cons ow owners)
  then show ?case by (cases "owner_images decode client namespace ow") auto
qed

text \<open>The parent resource an owner reference really names: same UID, decodable.\<close>

definition parent_workload ::
  "decoder \<Rightarrow> kube_client \<Rightarrow> string \<Rightarrow> OwnerReference \<Rightarrow> WorkloadObject \<Rightarrow> bool" where
  "parent_workload decode client namespace owner w \<longleftrightarrow>
     (\<exists>parent bytes. fetchKubeResource client (fst (group_version (or_APIVersion owner)))
          (snd (group_version (or_APIVersion owner))) (or_Kind owner) namespace (or_Name owner) = Inr parent \<and>
        u_UID parent = or_UID owner \<and> u_JSON parent = Inr bytes \<and>
        NewWorkloadObjectFromBytes decode bytes (u_GVK parent) namespace = Ret (Inr w))"

lemma owner_images_set:
  assumes "owner_images decode client namespace owner = Ret imgs"
  shows "img \<in> set imgs \<longleftrightarrow> (\<exists>w. parent_workload decode client namespace owner w \<and> img \<in> images_of w)"
proof (cases "fetchKubeResource client (fst (group_version (or_APIVersion owner)))
          (snd (group_version (or_APIVersion owner))) (or_Kind owner) namespace (or_Name owner)")
  case (Inl e)
  then show ?thesis using assms unfolding owner_images_def parent_workload_def
    by (simp add: case_prod_beta)
next
  case parent: (Inr parent)
  show ?thesis
  proof (cases "u_UID parent = or_UID owner \<and> res_ok (u_JSON parent)")
    case False
    then show ?thesis using assms parent unfolding owner_images_def parent_workload_def
      by (auto simp: case_prod_beta split: if_split_asm sum.split_asm)
  next
    case True
    then obtain bytes where b: "u_JSON parent = Inr bytes" by (cases "u_JSON parent") auto
    obtain r where r: "NewWorkloadObjectFromBytes decode bytes (u_GVK parent) namespace = Ret r"
      using assms parent True b unfolding owner_images_def by (auto simp: case_prod_beta)
    show ?thesis using assms parent True b r unfolding owner_images_def parent_workload_def images_of_def
      by (cases r) (auto simp: case_prod_beta)
  qed
qed

lemma no_slash_split:
  assumes "a @ CHR ''/'' # b = c @ CHR ''/'' # d" "CHR ''/'' \<notin> set a" "CHR ''/'' \<notin> set c"
  shows "a = c \<and> b = d"
  using assms
proof (induction a arbitrary: c)
  case Nil
  then show ?case by (cases c) auto
next
  case (Cons x a)
  then show ?case by (cases c) auto
qed

lemma ContainerPath_eqD:
  assumes "CHR ''/'' \<notin> set ctype" "CHR ''/'' \<notin> set ctype'"
    and "ContainerPathFormatString wlo ctype i = ContainerPathFormatString wlo ctype' i'"
  shows "ctype = ctype' \<and> i = i'"
proof -
  have "ctype @ CHR ''/'' # (decimal i @ ''/image'') = ctype' @ CHR ''/'' # (decimal i' @ ''/image'')"
    using assms(3) unfolding ContainerPathFormatString_def Let_def by (simp split: if_split_asm)
  from no_slash_split[OF this assms(1,2)] show ?thesis by simp
qed

lemma panics_template:
  "panics (NewWorkloadObjectFromBytes decode raw gvk namespace) \<longleftrightarrow>
   gvk_Kind gvk = ''ReplicationController'' \<and>
   (\<exists>m. fst (Deserialize decode raw gvk) = Some (ReplicationController m None))"
proof -
  obtain obj err where D: "Deserialize decode raw gvk = (obj, err)" by (cases "Deserialize decode raw gvk")
  show ?thesis
    unfolding NewWorkloadObjectFromBytes_def Let_def D prod.case fst_conv
    by (simp split: if_split option.split runtime_object.split)
qed

lemma NewAdmissionRequestObjects_panics:
  assumes "panics (NewAdmissionRequestObjects decode ar)"
  shows "gvk_Kind (ar_Kind ar) = ''ReplicationController''"
proof (rule ccontr)
  assume k: "gvk_Kind (ar_Kind ar) \<noteq> ''ReplicationController''"
  have "\<not> panics (NewWorkloadObjectFromBytes decode raw (ar_Kind ar) ns)" for raw ns
    using k by (simp add: panics_template)
  then obtain r1 r2
    where "NewWorkloadObjectFromBytes decode (ar_OldObject ar) (ar_Kind ar) (ar_Namespace ar) = Ret r1"
      and "NewWorkloadObjectFromBytes decode (ar_Object ar) (ar_Kind ar) (ar_Namespace ar) = Ret r2"
    unfolding panics_iff by blast
  then show False using assms unfolding NewAdmissionRequestObjects_def
    by (cases r1; cases r2; cases "ar_Operation ar = Update") simp_all
qed

section \<open>Properties\<close>

text \<open>
  \<open>ConsolidatedContainers\<close> partitions the containers of a workload object by image: an
  image is a key exactly if some container uses it, and the entry of an image lists, without
  repetition, exactly the positions (container list and index) that hold it. So every container,
  init container and ephemeral container is validated under exactly one key, and only under its
  own image.
\<close>
theorem ConsolidatedContainers_partition:
  "distinct (map fst (ConsolidatedContainers wlo)) \<and>
   fst ` set (ConsolidatedContainers wlo) = images_of wlo \<and>
   (\<forall>p img. (\<exists>ps. map_of (ConsolidatedContainers wlo) img = Some ps \<and> p \<in> set ps \<and> distinct ps)
            \<longleftrightarrow> image_at wlo p = Some img)"
proof (intro conjI allI)
  fix p img
  show "(\<exists>ps. map_of (ConsolidatedContainers wlo) img = Some ps \<and> p \<in> set ps \<and> distinct ps)
          \<longleftrightarrow> image_at wlo p = Some img"
    unfolding ConsolidatedContainers_lookup
    using positions_set[of p wlo img] positions_distinct[of wlo img] by (auto split: if_splits)
qed (rule ConsolidatedContainers_distinct, rule ConsolidatedContainers_keys)

text \<open>
  C20 (functional). The images used for automatic child approval are exactly the images of the parents: an image
  is returned iff some owner reference names a resource that the Kubernetes API returns with the
  very UID of the reference, that can be marshalled and decoded, and that uses the image in one of
  its containers. Owners that cannot be fetched or whose UID differs contribute nothing.
\<close>
theorem ParentContainerImages_exact:
  assumes "ParentContainerImagesFromKubeAPI decode (Some client) wlo = Ret imgs"
  shows "img \<in> set imgs \<longleftrightarrow>
    (\<exists>owner \<in> set (wlo_Owners wlo). \<exists>w. parent_workload decode client (wlo_Namespace wlo) owner w \<and>
        img \<in> images_of w)"
proof -
  let ?f = "owner_images decode client (wlo_Namespace wlo)"
  have ok: "\<forall>ow \<in> set (wlo_Owners wlo). \<exists>xs. ?f ow = Ret xs"
    and imgs: "imgs = concat (map (\<lambda>ow. case ?f ow of Ret xs \<Rightarrow> xs | Panic _ \<Rightarrow> []) (wlo_Owners wlo))"
    using assms unfolding ParentContainerImagesFromKubeAPI_def
    by (auto simp: owners_images_Ret panics_iff)
  have "img \<in> set imgs \<longleftrightarrow> (\<exists>ow \<in> set (wlo_Owners wlo). \<exists>xs. ?f ow = Ret xs \<and> img \<in> set xs)"
  proof
    assume "img \<in> set imgs"
    then obtain ow where "ow \<in> set (wlo_Owners wlo)"
      "img \<in> set (case ?f ow of Ret xs \<Rightarrow> xs | Panic _ \<Rightarrow> [])"
      unfolding imgs set_concat set_map by blast
    moreover from this(1) ok obtain xs where "?f ow = Ret xs" by blast
    ultimately show "\<exists>ow \<in> set (wlo_Owners wlo). \<exists>xs. ?f ow = Ret xs \<and> img \<in> set xs" by auto
  next
    assume "\<exists>ow \<in> set (wlo_Owners wlo). \<exists>xs. ?f ow = Ret xs \<and> img \<in> set xs"
    then obtain ow xs where "ow \<in> set (wlo_Owners wlo)" "?f ow = Ret xs" "img \<in> set xs" by blast
    moreover from this(2,3) have "img \<in> set (case ?f ow of Ret xs \<Rightarrow> xs | Panic _ \<Rightarrow> [])" by simp
    ultimately show "img \<in> set imgs" unfolding imgs set_concat set_map by blast
  qed
  then show ?thesis using ok owner_images_set by blast
qed

definition example_pod_spec :: "string \<Rightarrow> PodSpec" where
  "example_pod_spec img = \<lparr>ps_Containers = [\<lparr>c_Image = img\<rparr>], ps_InitContainers = [], ps_EphemeralContainers = []\<rparr>"

definition example_meta :: ObjectMeta where
  "example_meta = \<lparr>om_Name = ''web'', om_GenerateName = [], om_OwnerReferences = [], om_DeletionTimestamp = None\<rparr>"

definition example_decoder :: decoder where
  "example_decoder raw gvk = (Some (ReplicaSet example_meta (example_pod_spec raw)), gvk, None)"

definition example_gvk :: GroupVersionKind where
  "example_gvk = \<lparr>gvk_Group = ''apps'', gvk_Version = ''v1'', gvk_Kind = ''ReplicaSet''\<rparr>"

definition example_client :: kube_client where
  "example_client r ns name =
     (if gvr_Resource r = ''replicasets'' \<and> gvr_Group r = ''apps''
      then Inr \<lparr>u_UID = ''42'', u_GVK = example_gvk, u_JSON = Inr ''nginx''\<rparr> else Inl ''not found'')"

definition example_pod :: WorkloadObject where
  "example_pod = empty_workload\<lparr>wlo_Kind := ''Pod'', wlo_Containers := [\<lparr>c_Image = ''nginx''\<rparr>],
     wlo_Owners := [\<lparr>or_APIVersion = ''apps/v1'', or_Kind = ''ReplicaSet'', or_Name = ''web'', or_UID = ''42''\<rparr>,
                    \<lparr>or_APIVersion = ''apps/v1'', or_Kind = ''ReplicaSet'', or_Name = ''web'', or_UID = ''43''\<rparr>]\<rparr>"

theorem ParentContainerImages_exact_witness:
  "ParentContainerImagesFromKubeAPI example_decoder (Some example_client) example_pod = Ret [''nginx''] \<and>
   (\<exists>owner \<in> set (wlo_Owners example_pod). \<exists>w.
      parent_workload example_decoder example_client (wlo_Namespace example_pod) owner w \<and>
      ''nginx'' \<in> images_of w)"
proof -
  have e: "ParentContainerImagesFromKubeAPI example_decoder (Some example_client) example_pod = Ret [''nginx'']"
    by code_simp
  show ?thesis using e ParentContainerImages_exact[OF e, of "''nginx''"] by simp
qed

text \<open>
  Decoding an admission request yields either an error or objects with something to
  validate: the new object has at least one image and the kind and namespace of the request; the
  old object is the decoded old object for an UPDATE and an object without images for every other
  operation.
\<close>
theorem NewAdmissionRequestObjects_Inr:
  assumes "NewAdmissionRequestObjects decode ar = Ret (Inr objs)"
  shows "images_of (aro_NewObj objs) \<noteq> {} \<and> wlo_Kind (aro_NewObj objs) = gvk_Kind (ar_Kind ar) \<and>
    wlo_Namespace (aro_NewObj objs) = ar_Namespace ar \<and> aro_Namespace objs = ar_Namespace ar \<and>
    aro_Operation objs = ar_Operation ar \<and>
    NewWorkloadObjectFromBytes decode (ar_Object ar) (ar_Kind ar) (ar_Namespace ar) = Ret (Inr (aro_NewObj objs)) \<and>
    (if ar_Operation ar = Update
     then NewWorkloadObjectFromBytes decode (ar_OldObject ar) (ar_Kind ar) (ar_Namespace ar) = Ret (Inr (aro_OldObj objs))
     else images_of (aro_OldObj objs) = {})"
  using assms unfolding NewAdmissionRequestObjects_def
  by (auto split: sum.split_asm if_split_asm simp: images_of_def empty_workload_def
        dest: NewWorkloadObject_Inr)

definition example_request :: AdmissionRequest where
  "example_request = \<lparr>ar_UID = ''1'', ar_Kind = example_gvk, ar_Namespace = ''default'', ar_Operation = Update,
     ar_Object = ''nginx:2'', ar_OldObject = ''nginx:1''\<rparr>"

definition example_objects :: AdmissionRequestObjects where
  "example_objects =
     (let w = \<lambda>img. empty_workload\<lparr>wlo_Name := ''web'', wlo_Kind := ''ReplicaSet'', wlo_Namespace := ''default'',
                                   wlo_Containers := [\<lparr>c_Image = img\<rparr>]\<rparr>
      in \<lparr>aro_NewObj = w ''nginx:2'', aro_OldObj = w ''nginx:1'', aro_Kind = ''ReplicaSet'',
          aro_Namespace = ''default'', aro_Operation = Update\<rparr>)"

theorem NewAdmissionRequestObjects_Inr_witness:
  "NewAdmissionRequestObjects example_decoder example_request = Ret (Inr example_objects) \<and>
   images_of (aro_NewObj example_objects) \<noteq> {} \<and> wlo_Kind (aro_NewObj example_objects) = ''ReplicaSet''"
proof -
  have e: "NewAdmissionRequestObjects example_decoder example_request = Ret (Inr example_objects)"
    by code_simp
  show ?thesis
    using e NewAdmissionRequestObjects_Inr[OF e] by (simp add: example_request_def example_gvk_def)
qed

text \<open>
  Decoding a workload object panics in exactly one case: a replication controller without pod
  template, whose nil template pointer the code dereferences.
\<close>
theorem NewWorkloadObject_panics:
  "panics (NewWorkloadObjectFromBytes decode raw gvk namespace) \<longleftrightarrow>
   gvk_Kind gvk = ''ReplicationController'' \<and>
   (\<exists>m. fst (Deserialize decode raw gvk) = Some (ReplicationController m None))"
  by (rule panics_template)

text \<open>
  The JSON patch addresses containers without confusion: for container types without a slash
  (all three the code uses), two patch paths of a workload object are equal only for the same type
  and index.
\<close>
theorem ContainerPath_inject:
  assumes "CHR ''/'' \<notin> set ctype" "CHR ''/'' \<notin> set ctype'"
    and "ContainerPathFormatString wlo ctype i = ContainerPathFormatString wlo ctype' i'"
  shows "ctype = ctype' \<and> i = i'"
  by (rule ContainerPath_eqD[OF assms])

theorem ContainerPath_inject_witness:
  "ContainerPathFormatString example_pod ''containers'' 1 \<noteq>
   ContainerPathFormatString example_pod ''initContainers'' 1"
  using ContainerPath_inject[of "''containers''" "''initContainers''" example_pod 1 1] by auto

end
