(* ===== verification/Validation.thy ===== *)
theory Validation
  imports Config Caching Json Workload
begin

text \<open>
  Package \<open>internal/handler/validation\<close>: the validation of one container image
  (\<open>validation.go\<close>), the reasons for skipping it (\<open>skip.go\<close>) and the counters of the
  validations (\<open>validation_metrics.go\<close>). The state that a validation changes is the cache server
  \<open>'w\<close> and the counters; everything it reads (configuration, cache, Kubernetes client, process
  environment and the third-party functions) is the record \<open>Runtime\<close>.
\<close>

section \<open>Definitions\<close>

subsection \<open>The context\<close>

record 'w Runtime =
  rt_Env :: env
  rt_Config :: Config
  rt_Cache :: "'w Cacher"
  rt_KubeAPI :: "kube_client option"
  rt_parse :: parser
  rt_glob :: glob
  rt_decode :: decoder

subsection \<open>validation_metrics.go\<close>

text \<open>A time series is a counter with its label values.\<close>

datatype counter =
    ValidationsTotal string string string
  | ValidationsSuccessful string string
  | ValidationsFailed string string
  | ValidationsSkipped string string string
  | ValidationsTimeouted string string

type_synonym counters = "counter \<Rightarrow> nat"

definition Inc :: "counter \<Rightarrow> counters \<Rightarrow> counters" where
  "Inc c m = m(c := Suc (m c))"

definition IncValidationsSuccessful :: "string \<Rightarrow> string \<Rightarrow> counters \<Rightarrow> counters" where
  "IncValidationsSuccessful validatorType validatorName m =
     Inc (ValidationsSuccessful validatorType validatorName)
       (Inc (ValidationsTotal validatorType validatorName ''success'') m)"

definition IncValidationsFailed :: "string \<Rightarrow> string \<Rightarrow> counters \<Rightarrow> counters" where
  "IncValidationsFailed validatorType validatorName m =
     Inc (ValidationsFailed validatorType validatorName)
       (Inc (ValidationsTotal validatorType validatorName ''error'') m)"

definition IncValidationsSkipped :: "string \<Rightarrow> string \<Rightarrow> string \<Rightarrow> counters \<Rightarrow> counters" where
  "IncValidationsSkipped validatorType validatorName reason m =
     Inc (ValidationsSkipped validatorType validatorName reason) m"

definition IncValidationsTimeouted :: "string \<Rightarrow> string \<Rightarrow> counters \<Rightarrow> counters" where
  "IncValidationsTimeouted validatorType validatorName m =
     Inc (ValidationsTimeouted validatorType validatorName)
       (Inc (ValidationsTotal validatorType validatorName ''error'') m)"

subsection \<open>skip.go\<close>

definition automaticUnchangedApproval :: "env \<Rightarrow> Image \<Rightarrow> string list \<Rightarrow> bool" where
  "automaticUnchangedApproval e img previousImages =
     (if FeatureFlagOn e AutomaticUnchangedApproval
      then list_ex (\<lambda>containerImage. containerImage = OriginalString img) previousImages
      else False)"

text \<open>\<open>parentImages\<close> is the call of \<open>parentImageFunc\<close>, forced only where the code calls it.\<close>

definition automaticChildApproval :: "env \<Rightarrow> Image \<Rightarrow> string list go \<Rightarrow> bool go" where
  "automaticChildApproval e img parentImages =
     (if FeatureFlagOn e AutomaticChildApproval
      then if \<not> BlockAllResources e then Ret False
           else go_bind parentImages (\<lambda>images. Ret (list_ex (\<lambda>pImg. pImg = OriginalString img) images))
      else Ret False)"

text \<open>Either an error, or the cached digest and the cached error.\<close>

definition getCachedDigest :: "'w Cacher \<Rightarrow> 'w \<Rightarrow> Image \<Rightarrow> (string \<times> string option) res" where
  "getCachedDigest cache w img =
     (case cache_Get cache w (OriginalString img) of
        Inl err \<Rightarrow> Inl (''cache miss for image '' @ OriginalString img @ '': '' @ err)
      | Inr val \<Rightarrow>
          (case Unmarshal_CachedEntry val of
             Inl err \<Rightarrow> Inl (''error unmarshalling cached entry: '' @ err)
           | Inr cached \<Rightarrow>
               if ce_Error cached \<noteq> [] then Inr ([], Some (ce_Error cached))
               else if ce_Digest cached = [] then Inl ''empty cached digest''
               else Inr (ce_Digest cached, None)))"

record skip_result =
  sk_skip :: bool
  sk_Reason :: string
  sk_Digest :: string
  sk_Error :: "string option"

definition Skip ::
  "'w Runtime \<Rightarrow> 'w \<Rightarrow> Image \<Rightarrow> string list \<Rightarrow> string list go \<Rightarrow> skip_result go" where
  "Skip rt w img previousImages parentImages =
     (if automaticUnchangedApproval (rt_Env rt) img previousImages
      then Ret \<lparr>sk_skip = True, sk_Reason = ''unchanged image reference'', sk_Digest = Digest img,
                sk_Error = None\<rparr>
      else go_bind (automaticChildApproval (rt_Env rt) img parentImages) (\<lambda>child.
        if child
        then Ret \<lparr>sk_skip = True, sk_Reason = ''automatic approval of child image reference'',
                  sk_Digest = Digest img, sk_Error = None\<rparr>
        else case getCachedDigest (rt_Cache rt) w img of
               Inl err \<Rightarrow> Ret \<lparr>sk_skip = False, sk_Reason = [], sk_Digest = [], sk_Error = None\<rparr>
             | Inr (digest, cacheErr) \<Rightarrow>
                 Ret \<lparr>sk_skip = True, sk_Reason = ''cache hit'', sk_Digest = digest,
                      sk_Error = cacheErr\<rparr>))"

subsection \<open>validation.go\<close>

record ValidationInput =
  in_IdxsTypes :: "IdxType list"
  in_Image :: string
  in_PreviousImages :: "string list"
  in_ParentImages :: "string list go"

record ValidationOutput =
  out_IdxsTypes :: "IdxType list"
  out_RawImage :: string
  out_NewImage :: string
  out_OldImage :: string
  out_Error :: "string option"
  out_Validator :: string
  out_Skipped :: bool
  out_SkipReason :: string
  out_ValidationMode :: string

text \<open>The local variables that the deferred function reads.\<close>

record locals =
  l_newImg :: string
  l_oldImg :: string
  l_errOut :: "string option"
  l_validatorName :: string
  l_skipped :: bool
  l_skipReason :: string
  l_validationMode :: string
  l_validatorType :: string

definition init_locals :: locals where
  "init_locals = \<lparr>l_newImg = [], l_oldImg = [], l_errOut = None, l_validatorName = [],
     l_skipped = False, l_skipReason = [], l_validationMode = [], l_validatorType = ''unknown''\<rparr>"

abbreviation MutateMode :: string where "MutateMode \<equiv> ''mutate''"
abbreviation ValidateMode :: string where "ValidateMode \<equiv> ''insecureValidateOnly''"

text \<open>The deferred function: \<open>cancelled\<close> tells whether the context is cancelled when it runs.\<close>

definition deferred ::
  "parser \<Rightarrow> bool \<Rightarrow> ValidationInput \<Rightarrow> locals \<Rightarrow> counters \<Rightarrow> ValidationOutput option \<times> counters" where
  "deferred parse cancelled input l m =
     (if cancelled then (None, IncValidationsTimeouted (l_validatorType l) (l_validatorName l) m)
      else
        let errOut = (case l_errOut l of
               Some e \<Rightarrow> Some e
             | None \<Rightarrow> (case New parse (l_newImg l) of
                 Inl err \<Rightarrow> Some (''validated image reference '' @ l_newImg l @
                                  '' has invalid format: '' @ err)
               | Inr _ \<Rightarrow> None));
            m = (if errOut = None
                 then IncValidationsSuccessful (l_validatorType l) (l_validatorName l) m
                 else IncValidationsFailed (l_validatorType l) (l_validatorName l) m);
            m = (if l_skipped l
                 then IncValidationsSkipped (l_validatorType l) (l_validatorName l) (l_skipReason l) m
                 else m)
        in (Some \<lparr>out_IdxsTypes = in_IdxsTypes input, out_RawImage = in_Image input,
                  out_NewImage = l_newImg l, out_OldImage = l_oldImg l, out_Error = errOut,
                  out_Validator = l_validatorName l, out_Skipped = l_skipped l,
                  out_SkipReason = l_skipReason l, out_ValidationMode = l_validationMode l\<rparr>, m))"

text \<open>
  The end of the body: the result of the validator is formatted and cached. \<open>img\<close> is the image as
  the validator left it. The call of \<open>cache.Set\<close> is the last thing the body does; its key and value
  are returned, and \<open>run_store\<close> performs it.
\<close>

type_synonym store_call = "(string \<times> string) option"

definition run_store :: "'w Runtime \<Rightarrow> store_call \<Rightarrow> 'w \<Rightarrow> 'w" where
  "run_store rt call w =
     (case call of None \<Rightarrow> w | Some (key, val) \<Rightarrow> fst (cache_Set (rt_Cache rt) w key val))"

definition conclude ::
  "env \<Rightarrow> Validator \<Rightarrow> locals \<Rightarrow> Image \<Rightarrow> string res \<Rightarrow> locals \<times> store_call" where
  "conclude e validator l img res =
     (let (l, img, cacheErr) =
        (case res of
           Inl reason \<Rightarrow>
             let err = ''error during '' @ v_Type validator @ '' validation of image '' @
                       OriginalString img @ '': '' @ reason
             in (l\<lparr>l_errOut := Some err\<rparr>, img, err)
         | Inr digest \<Rightarrow>
             let img' = SetDigest img digest
             in (l\<lparr>l_errOut := None, l_oldImg := Name img, l_newImg := Name img'\<rparr>, img', []))
      in if cacheErr \<noteq> [] \<or> Digest img \<noteq> []
         then if cacheErr \<noteq> [] \<and> \<not> CacheErrors e then (l, None)
              else let img = (if cacheErr \<noteq> [] then SetDigest img [] else img)
                   in (l, Some (OriginalString img, cache_value (Digest img) cacheErr))
         else (l, None))"

text \<open>
  The body of \<open>ValidateImage\<close>: a possible panic, the local variables it leaves to the deferred
  function and the pending store into the cache. \<open>validate_with\<close> is the part from the choice of the validation mode on,
  \<open>ValidateImage_body\<close> the whole body.
\<close>

definition validate_with ::
  "'w Runtime \<Rightarrow> ValidationInput \<Rightarrow> 'w \<Rightarrow> Image \<Rightarrow> Rule \<Rightarrow> Validator \<Rightarrow>
    string option \<times> locals \<times> store_call" where
  "validate_with rt input w img rule validator =
     (let mode = ro_ValidationMode (rule_With rule);
          l = init_locals\<lparr>l_validatorType := v_Type validator, l_validatorName := v_Name validator,
                l_validationMode := (if mode = MutateMode then MutateMode
                                     else if mode = ValidateMode then ValidateMode else MutateMode)\<rparr>
      in if v_Type validator = StaticValidatorType then
           (case Validator_ValidateImage validator img (rule_With rule) of
              Panic p \<Rightarrow> (Some p, l, None)
            | Ret (img', Inl err) \<Rightarrow>
                (None, l\<lparr>l_errOut := Some (''static deny for image '' @ OriginalString img' @
                   '' using rule '' @ rule_Pattern rule)\<rparr>, None)
            | Ret (img', Inr digest) \<Rightarrow>
                (None, l\<lparr>l_oldImg := Name img', l_newImg := Name (SetDigest img' digest)\<rparr>, None))
         else
           (case Skip rt w img (in_PreviousImages input) (in_ParentImages input) of
              Panic p \<Rightarrow> (Some p, l, None)
            | Ret s \<Rightarrow>
                if sk_skip s
                then (None, l\<lparr>l_skipped := sk_skip s, l_skipReason := sk_Reason s, l_errOut := sk_Error s,
                             l_oldImg := Name img, l_newImg := Name (SetDigest img (sk_Digest s))\<rparr>, None)
                else (case Validator_ValidateImage validator img (rule_With rule) of
                        Panic p \<Rightarrow> (Some p, l, None)
                      | Ret (img', res) \<Rightarrow> (None, conclude (rt_Env rt) validator l img' res))))"

definition ValidateImage_body ::
  "'w Runtime \<Rightarrow> ValidationInput \<Rightarrow> 'w \<Rightarrow> string option \<times> locals \<times> store_call" where
  "ValidateImage_body rt input w =
     (let l = init_locals in
      case New (rt_parse rt) (in_Image input) of
        Inl err \<Rightarrow> (None, l\<lparr>l_errOut := Some ''invalid image reference''\<rparr>, None)
      | Inr img \<Rightarrow>
      (case MatchingRule (rt_glob rt) (rt_Config rt) (Name img) of
        Panic p \<Rightarrow> (Some p, l, None)
      | Ret (Inl err) \<Rightarrow> (None, l\<lparr>l_errOut := Some err\<rparr>, None)
      | Ret (Inr rule) \<Rightarrow>
      (case Config_Validator (rt_Config rt) (rule_Validator rule) of
        Inl err \<Rightarrow> (None, l\<lparr>l_errOut := Some err\<rparr>, None)
      | Inr validator \<Rightarrow> validate_with rt input w img rule validator)))"

text \<open>
  The whole goroutine. A panic runs the deferred function, too, and then ends the process. A goroutine
  whose validator waits forever does not get to its deferred function.
\<close>

record 'w outcome =
  oc_Panic :: "string option"
  oc_Sent :: "ValidationOutput option"
  oc_Cache :: 'w
  oc_Counters :: counters

definition ValidateImage ::
  "'w Runtime \<Rightarrow> bool \<Rightarrow> ValidationInput \<Rightarrow> 'w \<Rightarrow> counters \<Rightarrow> 'w outcome" where
  "ValidateImage rt cancelled input w m =
     (let (panic, l, call) = ValidateImage_body rt input w
      in if panic = Some blocked then \<lparr>oc_Panic = panic, oc_Sent = None, oc_Cache = w, oc_Counters = m\<rparr>
         else let (sent, m') = deferred (rt_parse rt) cancelled input l m
              in \<lparr>oc_Panic = panic, oc_Sent = sent, oc_Cache = run_store rt call w, oc_Counters = m'\<rparr>)"

text \<open>
  \<open>ValidateWorkloadObject\<close> starts one goroutine per consolidated image and returns a channel that
  has room for all their outputs: the inputs of the goroutines; the capacity is their number.
\<close>

definition ValidateWorkloadObject ::
  "'w Runtime \<Rightarrow> WorkloadObject \<Rightarrow> WorkloadObject \<Rightarrow> ValidationInput list" where
  "ValidateWorkloadObject rt new old =
     (let containers = ConsolidatedContainers new; previousImages = ImageSet old
      in map (\<lambda>(image, idxType).
           \<lparr>in_IdxsTypes = idxType, in_Image = image, in_PreviousImages = previousImages,
            in_ParentImages = ParentContainerImagesFromKubeAPI (rt_decode rt) (rt_KubeAPI rt) new\<rparr>)
         containers)"

subsection \<open>Specification\<close>

text \<open>The image, rule and validator that the configuration assigns to an image string.\<close>

definition resolved :: "'w Runtime \<Rightarrow> string \<Rightarrow> Image \<Rightarrow> Rule \<Rightarrow> Validator \<Rightarrow> bool" where
  "resolved rt s img rule v \<longleftrightarrow>
     New (rt_parse rt) s = Inr img \<and>
     MatchingRule (rt_glob rt) (rt_Config rt) (Name img) = Ret (Inr rule) \<and>
     Config_Validator (rt_Config rt) (rule_Validator rule) = Inr v"

definition unchanged_ok :: "'w Runtime \<Rightarrow> ValidationInput \<Rightarrow> bool" where
  "unchanged_ok rt input \<longleftrightarrow>
     FeatureFlagOn (rt_Env rt) AutomaticUnchangedApproval \<and> in_Image input \<in> set (in_PreviousImages input)"

definition child_checked :: "'w Runtime \<Rightarrow> bool" where
  "child_checked rt \<longleftrightarrow>
     FeatureFlagOn (rt_Env rt) AutomaticChildApproval \<and> BlockAllResources (rt_Env rt)"

definition child_ok :: "'w Runtime \<Rightarrow> ValidationInput \<Rightarrow> bool" where
  "child_ok rt input \<longleftrightarrow>
     child_checked rt \<and> (\<exists>imgs. in_ParentImages input = Ret imgs \<and> in_Image input \<in> set imgs)"

text \<open>A cache entry that decides: an error, or a digest.\<close>

definition cached :: "'w Runtime \<Rightarrow> 'w \<Rightarrow> string \<Rightarrow> CachedEntry \<Rightarrow> bool" where
  "cached rt w s ce \<longleftrightarrow>
     (\<exists>val. cache_Get (rt_Cache rt) w s = Inr val \<and> Unmarshal_CachedEntry val = Inr ce) \<and>
     (ce_Error ce \<noteq> [] \<or> ce_Digest ce \<noteq> [])"

text \<open>
  Why an image may be admitted under the digest \<open>d\<close>: a static allow, one of the two automatic
  approvals, a cached digest, or a successful validation.
\<close>

inductive evidence ::
  "'w Runtime \<Rightarrow> 'w \<Rightarrow> ValidationInput \<Rightarrow> Image \<Rightarrow> Rule \<Rightarrow> Validator \<Rightarrow> string \<Rightarrow> bool"
  for rt w input img rule v where
  by_static: "\<lbrakk> v_Type v = StaticValidatorType; SpecificValidator v img (rule_With rule) = Ret (img', Inr d) \<rbrakk>
    \<Longrightarrow> evidence rt w input img rule v d"
| by_unchanged: "\<lbrakk> v_Type v \<noteq> StaticValidatorType; unchanged_ok rt input \<rbrakk>
    \<Longrightarrow> evidence rt w input img rule v (Digest img)"
| by_parent: "\<lbrakk> v_Type v \<noteq> StaticValidatorType; child_ok rt input \<rbrakk>
    \<Longrightarrow> evidence rt w input img rule v (Digest img)"
| by_cache: "\<lbrakk> v_Type v \<noteq> StaticValidatorType; \<not> unchanged_ok rt input; \<not> child_ok rt input;
      child_checked rt \<longrightarrow> \<not> panics (in_ParentImages input);
      cached rt w (in_Image input) \<lparr>ce_Digest = d, ce_Error = []\<rparr> \<rbrakk>
    \<Longrightarrow> evidence rt w input img rule v d"
| by_validation: "\<lbrakk> v_Type v \<noteq> StaticValidatorType; \<not> unchanged_ok rt input; \<not> child_ok rt input;
      child_checked rt \<longrightarrow> \<not> panics (in_ParentImages input);
      \<nexists>ce. cached rt w (in_Image input) ce;
      SpecificValidator v img (rule_With rule) = Ret (img', Inr d) \<rbrakk>
    \<Longrightarrow> evidence rt w input img rule v d"

inductive_cases evidenceE: "evidence rt w input img rule v d"

text \<open>The two contracts of the configured validators: for soundness, and for liveness.\<close>

definition validators_ok :: "'w Runtime \<Rightarrow> bool" where
  "validators_ok rt \<longleftrightarrow> (\<forall>v \<in> set (Validators (rt_Config rt)). keeps_image (SpecificValidator v))"

definition validators_return :: "'w Runtime \<Rightarrow> bool" where
  "validators_return rt \<longleftrightarrow> (\<forall>v \<in> set (Validators (rt_Config rt)). validator_method (SpecificValidator v))"

section \<open>Lemmas\<close>

subsection \<open>Skipping\<close>

lemma unchanged_iff:
  "OriginalString img = in_Image input \<Longrightarrow>
   automaticUnchangedApproval (rt_Env rt) img (in_PreviousImages input) \<longleftrightarrow> unchanged_ok rt input"
  unfolding automaticUnchangedApproval_def unchanged_ok_def by (auto simp: list_ex_iff)

lemma child_cases:
  assumes "OriginalString img = in_Image input"
  shows "automaticChildApproval (rt_Env rt) img (in_ParentImages input) =
    (if child_checked rt
     then (case in_ParentImages input of Panic p \<Rightarrow> Panic p | Ret imgs \<Rightarrow> Ret (child_ok rt input))
     else Ret False)"
  using assms unfolding automaticChildApproval_def child_checked_def child_ok_def
  by (auto simp: list_ex_iff split: go.split)

lemma getCachedDigest_cases:
  assumes "OriginalString img = in_Image input"
  shows "(\<exists>err. getCachedDigest (rt_Cache rt) w img = Inl err \<and> (\<nexists>ce. cached rt w (in_Image input) ce)) \<or>
    (\<exists>ce. getCachedDigest (rt_Cache rt) w img =
        Inr (if ce_Error ce \<noteq> [] then ([], Some (ce_Error ce)) else (ce_Digest ce, None)) \<and>
      cached rt w (in_Image input) ce)"
proof (cases "cache_Get (rt_Cache rt) w (in_Image input)")
  case (Inl e)
  then show ?thesis using assms by (auto simp: getCachedDigest_def cached_def)
next
  case val: (Inr val)
  show ?thesis
  proof (cases "Unmarshal_CachedEntry val")
    case (Inl e)
    then show ?thesis using assms val by (auto simp: getCachedDigest_def cached_def)
  next
    case (Inr ce)
    then show ?thesis using assms val
      by (cases "ce_Error ce = [] \<and> ce_Digest ce = []") (auto simp: getCachedDigest_def cached_def)
  qed
qed

text \<open>The four outcomes of \<open>Skip\<close>.\<close>

lemma Skip_cases:
  assumes "OriginalString img = in_Image input"
  obtains (unchanged) r where "unchanged_ok rt input"
      "Skip rt w img (in_PreviousImages input) (in_ParentImages input) =
         Ret \<lparr>sk_skip = True, sk_Reason = r, sk_Digest = Digest img, sk_Error = None\<rparr>"
    | (child) r where "\<not> unchanged_ok rt input" "child_ok rt input"
      "Skip rt w img (in_PreviousImages input) (in_ParentImages input) =
         Ret \<lparr>sk_skip = True, sk_Reason = r, sk_Digest = Digest img, sk_Error = None\<rparr>"
    | (panicked) p where "\<not> unchanged_ok rt input" "\<not> child_ok rt input" "child_checked rt"
      "panics (in_ParentImages input)"
      "Skip rt w img (in_PreviousImages input) (in_ParentImages input) = Panic p"
    | (hit) ce where "\<not> unchanged_ok rt input" "\<not> child_ok rt input"
      "child_checked rt \<longrightarrow> \<not> panics (in_ParentImages input)" "cached rt w (in_Image input) ce"
      "Skip rt w img (in_PreviousImages input) (in_ParentImages input) =
         Ret \<lparr>sk_skip = True, sk_Reason = ''cache hit'',
              sk_Digest = (if ce_Error ce \<noteq> [] then [] else ce_Digest ce),
              sk_Error = (if ce_Error ce \<noteq> [] then Some (ce_Error ce) else None)\<rparr>"
    | (miss) "\<not> unchanged_ok rt input" "\<not> child_ok rt input"
      "child_checked rt \<longrightarrow> \<not> panics (in_ParentImages input)" "\<nexists>ce. cached rt w (in_Image input) ce"
      "Skip rt w img (in_PreviousImages input) (in_ParentImages input) =
         Ret \<lparr>sk_skip = False, sk_Reason = [], sk_Digest = [], sk_Error = None\<rparr>"
proof -
  note eqs = unchanged_iff[OF assms, of rt] child_cases[OF assms, of rt]
  consider "unchanged_ok rt input" | "\<not> unchanged_ok rt input" "child_ok rt input"
    | p where "\<not> unchanged_ok rt input" "\<not> child_ok rt input" "child_checked rt" "in_ParentImages input = Panic p"
    | "\<not> unchanged_ok rt input" "\<not> child_ok rt input" "child_checked rt \<longrightarrow> \<not> panics (in_ParentImages input)"
    by (cases "in_ParentImages input") auto
  then show thesis
  proof cases
    case 1
    then show ?thesis using unchanged by (auto simp: Skip_def eqs)
  next
    case 2
    then have "automaticChildApproval (rt_Env rt) img (in_ParentImages input) = Ret True"
      unfolding eqs by (auto simp: child_ok_def)
    then show ?thesis using 2 by (intro child) (simp_all add: Skip_def eqs(1))
  next
    case 3
    then have "automaticChildApproval (rt_Env rt) img (in_ParentImages input) = Panic p"
      unfolding eqs by simp
    then show ?thesis using 3 by (intro panicked) (simp_all add: Skip_def eqs(1))
  next
    case 4
    then have "automaticChildApproval (rt_Env rt) img (in_ParentImages input) = Ret False"
      unfolding eqs by (auto split: go.split)
    then have sk: "Skip rt w img (in_PreviousImages input) (in_ParentImages input) =
        (case getCachedDigest (rt_Cache rt) w img of
           Inl err \<Rightarrow> Ret \<lparr>sk_skip = False, sk_Reason = [], sk_Digest = [], sk_Error = None\<rparr>
         | Inr (digest, cacheErr) \<Rightarrow>
             Ret \<lparr>sk_skip = True, sk_Reason = ''cache hit'', sk_Digest = digest, sk_Error = cacheErr\<rparr>)"
      using 4 by (simp add: Skip_def eqs)
    show ?thesis using getCachedDigest_cases[OF assms, of rt w]
    proof (elim disjE exE conjE)
      fix ce assume "cached rt w (in_Image input) ce"
        "getCachedDigest (rt_Cache rt) w img =
           Inr (if ce_Error ce \<noteq> [] then ([], Some (ce_Error ce)) else (ce_Digest ce, None))"
      then show ?thesis using 4 by (intro hit[of ce]) (auto simp: sk)
    qed (use 4 in \<open>intro miss; simp add: sk\<close>)
  qed
qed

subsection \<open>The body\<close>

lemma init_locals_simps [simp]:
  "l_newImg init_locals = []" "l_errOut init_locals = None" "\<not> l_skipped init_locals"
  by (simp_all add: init_locals_def)

lemma ValidateImage_body_cases:
  obtains (err) p l where "ValidateImage_body rt input w = (p, l, None)"
      "l_newImg l = []" "p = None \<Longrightarrow> l_errOut l \<noteq> None" "\<not> l_skipped l"
      "\<nexists>img rule v. resolved rt (in_Image input) img rule v"
    | (checked) img rule v where "resolved rt (in_Image input) img rule v"
      "ValidateImage_body rt input w = validate_with rt input w img rule v"
proof (cases "New (rt_parse rt) (in_Image input)")
  case (Inl e)
  show ?thesis by (rule err) (use Inl in \<open>simp add: ValidateImage_body_def, auto simp: resolved_def\<close>)
next
  case img: (Inr img)
  show ?thesis
  proof (cases "MatchingRule (rt_glob rt) (rt_Config rt) (Name img)")
    case (Panic p)
    show ?thesis by (rule err) (use img Panic in \<open>simp add: ValidateImage_body_def, auto simp: resolved_def\<close>)
  next
    case rule: (Ret x)
    show ?thesis
    proof (cases "\<exists>rule v. x = Inr rule \<and> Config_Validator (rt_Config rt) (rule_Validator rule) = Inr v")
      case True
      then obtain rule v where x: "x = Inr rule" "Config_Validator (rt_Config rt) (rule_Validator rule) = Inr v"
        by blast
      show ?thesis
        using img rule x by (intro checked[of img rule v]) (simp_all add: ValidateImage_body_def resolved_def)
    next
      case False
      then obtain e where "ValidateImage_body rt input w = (None, init_locals\<lparr>l_errOut := Some e\<rparr>, None)"
        using img rule by (cases x; cases "Config_Validator (rt_Config rt) (rule_Validator (projr x))")
          (simp_all add: ValidateImage_body_def)
      then show ?thesis
        by (rule err) (use img rule False in \<open>auto simp: resolved_def\<close>)
    qed
  qed
qed

lemma resolved_unique:
  "resolved rt s img rule v \<Longrightarrow> resolved rt s img' rule' v' \<Longrightarrow> img' = img \<and> rule' = rule \<and> v' = v"
  by (auto simp: resolved_def)

lemma resolved_image:
  assumes "resolved rt s img rule v"
  shows "OriginalString img = s" "wf_digest (Digest img)" "v \<in> set (Validators (rt_Config rt))"
  using assms New_InrD[of "rt_parse rt" s img] Config_Validator_Inr[of "rt_Config rt" "rule_Validator rule" v]
  by (auto simp: resolved_def OriginalString_def)

lemma conclude_cases:
  assumes "OriginalString img' = s"
  shows "conclude env v l img' (Inl e) =
      (let err = ''error during '' @ v_Type v @ '' validation of image '' @ s @ '': '' @ e
       in (l\<lparr>l_errOut := Some err\<rparr>,
           if CacheErrors env then Some (s, cache_value [] err) else None))"
    and "conclude env v l img' (Inr d) =
      (l\<lparr>l_errOut := None, l_oldImg := Name img', l_newImg := Name (SetDigest img' d)\<rparr>,
       if Digest (SetDigest img' d) \<noteq> []
       then Some (s, cache_value (Digest (SetDigest img' d)) []) else None)"
proof -
  have d: "Digest (SetDigest img' []) = []" by (simp add: Digest_SetDigest)
  show "conclude env v l img' (Inl e) =
      (let err = ''error during '' @ v_Type v @ '' validation of image '' @ s @ '': '' @ e
       in (l\<lparr>l_errOut := Some err\<rparr>,
           if CacheErrors env then Some (s, cache_value [] err) else None))"
    unfolding conclude_def Let_def using assms d by simp
  show "conclude env v l img' (Inr d) =
      (l\<lparr>l_errOut := None, l_oldImg := Name img', l_newImg := Name (SetDigest img' d)\<rparr>,
       if Digest (SetDigest img' d) \<noteq> []
       then Some (s, cache_value (Digest (SetDigest img' d)) []) else None)"
    unfolding conclude_def Let_def using assms by simp
qed

lemma validator_frame:
  assumes "validators_ok rt" "resolved rt s img rule v"
    and "SpecificValidator v img opts = Ret (img', r)"
  shows "OriginalString img' = s"
    "Name (SetDigest img' d) = Name (SetDigest img d)" "Digest (SetDigest img' d) = Digest (SetDigest img d)"
proof -
  have c: "keeps_image (SpecificValidator v)"
    using assms(1) resolved_image(3)[OF assms(2)] by (simp add: validators_ok_def)
  show "OriginalString img' = s"
    using keeps_image.OriginalString_kept[OF c assms(3)] resolved_image(1)[OF assms(2)] by simp
  show "Name (SetDigest img' d) = Name (SetDigest img d)"
    by (rule keeps_image.Name_after_SetDigest[OF c assms(3)])
  show "Digest (SetDigest img' d) = Digest (SetDigest img d)" by (simp add: Digest_SetDigest)
qed

text \<open>
  After resolution: the body succeeds with a new image exactly on evidence.
\<close>

lemma validate_with_accepts:
  assumes ok: "validators_ok rt" and res: "resolved rt (in_Image input) img rule v"
  shows "(\<exists>p l w'. validate_with rt input w img rule v = (p, l, w') \<and> l_errOut l = None \<and>
            l_newImg l = n \<and> n \<noteq> []) \<longleftrightarrow>
         (\<exists>d. evidence rt w input img rule v d \<and> n = Name (SetDigest img d) \<and> n \<noteq> [])"
proof (cases "v_Type v = StaticValidatorType")
  case True
  have e: "evidence rt w input img rule v d \<longleftrightarrow> (\<exists>img'. SpecificValidator v img (rule_With rule) = Ret (img', Inr d))" for d
    using True by (auto elim: evidenceE intro: by_static)
  show ?thesis
    unfolding e validate_with_def Let_def Validator_ValidateImage_def if_P[OF True]
    using validator_frame(2)[OF ok res]
    by (auto simp: init_locals_def split: go.split sum.split)
next
  case False
  note sk = Skip_cases[OF resolved_image(1)[OF res], of rt w]
  show ?thesis
  proof (rule sk)
    fix r assume u: "unchanged_ok rt input" and s: "Skip rt w img (in_PreviousImages input) (in_ParentImages input) =
      Ret \<lparr>sk_skip = True, sk_Reason = r, sk_Digest = Digest img, sk_Error = None\<rparr>"
    have e: "evidence rt w input img rule v d \<longleftrightarrow> d = Digest img" for d
      using u False by (auto elim: evidenceE intro: by_unchanged)
    show ?thesis unfolding e validate_with_def Let_def if_not_P[OF False] s by auto
  next
    fix r assume u: "\<not> unchanged_ok rt input" "child_ok rt input"
      and s: "Skip rt w img (in_PreviousImages input) (in_ParentImages input) =
      Ret \<lparr>sk_skip = True, sk_Reason = r, sk_Digest = Digest img, sk_Error = None\<rparr>"
    have e: "evidence rt w input img rule v d \<longleftrightarrow> d = Digest img" for d
      using u False by (auto elim: evidenceE intro: by_parent)
    show ?thesis unfolding e validate_with_def Let_def if_not_P[OF False] s by auto
  next
    fix p assume u: "\<not> unchanged_ok rt input" "\<not> child_ok rt input" "child_checked rt" "panics (in_ParentImages input)"
      and s: "Skip rt w img (in_PreviousImages input) (in_ParentImages input) = Panic p"
    have e: "\<not> evidence rt w input img rule v d" for d
      using u False by (auto elim: evidenceE)
    show ?thesis using e unfolding validate_with_def Let_def if_not_P[OF False] s by (simp add: init_locals_def)
  next
    fix ce assume u: "\<not> unchanged_ok rt input" "\<not> child_ok rt input"
      "child_checked rt \<longrightarrow> \<not> panics (in_ParentImages input)" "cached rt w (in_Image input) ce"
      and s: "Skip rt w img (in_PreviousImages input) (in_ParentImages input) =
         Ret \<lparr>sk_skip = True, sk_Reason = ''cache hit'',
              sk_Digest = (if ce_Error ce \<noteq> [] then [] else ce_Digest ce),
              sk_Error = (if ce_Error ce \<noteq> [] then Some (ce_Error ce) else None)\<rparr>"
    have u': "ce' = ce" if "cached rt w (in_Image input) ce'" for ce'
      using that u(4) by (auto simp: cached_def)
    have ceq: "ce = \<lparr>ce_Digest = d, ce_Error = []\<rparr> \<longleftrightarrow> ce_Digest ce = d \<and> ce_Error ce = []" for d
      by (cases ce) auto
    have e: "evidence rt w input img rule v d \<longleftrightarrow> ce_Error ce = [] \<and> d = ce_Digest ce" for d
    proof
      assume "evidence rt w input img rule v d"
      then have "cached rt w (in_Image input) \<lparr>ce_Digest = d, ce_Error = []\<rparr>"
        using u False by (auto elim: evidenceE)
      from u'[OF this] show "ce_Error ce = [] \<and> d = ce_Digest ce" by auto
    next
      assume "ce_Error ce = [] \<and> d = ce_Digest ce"
      then have "ce = \<lparr>ce_Digest = d, ce_Error = []\<rparr>" using ceq[of d] by simp
      then show "evidence rt w input img rule v d" using u False by (intro by_cache) auto
    qed
    show ?thesis unfolding e validate_with_def Let_def if_not_P[OF False] s by auto
  next
    assume u: "\<not> unchanged_ok rt input" "\<not> child_ok rt input"
      "child_checked rt \<longrightarrow> \<not> panics (in_ParentImages input)" "\<nexists>ce. cached rt w (in_Image input) ce"
      and s: "Skip rt w img (in_PreviousImages input) (in_ParentImages input) =
         Ret \<lparr>sk_skip = False, sk_Reason = [], sk_Digest = [], sk_Error = None\<rparr>"
    have e: "evidence rt w input img rule v d \<longleftrightarrow>
        (\<exists>img'. SpecificValidator v img (rule_With rule) = Ret (img', Inr d))" for d
      using u False by (auto elim!: evidenceE intro: by_validation)
    show ?thesis
    proof (cases "SpecificValidator v img (rule_With rule)")
      case (Panic p)
      then show ?thesis unfolding e validate_with_def Let_def if_not_P[OF False] s
        by (simp add: Validator_ValidateImage_def init_locals_def)
    next
      case (Ret x)
      then obtain img' r where x: "SpecificValidator v img (rule_With rule) = Ret (img', r)" by (cases x) auto
      note fr = validator_frame[OF ok res x]
      show ?thesis unfolding e validate_with_def Let_def if_not_P[OF False] s
        by (cases r) (auto simp: Validator_ValidateImage_def x conclude_cases[OF fr(1)] fr(2) Let_def)
    qed
  qed
qed

lemma oc_Sent_iff:
  "oc_Sent (ValidateImage rt cancelled input w m) = Some out \<longleftrightarrow>
   \<not> cancelled \<and> (\<exists>p l w'. ValidateImage_body rt input w = (p, l, w') \<and> p \<noteq> Some blocked \<and>
     fst (deferred (rt_parse rt) False input l m) = Some out)"
  unfolding ValidateImage_def by (auto simp: case_prod_beta Let_def prod_eq_iff deferred_def)

text \<open>A body that panics or waits forever leaves no new reference.\<close>

lemma body_panic:
  assumes "ValidateImage_body rt input w = (Some p, l, call)"
  shows "l_newImg l = [] \<and> call = None"
proof (rule ValidateImage_body_cases[of rt input w])
  fix p' l' assume "ValidateImage_body rt input w = (p', l', None)" "l_newImg l' = []"
  with assms show ?thesis by simp
next
  fix img rule v assume "ValidateImage_body rt input w = validate_with rt input w img rule v"
  with assms show ?thesis
    unfolding validate_with_def Let_def
    by (auto split: if_split_asm go.split_asm sum.split_asm prod.split_asm)
qed

lemma deferred_accepts:
  "(\<exists>out. fst (deferred parse False input l m) = Some out \<and> out_Error out = None \<and> out_NewImage out = n) \<longleftrightarrow>
   l_errOut l = None \<and> l_newImg l = n \<and> res_ok (New parse n)"
  unfolding deferred_def Let_def by (auto split: option.splits sum.splits)

lemma New_empty: "parse [] = Inl e \<Longrightarrow> \<not> res_ok (New parse [])"
  by (simp add: New_def)

subsection \<open>The cache\<close>

lemma encode_rune_not_Nil: "encode_rune r \<noteq> []"
  by (simp add: encode_rune_def)

lemma sanitize_Nil_iff: "sanitize s = [] \<longleftrightarrow> s = []"
  by (cases s) (auto simp: encode_rune_not_Nil split: prod.split)

text \<open>
  A digest that the cache holds for an image string has been returned by the validator that the
  configuration assigns to the string.
\<close>

definition validated :: "'w Runtime \<Rightarrow> string \<Rightarrow> string \<Rightarrow> bool" where
  "validated rt s digest \<longleftrightarrow>
     (\<exists>img rule v img' d. resolved rt s img rule v \<and> v_Type v \<noteq> StaticValidatorType \<and>
        SpecificValidator v img (rule_With rule) = Ret (img', Inr d) \<and>
        digest = sanitize (Digest (SetDigest img d)))"

definition cache_sound :: "'w Runtime \<Rightarrow> 'w \<Rightarrow> bool" where
  "cache_sound rt w \<longleftrightarrow>
     (\<forall>s d. cached rt w s \<lparr>ce_Digest = d, ce_Error = []\<rparr> \<longrightarrow> validated rt s d)"

lemma cache_sound_Set:
  assumes "cache_contract (rt_Cache rt)" "cache_sound rt w"
    and "err = [] \<Longrightarrow> d \<noteq> [] \<Longrightarrow> validated rt s (sanitize d)"
  shows "cache_sound rt (fst (cache_Set (rt_Cache rt) w s (cache_value d err)))"
  unfolding cache_sound_def
proof (intro allI impI)
  fix k x
  let ?w = "fst (cache_Set (rt_Cache rt) w s (cache_value d err))"
  assume "cached rt ?w k \<lparr>ce_Digest = x, ce_Error = []\<rparr>"
  then obtain val where get: "cache_Get (rt_Cache rt) ?w k = Inr val"
    and un: "Unmarshal_CachedEntry val = Inr \<lparr>ce_Digest = x, ce_Error = []\<rparr>" and x: "x \<noteq> []"
    by (auto simp: cached_def)
  have old: "validated rt k x" if "cache_Get (rt_Cache rt) w k = Inr val"
    using that un x assms(2) by (auto simp: cache_sound_def cached_def)
  show "validated rt k x"
  proof (cases "k = s")
    case True
    then consider "val = cache_value d err" | "cache_Get (rt_Cache rt) w k = Inr val"
      using cache_contract.get_set_same[OF assms(1), of w s] get by blast
    then show ?thesis
    proof cases
      case 1
      then have "x = sanitize d" "sanitize err = []" using un by (simp_all add: Unmarshal_cache_value)
      then show ?thesis using assms(3) x True by (simp add: sanitize_Nil_iff)
    qed (rule old)
  next
    case False
    from cache_contract.get_set_other[OF assms(1) this get] show ?thesis by (rule old)
  qed
qed

text \<open>
  The store at the end of a validation keeps every sound cache sound, also one that other
  goroutines have changed since the lookup.
\<close>

lemma cache_sound_conclude:
  assumes "cache_contract (rt_Cache rt)" "validators_ok rt" "cache_sound rt w"
    and "resolved rt s img rule v" "v_Type v \<noteq> StaticValidatorType"
    and x: "SpecificValidator v img (rule_With rule) = Ret (img', r)"
  shows "cache_sound rt (run_store rt (snd (conclude env v l img' r)) w)"
proof -
  note fr = validator_frame[OF assms(2,4) x]
  show ?thesis
  proof (cases r)
    case (Inl e)
    then show ?thesis using assms(3)
      by (auto simp: conclude_cases[OF fr(1)] run_store_def Let_def intro!: cache_sound_Set[OF assms(1,3)])
  next
    case (Inr d)
    then have "validated rt s (sanitize (Digest (SetDigest img d)))"
      using assms(4,5) x unfolding validated_def by blast
    then show ?thesis using Inr assms(3)
      by (auto simp: conclude_cases[OF fr(1)] fr(3) run_store_def Let_def
          intro!: cache_sound_Set[OF assms(1,3)])
  qed
qed

lemma run_store_None [simp]: "run_store rt None w = w"
  by (simp add: run_store_def)

lemma cache_sound_body:
  assumes "cache_contract (rt_Cache rt)" "validators_ok rt" "cache_sound rt w'"
  shows "cache_sound rt (run_store rt (snd (snd (ValidateImage_body rt input w))) w')"
proof (rule ValidateImage_body_cases[of rt input w])
  fix img rule v
  assume res: "resolved rt (in_Image input) img rule v"
    and body: "ValidateImage_body rt input w = validate_with rt input w img rule v"
  show ?thesis
  proof (cases "v_Type v = StaticValidatorType")
    case True
    then show ?thesis unfolding body validate_with_def Let_def if_P[OF True] using assms(3)
      by (auto split: go.split sum.split)
  next
    case False
    show ?thesis unfolding body validate_with_def Let_def if_not_P[OF False] Validator_ValidateImage_def
      using assms(3) cache_sound_conclude[OF assms res False]
      by (auto split: go.split)
  qed
qed (simp add: assms(3))

lemma oc_Cache_body:
  "oc_Cache (ValidateImage rt cancelled input w m) = run_store rt (snd (snd (ValidateImage_body rt input w))) w"
proof -
  obtain p l call where b: "ValidateImage_body rt input w = (p, l, call)" by (cases "ValidateImage_body rt input w")
  then show ?thesis using body_panic[of rt input w] by (auto simp: ValidateImage_def case_prod_beta Let_def)
qed

text \<open>Successive validations, each with its input and whether its context is cancelled at the end.\<close>

fun validations :: "'w Runtime \<Rightarrow> (bool \<times> ValidationInput) list \<Rightarrow> 'w \<Rightarrow> counters \<Rightarrow> 'w \<times> counters" where
  "validations rt [] w m = (w, m)"
| "validations rt ((dn, input) # js) w m =
     (let oc = ValidateImage rt dn input w m in validations rt js (oc_Cache oc) (oc_Counters oc))"

lemma cache_sound_validations:
  assumes "cache_contract (rt_Cache rt)" "validators_ok rt" "cache_sound rt w"
  shows "cache_sound rt (fst (validations rt js w m))"
  using assms(3)
  by (induction js arbitrary: w m)
    (auto simp: Let_def oc_Cache_body cache_sound_body[OF assms(1,2)])

subsection \<open>The counters\<close>

definition counters_ok :: "counters \<Rightarrow> bool" where
  "counters_ok m \<longleftrightarrow>
     (\<forall>t n. m (ValidationsTotal t n ''success'') = m (ValidationsSuccessful t n) \<and>
            m (ValidationsTotal t n ''error'') = m (ValidationsFailed t n) + m (ValidationsTimeouted t n))"

lemmas Inc_defs = Inc_def IncValidationsSuccessful_def IncValidationsFailed_def
  IncValidationsSkipped_def IncValidationsTimeouted_def

lemma counters_ok_Inc:
  assumes "counters_ok m"
  shows "counters_ok (IncValidationsSuccessful t n m)" "counters_ok (IncValidationsFailed t n m)"
    "counters_ok (IncValidationsSkipped t n r m)" "counters_ok (IncValidationsTimeouted t n m)"
  using assms by (simp_all add: counters_ok_def Inc_defs)

lemma counters_ok_deferred: "counters_ok m \<Longrightarrow> counters_ok (snd (deferred parse cancelled input l m))"
  unfolding deferred_def Let_def by (auto simp: counters_ok_Inc)

lemma counters_ok_ValidateImage:
  "counters_ok m \<Longrightarrow> counters_ok (oc_Counters (ValidateImage rt cancelled input w m))"
  unfolding ValidateImage_def by (simp add: case_prod_beta Let_def counters_ok_deferred)

subsection \<open>The goroutines of a workload object\<close>

lemma ValidateWorkloadObject_images:
  "distinct (map in_Image (ValidateWorkloadObject rt new old))"
  "in_Image ` set (ValidateWorkloadObject rt new old) = images_of new"
proof -
  have img: "map in_Image (ValidateWorkloadObject rt new old) = map fst (ConsolidatedContainers new)"
    unfolding ValidateWorkloadObject_def Let_def by (simp add: case_prod_beta comp_def)
  show "distinct (map in_Image (ValidateWorkloadObject rt new old))"
    unfolding img by (rule ConsolidatedContainers_distinct)
  show "in_Image ` set (ValidateWorkloadObject rt new old) = images_of new"
    using arg_cong[OF img, of set] ConsolidatedContainers_keys[of new] by simp
qed

subsection \<open>An example runtime\<close>

definition example_parse :: parser where
  "example_parse s =
     (if s = [] then Inl ''could not parse reference''
      else Inr \<lparr>ref_Context = \<lparr>repo_Name = s, repo_RegistryStr = s\<rparr>,
                ref_Identifier = ''latest'', ref_Scope = (\<lambda>a. a)\<rparr>)"

text \<open>A validator that accepts every image under a fixed digest, and one that accepts none.\<close>

definition accept_all :: Validator where
  "accept_all = \<lparr>v_Name = ''default'', v_Type = CosignValidatorType,
     SpecificValidator = (\<lambda>img opts. Ret (img, Inr ''aa''))\<rparr>"

definition accept_none :: Validator where
  "accept_none = \<lparr>v_Name = ''default'', v_Type = CosignValidatorType,
     SpecificValidator = (\<lambda>img opts. Ret (img, Inl ''no signature''))\<rparr>"

definition example_runtime :: "Validator \<Rightarrow> store Runtime" where
  "example_runtime v = \<lparr>rt_Env = Map.empty,
     rt_Config = \<lparr>Validators = [v], Rules = [example_rule ''*:*'']\<rparr>,
     rt_Cache = Redis_Cacher (NewRedis store_client 30), rt_KubeAPI = None,
     rt_parse = example_parse, rt_glob = match_all, rt_decode = example_decoder\<rparr>"

definition example_input :: ValidationInput where
  "example_input = \<lparr>in_IdxsTypes = [\<lparr>idx_Index = 0, idx_Type = ''containers''\<rparr>], in_Image = ''img'',
     in_PreviousImages = [], in_ParentImages = Ret []\<rparr>"

lemma example_cache_contract: "cache_contract (rt_Cache (example_runtime v))"
  by (simp add: example_runtime_def store_server.cached.cache_contract_axioms)

lemma example_validators_ok:
  "validators_ok (example_runtime accept_all)" "validators_ok (example_runtime accept_none)"
  by (auto simp: validators_ok_def example_runtime_def accept_all_def accept_none_def keeps_image_def)

lemma example_cache_sound: "cache_sound (example_runtime v) (0, [])"
  by (simp add: cache_sound_def cached_def example_runtime_def Redis_Cacher_def Redis_Get_def NewRedis_def
        store_client_def store_get_def)

definition example_image :: Image where
  "example_image = projr (New example_parse ''img'')"

lemma example_resolved:
  assumes "v_Name v = ''default''"
  shows "resolved (example_runtime v) (in_Image example_input) example_image (example_rule ''*:*'') v"
proof -
  have "res_ok (New example_parse ''img'')" by code_simp
  then have "New example_parse ''img'' = Inr example_image"
    unfolding example_image_def by (cases "New example_parse ''img''") simp_all
  moreover have "MatchingRule match_all \<lparr>Validators = [], Rules = [example_rule ''*:*'']\<rparr> (Name example_image) =
      Ret (Inr (example_rule ''*:*''))" by code_simp
  then have "MatchingRule match_all \<lparr>Validators = [v], Rules = [example_rule ''*:*'']\<rparr> (Name example_image) =
      Ret (Inr (example_rule ''*:*''))" by (simp add: MatchingRule_def)
  ultimately show ?thesis using assms
    by (simp add: resolved_def example_runtime_def example_input_def Config_Validator_def example_rule_def zero_Rule_def)
qed

lemma example_parse_empty: "rt_parse (example_runtime v) [] = Inl ''could not parse reference''"
  by (simp add: example_runtime_def example_parse_def)

lemma example_not_approved:
  "\<not> unchanged_ok (example_runtime v) example_input" "\<not> child_ok (example_runtime v) example_input"
  "\<not> panics (in_ParentImages example_input)"
  by (simp_all add: unchanged_ok_def child_ok_def example_input_def)

lemma accepts_iff:
  assumes "validators_ok rt" and "rt_parse rt [] = Inl e"
  shows "(\<exists>out. oc_Sent (ValidateImage rt False input w m) = Some out \<and> out_Error out = None \<and>
            out_NewImage out = n) \<longleftrightarrow>
    (\<exists>img rule v d. resolved rt (in_Image input) img rule v \<and> evidence rt w input img rule v d \<and>
       n = Name (SetDigest img d) \<and> res_ok (New (rt_parse rt) n))"
proof -
  have empty: "\<not> res_ok (New (rt_parse rt) [])" by (rule New_empty[where e = e]) (rule assms(2))
  have sent: "(\<exists>out. oc_Sent (ValidateImage rt False input w m) = Some out \<and> out_Error out = None \<and>
        out_NewImage out = n) \<longleftrightarrow>
      (\<exists>p l w'. ValidateImage_body rt input w = (p, l, w') \<and> l_errOut l = None \<and> l_newImg l = n) \<and>
      res_ok (New (rt_parse rt) n)"
    (is "?L \<longleftrightarrow> ?R")
  proof
    show "?L \<Longrightarrow> ?R" unfolding oc_Sent_iff using deferred_accepts[of "rt_parse rt" input _ m n] by fastforce
  next
    assume R: ?R
    then obtain p l w' where b: "ValidateImage_body rt input w = (p, l, w')" "l_errOut l = None" "l_newImg l = n" by blast
    have "n \<noteq> []" using R empty by auto
    then have "p \<noteq> Some blocked" using body_panic[of rt input w] b by (cases p) auto
    then show ?L unfolding oc_Sent_iff using deferred_accepts[of "rt_parse rt" input l m n] b R by fastforce
  qed
  show ?thesis
  proof (rule ValidateImage_body_cases[of rt input w])
    fix p l assume "ValidateImage_body rt input w = (p, l, None)" "l_newImg l = []"
      "\<nexists>img rule v. resolved rt (in_Image input) img rule v"
    then show ?thesis unfolding sent using empty by auto
  next
    fix img rule v assume res: "resolved rt (in_Image input) img rule v"
      and body: "ValidateImage_body rt input w = validate_with rt input w img rule v"
    have "n \<noteq> []" if "res_ok (New (rt_parse rt) n)" using that empty by auto
    then show ?thesis
      unfolding sent body using validate_with_accepts[OF assms(1) res, of w n] resolved_unique[OF res] res
      by blast
  qed
qed

text \<open>What admits an image, from a sound cache: an approval, or its validator.\<close>

lemma accepted_trusted:
  assumes "validators_ok rt" "rt_parse rt [] = Inl e" "cache_sound rt w"
    and "oc_Sent (ValidateImage rt False input w m) = Some out" and "out_Error out = None"
  shows "\<exists>img rule v. resolved rt (in_Image input) img rule v \<and>
    (unchanged_ok rt input \<or> child_ok rt input \<or>
     (\<exists>img' d. SpecificValidator v img (rule_With rule) = Ret (img', Inr d) \<and>
        out_NewImage out \<in> {Name (SetDigest img d), Name (SetDigest img (sanitize (Digest (SetDigest img d))))}))"
proof -
  obtain img rule v d where r: "resolved rt (in_Image input) img rule v"
    and ev: "evidence rt w input img rule v d" and n: "out_NewImage out = Name (SetDigest img d)"
    using accepts_iff[OF assms(1,2), of input w m "out_NewImage out"] assms(4,5) by blast
  from ev show ?thesis
  proof (rule evidenceE)
    assume "cached rt w (in_Image input) \<lparr>ce_Digest = d, ce_Error = []\<rparr>"
    with assms(3) have "validated rt (in_Image input) d" by (simp add: cache_sound_def)
    then obtain img2 rule2 v2 img' d' where r2: "resolved rt (in_Image input) img2 rule2 v2"
      and x: "SpecificValidator v2 img2 (rule_With rule2) = Ret (img', Inr d')"
      and d: "d = sanitize (Digest (SetDigest img2 d'))" by (auto simp: validated_def)
    then show ?thesis using resolved_unique[OF r r2] n r by blast
  qed (use r n in \<open>blast+\<close>)
qed

section \<open>Properties\<close>

text \<open>
  C3 (functional). The exact condition under which a validation admits an image: the goroutine
  sends an output without error and with the new reference \<open>n\<close> iff the image string resolves to an
  image, a rule and a validator, there is evidence for a digest (static allow, an approval by a
  feature that is switched on, a cached digest or a successful validation, in the precedence of the
  code) and \<open>n\<close> is the well-formed name of the image under this digest. Every other case, panics
  and cached errors included, is reported as an error; only a validator that waits forever reports nothing.
\<close>
theorem ValidateImage_accepts_iff:
  assumes "validators_ok rt" and "rt_parse rt [] = Inl e"
  shows "(\<exists>out. oc_Sent (ValidateImage rt False input w m) = Some out \<and> out_Error out = None \<and>
            out_NewImage out = n) \<longleftrightarrow>
    (\<exists>img rule v d. resolved rt (in_Image input) img rule v \<and> evidence rt w input img rule v d \<and>
       n = Name (SetDigest img d) \<and> res_ok (New (rt_parse rt) n))"
  by (rule accepts_iff[OF assms])

theorem ValidateImage_accepts_iff_witness:
  "\<exists>out. oc_Sent (ValidateImage (example_runtime accept_all) False example_input (0, []) (\<lambda>c. 0)) = Some out \<and>
     out_Error out = None \<and> out_NewImage out = ''img:latest@sha256:aa''"
proof -
  let ?rt = "example_runtime accept_all"
  have r: "resolved ?rt (in_Image example_input) example_image (example_rule ''*:*'') accept_all"
    by (rule example_resolved) (simp add: accept_all_def)
  have "\<nexists>ce. cached ?rt (0, []) (in_Image example_input) ce"
    by (simp add: cached_def example_runtime_def Redis_Cacher_def Redis_Get_def NewRedis_def
        store_client_def store_get_def)
  then have "evidence ?rt (0, []) example_input example_image (example_rule ''*:*'') accept_all ''aa''"
    by (intro by_validation[where img' = example_image])
      (simp_all add: example_not_approved accept_all_def)
  moreover have "''img:latest@sha256:aa'' = Name (SetDigest example_image ''aa'')" by code_simp
  moreover have "res_ok (New (rt_parse ?rt) ''img:latest@sha256:aa'')" by code_simp
  ultimately show ?thesis
    unfolding ValidateImage_accepts_iff[OF example_validators_ok(1) example_parse_empty]
    using r by blast
qed

text \<open>
  No validation result is forged: starting from a sound cache (an empty one, say),
  after any sequence of validations, an image that is admitted and is not approved as unchanged or
  as child has been accepted by the validator that the policy assigns to it, and it is admitted
  under the digest that the validator returned (as the cache reads it back).
\<close>
theorem ValidateImage_trust:
  assumes "cache_contract (rt_Cache rt)" and "validators_ok rt" and "rt_parse rt [] = Inl e"
    and "cache_sound rt w0" and "validations rt js w0 m0 = (w, m)"
    and "oc_Sent (ValidateImage rt False input w m) = Some out" and "out_Error out = None"
    and "\<not> unchanged_ok rt input" and "\<not> child_ok rt input"
  shows "\<exists>img rule v img' d. resolved rt (in_Image input) img rule v \<and>
    SpecificValidator v img (rule_With rule) = Ret (img', Inr d) \<and>
    out_NewImage out \<in> {Name (SetDigest img d), Name (SetDigest img (sanitize (Digest (SetDigest img d))))}"
proof -
  have "cache_sound rt w"
    using cache_sound_validations[OF assms(1,2,4), of js m0] assms(5) by simp
  from accepted_trusted[OF assms(2,3) this assms(6,7)] assms(8,9) show ?thesis by blast
qed

theorem ValidateImage_trust_witness:
  "\<exists>img' d. SpecificValidator accept_all example_image (rule_With (example_rule ''*:*'')) = Ret (img', Inr d) \<and>
     Name (SetDigest example_image d) = ''img:latest@sha256:aa''"
proof -
  let ?rt = "example_runtime accept_all" and ?m = "\<lambda>c. 0"
  obtain w m where run: "validations ?rt [(False, example_input)] (0, []) ?m = (w, m)"
    by (cases "validations ?rt [(False, example_input)] (0, []) ?m")
  have r: "resolved ?rt (in_Image example_input) example_image (example_rule ''*:*'') accept_all"
    by (rule example_resolved) (simp add: accept_all_def)
  have "case oc_Sent (ValidateImage ?rt False example_input
            (fst (validations ?rt [(False, example_input)] (0, []) ?m))
            (snd (validations ?rt [(False, example_input)] (0, []) ?m))) of
        Some out \<Rightarrow> out_Error out = None | None \<Rightarrow> False" by code_simp
  then obtain out where out: "oc_Sent (ValidateImage ?rt False example_input w m) = Some out" "out_Error out = None"
    unfolding run by (auto split: option.split_asm)
  obtain img rule v img' d where "resolved ?rt (in_Image example_input) img rule v"
    "SpecificValidator v img (rule_With rule) = Ret (img', Inr d)"
    using ValidateImage_trust[OF example_cache_contract example_validators_ok(1) example_parse_empty
        example_cache_sound run out example_not_approved(1,2)] by blast
  with resolved_unique[OF r this(1)] have x:
    "SpecificValidator accept_all example_image (rule_With (example_rule ''*:*'')) = Ret (img', Inr d)" by simp
  then have "d = ''aa''" by (simp add: accept_all_def)
  moreover have "Name (SetDigest example_image ''aa'') = ''img:latest@sha256:aa''" by code_simp
  ultimately show ?thesis using x by blast
qed

text \<open>
  C26 (error). A rejected image stays rejected: when the validator of the policy fails, and neither an
  approval nor a decisive cache entry comes before it (which static validators do not look for), the
  output carries the error, names the validator and no new reference. The denial of a static
  validator is never cached; the error of another one is put into the cache, and no digest with it, if
  errors are cached. (Errors are cached unless \<open>CACHE_ERRORS\<close> says otherwise; a value of it that is no
  boolean switches that off, against the warning and the test.)
\<close>
theorem ValidateImage_rejects:
  assumes "validators_ok rt" and "resolved rt (in_Image input) img rule v"
    and "SpecificValidator v img (rule_With rule) = Ret (img', Inl e)"
    and "v_Type v \<noteq> StaticValidatorType \<Longrightarrow>
      \<not> unchanged_ok rt input \<and> \<not> child_ok rt input \<and> (child_checked rt \<longrightarrow> \<not> panics (in_ParentImages input)) \<and>
      (\<nexists>ce. cached rt w (in_Image input) ce)"
  shows "\<exists>out err. oc_Sent (ValidateImage rt False input w m) = Some out \<and> out_Error out = Some err \<and>
    out_Validator out = v_Name v \<and> out_NewImage out = [] \<and>
    err = (if v_Type v = StaticValidatorType
      then ''static deny for image '' @ in_Image input @ '' using rule '' @ rule_Pattern rule
      else ''error during '' @ v_Type v @ '' validation of image '' @ in_Image input @ '': '' @ e) \<and>
    oc_Cache (ValidateImage rt False input w m) =
      (if v_Type v \<noteq> StaticValidatorType \<and> CacheErrors (rt_Env rt)
       then fst (cache_Set (rt_Cache rt) w (in_Image input) (cache_value [] err)) else w)"
proof -
  note fr = validator_frame[OF assms(1,2,3)]
  have body: "ValidateImage_body rt input w = validate_with rt input w img rule v"
    using assms(2) by (simp add: ValidateImage_body_def resolved_def)
  show ?thesis
  proof (cases "v_Type v = StaticValidatorType")
    case True
    then show ?thesis using fr(1)
      by (simp add: ValidateImage_def validate_with_def body Let_def Validator_ValidateImage_def assms(3) deferred_def)
  next
    case False
    note miss = assms(4)[OF False]
    show ?thesis
    proof (rule Skip_cases[OF resolved_image(1)[OF assms(2)], of rt w])
      assume s: "Skip rt w img (in_PreviousImages input) (in_ParentImages input) =
          Ret \<lparr>sk_skip = False, sk_Reason = [], sk_Digest = [], sk_Error = None\<rparr>"
      show ?thesis
        using False by (simp add: ValidateImage_def validate_with_def body s Let_def Validator_ValidateImage_def assms(3)
            conclude_cases[OF fr(1)] deferred_def run_store_def)
    qed (use miss in auto)
  qed
qed

theorem ValidateImage_rejects_witness:
  "\<exists>out err. oc_Sent (ValidateImage (example_runtime accept_none) False example_input (0, []) (\<lambda>c. 0)) = Some out \<and>
     out_Error out = Some err \<and> err = ''error during cosign validation of image img: no signature''"
proof -
  let ?rt = "example_runtime accept_none"
  have r: "resolved ?rt (in_Image example_input) example_image (example_rule ''*:*'') accept_none"
    by (rule example_resolved) (simp add: accept_none_def)
  have c: "\<nexists>ce. cached ?rt (0, []) (in_Image example_input) ce"
    by (simp add: cached_def example_runtime_def Redis_Cacher_def Redis_Get_def NewRedis_def
        store_client_def store_get_def)
  have sv: "SpecificValidator accept_none example_image (rule_With (example_rule ''*:*'')) =
      Ret (example_image, Inl ''no signature'')" and t: "v_Type accept_none \<noteq> StaticValidatorType"
    and n: "v_Type accept_none = ''cosign''" "in_Image example_input = ''img''"
    by (simp_all add: accept_none_def example_input_def)
  show ?thesis
    using ValidateImage_rejects[OF example_validators_ok(2) r sv, of "(0, [])" "\<lambda>c. 0"] c example_not_approved
    by (auto simp: n)
qed

text \<open>
  Every validation that does not wait forever reports once: it sends exactly one output unless its context is
  cancelled, and it adds exactly one to exactly one series of the total counter.
\<close>
theorem ValidateImage_reports_once:
  assumes "oc_Panic (ValidateImage rt cancelled input w m) \<noteq> Some blocked"
  shows "(oc_Sent (ValidateImage rt cancelled input w m) = None \<longleftrightarrow> cancelled) \<and>
   (\<exists>t n r. \<forall>t' n' r'. oc_Counters (ValidateImage rt cancelled input w m) (ValidationsTotal t' n' r') =
      m (ValidationsTotal t' n' r') + (if (t', n', r') = (t, n, r) then 1 else 0))"
proof -
  obtain p l w' where b: "ValidateImage_body rt input w = (p, l, w')" by (cases "ValidateImage_body rt input w")
  have p: "p \<noteq> Some blocked" using assms unfolding ValidateImage_def b by (auto simp: Let_def split: if_split_asm prod.split_asm)
  define r where "r = (if cancelled then ''error'' else if out_Error (the (oc_Sent (ValidateImage rt cancelled input w m))) = None
    then ''success'' else ''error'')"
  have "\<forall>t' n' r'. oc_Counters (ValidateImage rt cancelled input w m) (ValidationsTotal t' n' r') =
      m (ValidationsTotal t' n' r') +
      (if (t', n', r') = (l_validatorType l, l_validatorName l, r) then 1 else 0)"
    using p unfolding r_def ValidateImage_def b Let_def deferred_def by (auto simp: Inc_defs)
  moreover have "oc_Sent (ValidateImage rt cancelled input w m) = None \<longleftrightarrow> cancelled"
    using p unfolding ValidateImage_def b Let_def deferred_def by simp
  ultimately show ?thesis by blast
qed

lemma accept_none_sends:
  "\<exists>out. oc_Sent (ValidateImage (example_runtime accept_none) False example_input (0, []) (\<lambda>c. 0)) = Some out"
proof -
  have "oc_Sent (ValidateImage (example_runtime accept_none) False example_input (0, []) (\<lambda>c. 0)) \<noteq> None" by code_simp
  then show ?thesis by blast
qed

theorem ValidateImage_reports_once_witness:
  "oc_Sent (ValidateImage (example_runtime accept_none) False example_input (0, []) (\<lambda>c. 0)) \<noteq> None"
proof -
  have "oc_Panic (ValidateImage (example_runtime accept_none) False example_input (0, []) (\<lambda>c. 0)) = None" by code_simp
  with ValidateImage_reports_once[of "example_runtime accept_none" False example_input "(0, [])" "\<lambda>c. 0"] show ?thesis by simp
qed

text \<open>
  After any sequence of validations the counters agree: the successes among the
  total are the successful validations, its errors the failed and the timed-out ones, for every
  validator.
\<close>
theorem validations_counters_ok:
  assumes "counters_ok m" and "validations rt js w m = (w', m')"
  shows "counters_ok m'"
proof -
  have "counters_ok (snd (validations rt js w m))"
    using assms(1) by (induction js arbitrary: w m) (auto simp: Let_def counters_ok_ValidateImage)
  with assms(2) show ?thesis by simp
qed

theorem validations_counters_ok_witness:
  "counters_ok (snd (validations (example_runtime accept_none) [(True, example_input), (False, example_input)]
     (0, []) (\<lambda>c. 0)))"
  by (rule validations_counters_ok[OF _ surjective_pairing]) (simp add: counters_ok_def)

text \<open>
  C19 (functional). \<open>ValidateWorkloadObject\<close> leaves no container out: the goroutines have
  pairwise different images, a position of the new object belongs to a goroutine iff it holds that
  goroutine's image, every image of the object has a goroutine, and each goroutine gets the images
  of the old object as its previous images.
\<close>
theorem ValidateWorkloadObject_covers:
  "distinct (map in_Image (ValidateWorkloadObject rt new old)) \<and>
   in_Image ` set (ValidateWorkloadObject rt new old) = images_of new \<and>
   (\<forall>p img. image_at new p = Some img \<longleftrightarrow>
      (\<exists>input \<in> set (ValidateWorkloadObject rt new old). in_Image input = img \<and> p \<in> set (in_IdxsTypes input))) \<and>
   (\<forall>input \<in> set (ValidateWorkloadObject rt new old). set (in_PreviousImages input) = images_of old)"
proof -
  let ?cs = "ConsolidatedContainers new"
  have mem: "(\<exists>input \<in> set (ValidateWorkloadObject rt new old). in_Image input = img \<and> p \<in> set (in_IdxsTypes input))
      \<longleftrightarrow> (\<exists>ps. (img, ps) \<in> set ?cs \<and> p \<in> set ps)" for p img
    unfolding ValidateWorkloadObject_def Let_def by force
  have "(img, ps) \<in> set ?cs \<longleftrightarrow> map_of ?cs img = Some ps" for img ps
    using ConsolidatedContainers_distinct by (simp add: map_of_eq_Some_iff)
  then have pos: "image_at new p = Some img \<longleftrightarrow> (\<exists>ps. (img, ps) \<in> set ?cs \<and> p \<in> set ps)" for p img
    using positions_set[of p new img] by (auto simp: ConsolidatedContainers_lookup split: if_splits)
  have "\<forall>input \<in> set (ValidateWorkloadObject rt new old). set (in_PreviousImages input) = images_of old"
    unfolding ValidateWorkloadObject_def Let_def by (auto simp: set_ImageSet)
  then show ?thesis
    using pos mem ValidateWorkloadObject_images[of rt new old] by simp
qed

theorem ValidateWorkloadObject_covers_witness:
  "in_Image ` set (ValidateWorkloadObject (example_runtime accept_all) example_pod empty_workload) = {''nginx''}"
proof -
  have "images_of example_pod = {''nginx''}"
    by (auto simp: images_of_def example_pod_def empty_workload_def)
  then show ?thesis
    using ValidateWorkloadObject_covers[of "example_runtime accept_all" example_pod empty_workload] by simp
qed

text \<open>
  The validation mode of an admitted image is that of its rule: it is only
  validated iff the rule says \<open>insecureValidateOnly\<close>, and mutated in every other case, unknown
  modes included.
\<close>
theorem ValidateImage_mode:
  assumes "resolved rt (in_Image input) img rule v"
    and "oc_Sent (ValidateImage rt False input w m) = Some out"
  shows "out_ValidationMode out =
    (if ro_ValidationMode (rule_With rule) = ValidateMode then ValidateMode else MutateMode)"
proof -
  obtain p l w' where b: "ValidateImage_body rt input w = (p, l, w')" by (cases "ValidateImage_body rt input w")
  have keep: "l_validationMode (fst (conclude e v' l' img' r)) = l_validationMode l'" for e v' l' img' r
    unfolding conclude_def Let_def by (auto split: sum.split)
  have "l_validationMode (fst (snd (validate_with rt input w img rule v))) =
      (if ro_ValidationMode (rule_With rule) = ValidateMode then ValidateMode else MutateMode)"
    unfolding validate_with_def Let_def by (simp add: keep split: go.split sum.split prod.split)
  moreover have "validate_with rt input w img rule v = (p, l, w')"
    using assms(1) b by (simp add: ValidateImage_body_def resolved_def)
  ultimately have "l_validationMode l =
      (if ro_ValidationMode (rule_With rule) = ValidateMode then ValidateMode else MutateMode)" by simp
  then show ?thesis using assms(2) b unfolding oc_Sent_iff by (auto simp: deferred_def Let_def)
qed

theorem ValidateImage_mode_witness:
  "\<exists>out. oc_Sent (ValidateImage (example_runtime accept_none) False example_input (0, []) (\<lambda>c. 0)) = Some out \<and>
     out_ValidationMode out = ''mutate''"
proof -
  let ?oc = "ValidateImage (example_runtime accept_none) False example_input (0, []) (\<lambda>c. 0)"
  have r: "resolved (example_runtime accept_none) (in_Image example_input) example_image (example_rule ''*:*'') accept_none"
    by (rule example_resolved) (simp add: accept_none_def)
  obtain out where out: "oc_Sent ?oc = Some out"
    using accept_none_sends by blast
  have "ro_ValidationMode (rule_With (example_rule ''*:*'')) \<noteq> ValidateMode"
    by (simp add: example_rule_def zero_Rule_def zero_RuleOptions_def)
  then show ?thesis using ValidateImage_mode[OF r out] out by simp
qed

end
