(* ===== verification/Alerting.thy ===== *)
theory Alerting
  imports Files Json Utils
begin

text \<open>
  Package \<open>internal/alert\<close>: the notifications of an admission decision (\<open>alerting.go\<close>), the channel
  that renders and posts one (\<open>channel.go\<close>) and its templates (\<open>template.go\<close>). Go channels and
  \<open>select\<close> are modelled by the sequence of events that the waiting loop sees. The file system, the
  HTTP client, \<open>json.Marshal\<close>, \<open>strcase.ToCamel\<close> and template actions other than field references
  are parameters (the record \<open>alert_ext\<close>).
\<close>

section \<open>Definitions\<close>

abbreviation NotificationResultSuccess :: string where "NotificationResultSuccess \<equiv> ''success''"
abbreviation NotificationResultError :: string where "NotificationResultError \<equiv> ''error''"
abbreviation NotificationResultSkip :: string where "NotificationResultSkip \<equiv> ''skip''"
abbreviation NotificationResultTimeout :: string where "NotificationResultTimeout \<equiv> ''timeout''"
abbreviation NotificationResultInvalid :: string where "NotificationResultInvalid \<equiv> ''invalid''"

record NotificationValues =
  nv_Result :: string
  nv_Error :: "string option"
  nv_Images :: string
  nv_RequestId :: string
  nv_Priority :: int
  nv_ConnaisseurPodId :: string
  nv_Cluster :: string
  nv_Namespace :: string
  nv_Timestamp :: string
  nv_AlertMessage :: string

subsection \<open>template.go\<close>

text \<open>The leftmost match of \<open>{{[^{}]*}}\<close> at the start of a text, and what follows it.\<close>

definition not_brace :: "char \<Rightarrow> bool" where
  "not_brace c \<longleftrightarrow> c \<noteq> CHR ''{'' \<and> c \<noteq> CHR ''}''"

definition jinja_match :: "string \<Rightarrow> (string \<times> string) option" where
  "jinja_match s =
     (if HasPrefix s ''{{''
      then let body = takeWhile not_brace (drop 2 s); rest = dropWhile not_brace (drop 2 s)
           in if HasPrefix rest ''}}'' then Some (''{{'' @ body @ ''}}'', drop 2 rest) else None
      else None)"

definition is_space :: "char \<Rightarrow> bool" where
  "is_space c \<longleftrightarrow> c = CHR '' '' \<or> (9 \<le> (of_char c :: nat) \<and> (of_char c :: nat) \<le> 13)"

definition TrimSpace :: "string \<Rightarrow> string" where
  "TrimSpace s = rev (dropWhile is_space (rev (dropWhile is_space s)))"

definition transformJinjaToGo :: "(string \<Rightarrow> string) \<Rightarrow> string \<Rightarrow> string" where
  "transformJinjaToGo toCamel match =
     (let str = TrimSpace match; camelCase = toCamel str in ''{{ .'' @ camelCase @ '' }}'')"

lemma jinja_match_shorter: "jinja_match s = Some (m, r) \<Longrightarrow> length r < length s"
proof -
  assume a: "jinja_match s = Some (m, r)"
  then have "HasPrefix s ''{{''" and r: "r = drop 2 (dropWhile not_brace (drop 2 s))"
    by (auto simp: jinja_match_def Let_def split: if_split_asm)
  then have "2 \<le> length s" by (auto simp: HasPrefix_iff)
  moreover have "length (dropWhile not_brace (drop 2 s)) \<le> length (drop 2 s)" by (rule length_dropWhile_le)
  ultimately show ?thesis using r by simp
qed

text \<open>\<open>re.ReplaceAllFunc\<close>.\<close>

function ReplaceAll :: "(string \<Rightarrow> string) \<Rightarrow> string \<Rightarrow> string" where
  "ReplaceAll repl [] = []"
| "ReplaceAll repl (c # t) =
     (case jinja_match (c # t) of
        Some (m, r) \<Rightarrow> repl m @ ReplaceAll repl r
      | None \<Rightarrow> c # ReplaceAll repl t)"
  by pat_completeness auto
termination
  by (relation "measure (length \<circ> snd)") (auto dest: jinja_match_shorter)

definition AlertTemplateDir :: string where
  "AlertTemplateDir = ''/app/alerts/templates''"

record alert_ext =
  ax_cwd :: "string res"
  ax_EvalSymlinks :: "string \<Rightarrow> string res"
  ax_ReadFile :: "string \<Rightarrow> string res"
  ax_ToCamel :: "string \<Rightarrow> string"
  ax_action :: "string \<Rightarrow> (NotificationValues \<Rightarrow> string res) res"
  ax_Marshal :: "(string \<times> json) list option \<Rightarrow> string res"
  ax_NewRequest :: "string \<Rightarrow> string option"
  ax_Do :: "string \<Rightarrow> (string \<times> string) list \<Rightarrow> string \<Rightarrow> (int \<times> string) res"
  ax_Now :: string

definition transformTemplate :: "alert_ext \<Rightarrow> string \<Rightarrow> string res" where
  "transformTemplate ax tmpl =
     (case SafeFileName (ax_cwd ax) (ax_EvalSymlinks ax) AlertTemplateDir [tmpl @ ''.json''] of
        Inl err \<Rightarrow> Inl (''unable to get template file: '' @ err)
      | Inr path \<Rightarrow>
          (case ax_ReadFile ax path of
             Inl err \<Rightarrow> Inl (''failed to read template file: '' @ err)
           | Inr bytes \<Rightarrow> Inr (ReplaceAll (transformJinjaToGo (ax_ToCamel ax)) bytes)))"

text \<open>Maps are association lists; assigning to an entry of the nil map panics.\<close>

definition templateWithPayloadFields ::
  "(string \<times> json) list option \<Rightarrow> (string \<times> json) list \<Rightarrow> (string \<times> json) list option go" where
  "templateWithPayloadFields tmpl payloadFields =
     (if payloadFields = [] then Ret tmpl
      else case tmpl of
        None \<Rightarrow> Panic ''assignment to entry in nil map''
      | Some m \<Rightarrow> Ret (Some (fold (\<lambda>(key, value). map_put key value) payloadFields m)))"

subsection \<open>Package text/template, for field references\<close>

datatype segment = TText char | TField string | TAction "NotificationValues \<Rightarrow> string res"

definition is_letter :: "char \<Rightarrow> bool" where
  "is_letter c \<longleftrightarrow> (let x = (of_char c :: nat) in (65 \<le> x \<and> x \<le> 90) \<or> (97 \<le> x \<and> x \<le> 122) \<or> x = 95)"

definition field_name :: "string \<Rightarrow> string option" where
  "field_name action =
     (case TrimSpace action of
        [] \<Rightarrow> None
      | d # name \<Rightarrow>
          if d = CHR ''.'' \<and> name \<noteq> [] \<and> is_letter (hd name) \<and>
             list_all (\<lambda>c. is_letter c \<or> is_digit c) name
          then Some name else None)"

text \<open>The text of an action up to the first \<open>}}\<close>.\<close>

fun action_text :: "string \<Rightarrow> (string \<times> string) option" where
  "action_text (a # b # s) =
     (if a = CHR ''}'' \<and> b = CHR ''}'' then Some ([], s)
      else map_option (\<lambda>(x, r). (a # x, r)) (action_text (b # s)))"
| "action_text s = None"

lemma action_text_shorter: "action_text s = Some (x, r) \<Longrightarrow> length r < length s"
proof (induction s arbitrary: x r rule: action_text.induct)
  case (1 a b s)
  show ?case
  proof (cases "a = CHR ''}'' \<and> b = CHR ''}''")
    case False
    with 1(2) obtain y where "action_text (b # s) = Some (y, r)" by auto
    with 1(1)[OF False] show ?thesis by fastforce
  qed (use 1(2) in auto)
qed auto

function parse_template ::
  "(string \<Rightarrow> (NotificationValues \<Rightarrow> string res) res) \<Rightarrow> string \<Rightarrow> segment list res" where
  "parse_template act [] = Inr []"
| "parse_template act (c # t) =
     (if HasPrefix (c # t) ''{{'' then
        (case action_text (drop 1 t) of
           None \<Rightarrow> Inl ''unclosed action''
         | Some (action, r) \<Rightarrow>
             (case field_name action of
                Some name \<Rightarrow> map_sum id (\<lambda>ss. TField name # ss) (parse_template act r)
              | None \<Rightarrow>
                  (case act action of
                     Inl err \<Rightarrow> Inl err
                   | Inr f \<Rightarrow> map_sum id (\<lambda>ss. TAction f # ss) (parse_template act r))))
      else map_sum id (\<lambda>ss. TText c # ss) (parse_template act t))"
  by pat_completeness auto
termination
  by (relation "measure (length \<circ> snd)") (auto dest!: action_text_shorter)

definition field_value :: "NotificationValues \<Rightarrow> string \<Rightarrow> string res" where
  "field_value nv name =
     (if name = ''Result'' then Inr (nv_Result nv)
      else if name = ''Error'' then Inr (case nv_Error nv of Some e \<Rightarrow> e | None \<Rightarrow> ''<nil>'')
      else if name = ''Images'' then Inr (nv_Images nv)
      else if name = ''RequestId'' then Inr (nv_RequestId nv)
      else if name = ''Priority'' then Inr (Itoa (nv_Priority nv))
      else if name = ''ConnaisseurPodId'' then Inr (nv_ConnaisseurPodId nv)
      else if name = ''Cluster'' then Inr (nv_Cluster nv)
      else if name = ''Namespace'' then Inr (nv_Namespace nv)
      else if name = ''Timestamp'' then Inr (nv_Timestamp nv)
      else if name = ''AlertMessage'' then Inr (nv_AlertMessage nv)
      else Inl (''can't evaluate field '' @ name @ '' in type NotificationValues''))"

fun Execute :: "segment list \<Rightarrow> NotificationValues \<Rightarrow> string res" where
  "Execute [] nv = Inr []"
| "Execute (seg # segs) nv =
     (case (case seg of TText c \<Rightarrow> Inr [c] | TField name \<Rightarrow> field_value nv name | TAction f \<Rightarrow> f nv) of
        Inl err \<Rightarrow> Inl err
      | Inr out \<Rightarrow> map_sum id (\<lambda>rest. out @ rest) (Execute segs nv))"

subsection \<open>channel.go\<close>

record Channel =
  ChannelName :: string
  ch_URL :: string
  ch_Priority :: "int option"
  PayloadFields :: "(string \<times> json) list"
  Headers :: "string list"
  TemplateFile :: string
  Fail :: bool

text \<open>\<open>utils.JsonEscapeStruct\<close> on the values: every field of kind string; \<open>Error\<close> is an interface.\<close>

definition JsonEscapeStruct :: "NotificationValues \<Rightarrow> NotificationValues" where
  "JsonEscapeStruct v =
     v\<lparr>nv_Result := JsonEscapeString (nv_Result v), nv_Images := JsonEscapeString (nv_Images v),
       nv_RequestId := JsonEscapeString (nv_RequestId v),
       nv_ConnaisseurPodId := JsonEscapeString (nv_ConnaisseurPodId v),
       nv_Cluster := JsonEscapeString (nv_Cluster v), nv_Namespace := JsonEscapeString (nv_Namespace v),
       nv_Timestamp := JsonEscapeString (nv_Timestamp v),
       nv_AlertMessage := JsonEscapeString (nv_AlertMessage v)\<rparr>"

text \<open>\<open>json.Unmarshal\<close> into \<open>map[string]interface{}\<close>: \<open>null\<close> makes the map nil.\<close>

definition Unmarshal_map :: "string \<Rightarrow> (string \<times> json) list option res" where
  "Unmarshal_map s =
     (case parse_json s of
        None \<Rightarrow> Inl ''invalid json''
      | Some (JObject ms) \<Rightarrow> Inr (Some (fold (\<lambda>(k, v). map_put k v) ms []))
      | Some JNull \<Rightarrow> Inr None
      | Some _ \<Rightarrow> Inl ''json: cannot unmarshal into map'')"

definition generateNotificationMessage ::
  "alert_ext \<Rightarrow> Channel \<Rightarrow> NotificationValues \<Rightarrow> string res go" where
  "generateNotificationMessage ax ch opts =
     (case transformTemplate ax (TemplateFile ch) of
        Inl err \<Rightarrow> Ret (Inl (''failed to transform template for receiver '' @ ChannelName ch @ '': '' @ err))
      | Inr tmplStr \<Rightarrow>
     (case parse_template (ax_action ax) tmplStr of
        Inl err \<Rightarrow> Ret (Inl (''failed to parse template file: '' @ err))
      | Inr tmpl \<Rightarrow>
     (case Execute tmpl (JsonEscapeStruct opts) of
        Inl err \<Rightarrow> Ret (Inl (''failed to render template for receiver '' @ ChannelName ch @ '': '' @ err))
      | Inr buf \<Rightarrow>
          if buf = [] \<or> buf = ''{}'' then Ret (Inr [])
          else case Unmarshal_map buf of
            Inl err \<Rightarrow> Ret (Inl (''failed to unmarshal rendered template for receiver '' @ ChannelName ch
                             @ '': '' @ err))
          | Inr tmplMap \<Rightarrow>
              go_bind (templateWithPayloadFields tmplMap (PayloadFields ch)) (\<lambda>tmplMap.
                Ret (case ax_Marshal ax tmplMap of
                       Inl err \<Rightarrow> Inl (''failed to marshal rendered template for receiver '' @
                                      ChannelName ch @ '': '' @ err)
                     | Inr b \<Rightarrow> Inr b)))))"

text \<open>The headers of the request: the calls of \<open>req.Header.Set\<close> in order.\<close>

fun set_headers :: "Channel \<Rightarrow> string list \<Rightarrow> (string \<times> string) list \<Rightarrow> (string \<times> string) list res" where
  "set_headers ch [] calls = Inr calls"
| "set_headers ch (header # hs) calls =
     (case Index header (CHR '':'') of
        None \<Rightarrow> Inl (''header configuration for notification of receiver '' @ ChannelName ch @
                    '' is invalid. Not all headers are valid: '' @ fmt_slice (Headers ch))
      | Some i \<Rightarrow> set_headers ch hs (calls @ [(take i header, drop (Suc i) header)]))"

text \<open>The body of \<open>Send\<close> after the early report: the value of \<open>errOut\<close> for the deferred function.\<close>

definition Send_body :: "alert_ext \<Rightarrow> Channel \<Rightarrow> NotificationValues \<Rightarrow> string option go" where
  "Send_body ax ch opts =
     (let opts = opts\<lparr>nv_Priority := (case ch_Priority ch of None \<Rightarrow> 3 | Some p \<Rightarrow> p),
                     nv_Timestamp := ax_Now ax\<rparr>;
          failed = (\<lambda>err. Some (''failed to send notification for receiver '' @ ChannelName ch @ '': '' @ err))
      in go_bind (generateNotificationMessage ax ch opts) (\<lambda>r. Ret
           (case r of
              Inl err \<Rightarrow> Some err
            | Inr buf \<Rightarrow>
                if buf = [] then None
                else case ax_NewRequest ax (ch_URL ch) of
                  Some err \<Rightarrow> Some (''failed to create request for notification of receiver '' @
                                   ChannelName ch @ '': '' @ err)
                | None \<Rightarrow>
                    (case set_headers ch (Headers ch) [(''Content-Type'', ''application/json'')] of
                       Inl err \<Rightarrow> Some err
                     | Inr hs \<Rightarrow>
                         (case ax_Do ax (ch_URL ch) hs buf of
                            Inl err \<Rightarrow> failed err
                          | Inr (status, body) \<Rightarrow>
                              if status < 200 \<or> status \<ge> 300 then failed body else None)))))"

text \<open>
  What \<open>Send\<close> writes to the error channel, in order, and its panic, which ends the process; \<open>cancelled\<close> tells
  whether its context is cancelled when the deferred function runs (which it also does on a panic,
  with the error still nil).
\<close>

definition Send :: "alert_ext \<Rightarrow> Channel \<Rightarrow> bool \<Rightarrow> NotificationValues \<Rightarrow> string option list \<times> string option" where
  "Send ax ch cancelled opts =
     (let early = (if \<not> Fail ch then [None] else []);
          reported = (\<lambda>errOut. early @ (if \<not> cancelled \<and> Fail ch then [errOut] else []))
      in case Send_body ax ch opts of
           Panic p \<Rightarrow> (reported None, Some p)
         | Ret errOut \<Rightarrow> (reported errOut, None))"

subsection \<open>alerting.go\<close>

record AlertConfig =
  ClusterId :: string
  AdmitRequests :: "Channel list"
  RejectRequests :: "Channel list"

text \<open>The events that the waiting loop receives from \<open>select\<close>.\<close>

datatype alert_event = AlertDone | AlertErr "string option"

text \<open>
  The loop over the receivers: \<^const>\<open>None\<close> while it waits for its next event, and the error it
  returns otherwise.
\<close>

fun wait_alerts ::
  "string \<Rightarrow> nat \<Rightarrow> nat \<Rightarrow> Channel list \<Rightarrow> alert_event list \<Rightarrow> string option option" where
  "wait_alerts stream n i [] events = Some None"
| "wait_alerts stream n i (rec # recs) [] = None"
| "wait_alerts stream n i (rec # recs) (AlertDone # events) =
     Some (Some (''timeout during handling of receiver '' @ decimal i @ ''/'' @ decimal n @
                 '' of '' @ stream @ '' alerts''))"
| "wait_alerts stream n i (rec # recs) (AlertErr None # events) =
     wait_alerts stream n (Suc i) recs events"
| "wait_alerts stream n i (rec # recs) (AlertErr (Some err) # events) =
     Some (Some (''failed sending a notification for receiver '' @ ChannelName rec @
                 '' with FailOnError set: '' @ err))"

text \<open>The receivers, the stream and the completed values, by the result of the request.\<close>

definition select_receivers ::
  "AlertConfig \<Rightarrow> NotificationValues \<Rightarrow> (Channel list \<times> string \<times> NotificationValues) res go" where
  "select_receivers a opts =
     (if nv_Result opts = NotificationResultSuccess \<or> nv_Result opts = NotificationResultSkip
      then Ret (Inr (AdmitRequests a, ''admit'',
                     opts\<lparr>nv_AlertMessage := ''CONNAISSEUR admitted a request''\<rparr>))
      else if nv_Result opts = NotificationResultError
      then (case nv_Error opts of
              None \<Rightarrow> Panic ''nil pointer dereference''
            | Some err \<Rightarrow> Ret (Inr (RejectRequests a, ''reject'',
                opts\<lparr>nv_AlertMessage := ''CONNAISSEUR rejected a request: '' @ err\<rparr>)))
      else if nv_Result opts = NotificationResultTimeout
      then Ret (Inr (RejectRequests a, ''reject'',
             opts\<lparr>nv_AlertMessage := ''CONNAISSEUR validation timed out for admission request '' @
                   nv_RequestId opts\<rparr>))
      else if nv_Result opts = NotificationResultInvalid
      then Ret (Inr (RejectRequests a, ''reject'',
             opts\<lparr>nv_AlertMessage := ''CONNAISSEUR failed to parse admission request '' @
                   nv_RequestId opts\<rparr>))
      else Ret (Inl (''unknown result type for alerting: '' @ nv_Result opts)))"

text \<open>
  The whole function, given the events its loop sees: the configuration it leaves (the cluster id
  is filled in), the started senders with their values, and the error, \<^const>\<open>None\<close> while it waits.
\<close>

definition EvalAndSendNotifications ::
  "AlertConfig \<Rightarrow> NotificationValues \<Rightarrow> alert_event list \<Rightarrow>
     (AlertConfig \<times> (Channel \<times> NotificationValues) list \<times> string option option) go" where
  "EvalAndSendNotifications a opts events =
     (let a = (if ClusterId a = [] then a\<lparr>ClusterId := ''not specified''\<rparr> else a);
          opts = opts\<lparr>nv_Cluster := ClusterId a\<rparr>
      in go_bind (select_receivers a opts) (\<lambda>r. Ret
           (case r of
              Inl err \<Rightarrow> (a, [], Some (Some err))
            | Inr (receivers, stream, opts) \<Rightarrow>
                (a, map (\<lambda>sender. (sender, opts)) receivers,
                 wait_alerts stream (length receivers) 0 receivers events))))"

section \<open>Lemmas\<close>

text \<open>The reports of a sender that does not panic: one, or none where its context is cancelled.\<close>

lemma Send_Ret:
  assumes "Send_body ax ch opts = Ret e"
  shows "Send ax ch cancelled opts = ((if \<not> Fail ch then [None] else if cancelled then [] else [e]), None)"
  using assms by (simp add: Send_def Let_def)

lemma Send_no_panic: "snd (Send ax ch cancelled opts) = None \<longleftrightarrow> (\<exists>e. Send_body ax ch opts = Ret e)"
  by (cases "Send_body ax ch opts") (simp_all add: Send_def Let_def)

abbreviation reports :: "alert_ext \<Rightarrow> NotificationValues \<Rightarrow> Channel list \<Rightarrow> string option list" where
  "reports ax opts rcvs \<equiv> concat (map (\<lambda>ch. fst (Send ax ch False opts)) rcvs)"

lemma wait_alerts_reports:
  "rest = [] \<or> rest = [AlertDone] \<Longrightarrow> rest = [] \<longrightarrow> length rcvs \<le> length xs \<Longrightarrow>
   \<exists>r. wait_alerts stream n i rcvs (map AlertErr xs @ rest) = Some r \<and>
    (r = None \<longleftrightarrow> length rcvs \<le> length xs \<and> (\<forall>x \<in> set (take (length rcvs) xs). x = None))"
proof (induction rcvs arbitrary: i xs)
  case (Cons rec recs)
  show ?case
  proof (cases xs)
    case Nil
    then show ?thesis using Cons.prems by auto
  next
    case xs: (Cons x xs')
    show ?thesis
    proof (cases x)
      case None
      then show ?thesis using Cons.IH[of xs' "Suc i"] Cons.prems xs by simp
    next
      case (Some err)
      then show ?thesis using xs by simp
    qed
  qed
qed simp

lemma length_reports:
  "\<forall>ch \<in> set rcvs. snd (Send ax ch False opts) = None \<Longrightarrow> length (reports ax opts rcvs) = length rcvs"
  by (induction rcvs) (auto simp: Send_no_panic Send_Ret)

text \<open>The string fields, which \<open>JsonEscapeStruct\<close> escapes, and their values.\<close>

definition string_fields :: "string list" where
  "string_fields = [''Result'', ''Images'', ''RequestId'', ''ConnaisseurPodId'', ''Cluster'', ''Namespace'',
     ''Timestamp'', ''AlertMessage'']"

lemma field_value_escaped:
  assumes "name \<in> set string_fields"
  shows "\<exists>v. field_value nv name = Inr v \<and> field_value (JsonEscapeStruct nv) name = Inr (json_escape v)"
  using assms unfolding string_fields_def
  by (auto simp: field_value_def JsonEscapeStruct_def JsonEscapeString_eq)

text \<open>Text that may stand in a JSON string as it is.\<close>

definition plain_char :: "char \<Rightarrow> bool" where
  "plain_char c \<longleftrightarrow> c \<noteq> DQ \<and> c \<noteq> BS \<and> 32 \<le> byte c \<and> byte c < 128"

primrec string_segment :: "segment \<Rightarrow> bool" where
  "string_segment (TText c) = plain_char c"
| "string_segment (TField name) = (name \<in> set string_fields)"
| "string_segment (TAction f) = False"

primrec shown :: "NotificationValues \<Rightarrow> segment \<Rightarrow> string" where
  "shown nv (TText c) = [c]"
| "shown nv (TField name) = (case field_value nv name of Inr v \<Rightarrow> sanitize v | Inl _ \<Rightarrow> [])"
| "shown nv (TAction f) = []"

lemma Execute_unquote:
  assumes "list_all string_segment segs"
  shows "\<exists>out. Execute segs (JsonEscapeStruct nv) = Inr out \<and>
    unquote (out @ t) = prepend (concat (map (shown nv) segs)) (unquote t)"
  using assms
proof (induction segs)
  case (Cons seg segs)
  then obtain out where out: "Execute segs (JsonEscapeStruct nv) = Inr out"
    "unquote (out @ t) = prepend (concat (map (shown nv) segs)) (unquote t)" by auto
  show ?case
  proof (cases seg)
    case (TText c)
    with Cons.prems have "plain_char c" by simp
    then show ?thesis using TText out by (simp add: unquote_plain plain_char_def)
  next
    case (TField name)
    with Cons.prems have "name \<in> set string_fields" by simp
    from field_value_escaped[OF this, of nv] obtain v where
      "field_value nv name = Inr v" "field_value (JsonEscapeStruct nv) name = Inr (json_escape v)" by blast
    then show ?thesis using TField out by (simp add: unquote_escape_append)
  next
    case (TAction f)
    with Cons.prems show ?thesis by simp
  qed
qed simp

text \<open>
  A flat template: an object whose members have plain keys and string values made of plain text
  and string fields, with any white space around them.
\<close>

definition white :: "string \<Rightarrow> bool" where
  "white w \<longleftrightarrow> list_all (\<lambda>c. c = CHR 0x20 \<or> c = CHR 0x09 \<or> c = CHR 0x0D \<or> c = CHR 0x0A) w"

record member =
  mb_before :: string
  mb_key :: string
  mb_colon_before :: string
  mb_colon_after :: string
  mb_value :: "segment list"
  mb_after :: string

definition member_ok :: "member \<Rightarrow> bool" where
  "member_ok mb \<longleftrightarrow> white (mb_before mb) \<and> list_all plain_char (mb_key mb) \<and> white (mb_colon_before mb) \<and>
     white (mb_colon_after mb) \<and> list_all string_segment (mb_value mb) \<and> white (mb_after mb)"

fun template_members :: "member list \<Rightarrow> segment list" where
  "template_members [] = []"
| "template_members (mb # mbs) =
     map TText (mb_before mb @ [DQ] @ mb_key mb @ [DQ] @ mb_colon_before mb @ '':'' @ mb_colon_after mb @ [DQ]) @
     mb_value mb @ map TText ([DQ] @ mb_after mb @ (if mbs = [] then ''}'' else '','')) @ template_members mbs"

abbreviation flat_template :: "member list \<Rightarrow> string \<Rightarrow> segment list" where
  "flat_template mbs tail \<equiv> TText (CHR ''{'') # template_members mbs @ map TText tail"

lemma Execute_append:
  "Execute (xs @ ys) nv = (case Execute xs nv of Inl err \<Rightarrow> Inl err | Inr a \<Rightarrow> map_sum id (\<lambda>b. a @ b) (Execute ys nv))"
proof (induction xs)
  case Nil
  show ?case by (cases "Execute ys nv") simp_all
next
  case (Cons seg xs)
  then show ?case by (cases "Execute xs nv"; cases "Execute ys nv") (simp_all split: sum.split segment.split)
qed

lemma Execute_text [simp]: "Execute (map TText s) nv = Inr s"
  by (induction s) simp_all

lemma skip_ws_white: "white w \<Longrightarrow> skip_ws (w @ s) = skip_ws s"
  by (induction w) (auto simp: white_def skip_ws_def)

lemma skip_ws_append: "skip_ws s = c # u \<Longrightarrow> skip_ws (s @ t) = c # u @ t"
  by (induction s) (auto simp: skip_ws_def split: if_split_asm)

lemma skip_ws_stop [simp]:
  "skip_ws (DQ # s) = DQ # s" "skip_ws (CHR '':'' # s) = CHR '':'' # s" "skip_ws (CHR '','' # s) = CHR '','' # s"
  "skip_ws (CHR ''}'' # s) = CHR ''}'' # s" "skip_ws (CHR ''{'' # s) = CHR ''{'' # s" "skip_ws [] = []"
  by (simp_all add: skip_ws_def)

lemma unquote_key: "list_all plain_char k \<Longrightarrow> unquote (k @ DQ # t) = Some (k, t)"
  by (induction k) (simp_all add: unquote_plain plain_char_def prepend_def)

text \<open>The members of a rendered template are read back with the values that they show.\<close>

lemma parse_rendered_members:
  assumes "list_all member_ok mbs" and "mbs \<noteq> []" and "length mbs < n"
  shows "\<exists>out. Execute (template_members mbs) (JsonEscapeStruct nv) = Inr out \<and> (\<exists>u. skip_ws out = DQ # u) \<and>
    length mbs \<le> length out \<and>
    parse_members n d (out @ t) =
      Some (map (\<lambda>mb. (mb_key mb, JString (concat (map (shown nv) (mb_value mb))))) mbs, t)"
  using assms
proof (induction mbs arbitrary: n)
  case (Cons mb mbs)
  then obtain n' where n: "n = Suc n'" "length mbs < n'" by (cases n) auto
  then obtain n'' where n': "n' = Suc n''" by (cases n') auto
  have ok: "white (mb_before mb)" "list_all plain_char (mb_key mb)" "white (mb_colon_before mb)"
    "white (mb_colon_after mb)" "list_all string_segment (mb_value mb)" "white (mb_after mb)"
    using Cons.prems(1) by (simp_all add: member_ok_def)
  obtain val where val: "Execute (mb_value mb) (JsonEscapeStruct nv) = Inr val"
    using Execute_unquote[OF ok(5)] by blast
  have read: "unquote (val @ DQ # u) = Some (concat (map (shown nv) (mb_value mb)), u)" for u
    using Execute_unquote[OF ok(5), of nv "DQ # u"] val by simp
  let ?head = "mb_before mb @ [DQ] @ mb_key mb @ [DQ] @ mb_colon_before mb @ '':'' @ mb_colon_after mb @ [DQ]"
  have first: "parse_members n d (?head @ val @ [DQ] @ mb_after mb @ c # u) =
    (if c = CHR '','' then map_option (\<lambda>(ms, x). ((mb_key mb, JString (concat (map (shown nv) (mb_value mb)))) # ms, x))
       (parse_members n' d u)
     else if c = CHR ''}'' then Some ([(mb_key mb, JString (concat (map (shown nv) (mb_value mb))))], u) else None)"
    if "c = CHR '','' \<or> c = CHR ''}''" for c u
    using that unfolding n(1)
    by (auto simp: skip_ws_white[OF ok(1)] skip_ws_white[OF ok(3)] skip_ws_white[OF ok(4)] skip_ws_white[OF ok(6)]
        unquote_key[OF ok(2)] read n')
  have start: "\<exists>v. skip_ws (?head @ u) = DQ # v" for u
    by (simp add: skip_ws_white[OF ok(1)])
  show ?case
  proof (cases "mbs = []")
    case True
    then show ?thesis using first[of "CHR ''}''" t] start[of "val @ [DQ] @ mb_after mb @ ''}''"]
      by (intro exI[of _ "?head @ val @ [DQ] @ mb_after mb @ ''}''"]) (simp add: Execute_append val)
  next
    case False
    obtain out where out: "Execute (template_members mbs) (JsonEscapeStruct nv) = Inr out" "length mbs \<le> length out"
      "parse_members n' d (out @ t) = Some (map (\<lambda>mb. (mb_key mb, JString (concat (map (shown nv) (mb_value mb))))) mbs, t)"
      using Cons.IH[OF _ False n(2)] Cons.prems(1) by auto
    then show ?thesis using first[of "CHR '',''" "out @ t"] start[of "val @ [DQ] @ mb_after mb @ '','' @ out"] False
      by (intro exI[of _ "?head @ val @ [DQ] @ mb_after mb @ '','' @ out"]) (simp add: Execute_append val)
  qed
qed simp

lemma parse_rendered:
  assumes "list_all member_ok mbs" and "mbs \<noteq> []" and "white tail"
  shows "\<exists>out. Execute (flat_template mbs tail) (JsonEscapeStruct nv) = Inr out \<and> out \<noteq> [] \<and> out \<noteq> ''{}'' \<and>
    Unmarshal_map out =
      Inr (Some (fold (\<lambda>mb. map_put (mb_key mb) (JString (concat (map (shown nv) (mb_value mb))))) mbs []))"
proof -
  obtain out where out: "Execute (template_members mbs) (JsonEscapeStruct nv) = Inr out"
    "\<exists>u. skip_ws out = DQ # u" "length mbs \<le> length out"
    using parse_rendered_members[OF assms(1,2) lessI] by blast
  let ?all = "CHR ''{'' # out @ tail"
  let ?ms = "map (\<lambda>mb. (mb_key mb, JString (concat (map (shown nv) (mb_value mb))))) mbs"
  have parse: "parse_members n 1 (out @ tail) = Some (?ms, tail)" if "length mbs < n" for n
    using parse_rendered_members[OF assms(1,2) that, of nv 1 tail] out(1) by auto
  have dq: "skip_ws out = DQ # tl (skip_ws out)" using out(2) by auto
  have skip: "skip_ws (out @ tail) = DQ # tl (skip_ws out) @ tail" by (rule skip_ws_append[OF dq])
  have again: "parse_members n d s = parse_members n d (skip_ws s)" for n d s
    by (cases n) (simp_all add: skip_ws_def)
  have "parse_value (2 * length ?all + 2) 0 ?all = Some (JObject ?ms, tail)"
    using parse[of "2 * length ?all + 1"] out(3) skip again[of _ _ "out @ tail"] by (simp add: skip_ws_white)
  then have "parse_json ?all = Some (JObject ?ms)"
    using skip_ws_white[OF assms(3), of "[]"] unfolding parse_json_def by simp
  then have "Unmarshal_map ?all = Inr (Some (fold (\<lambda>mb. map_put (mb_key mb) (JString (concat (map (shown nv) (mb_value mb))))) mbs []))"
    by (simp add: Unmarshal_map_def fold_map comp_def)
  moreover have "Execute (flat_template mbs tail) (JsonEscapeStruct nv) = Inr ?all"
    by (simp add: Execute_append out(1))
  moreover have "?all \<noteq> ''{}''"
    using dq by (auto simp: Cons_eq_append_conv append_eq_Cons_conv)
  ultimately show ?thesis by blast
qed

section \<open>Properties\<close>

text \<open>
  C36 (liveness). The wait for the alerts ends and reports failures faithfully. Let no sender panic (that
  ends the process), and let the loop see the reports of the senders in any order, all of them or
  only some before the cancellation of its context. Then it returns, and without an error exactly
  if all reports arrive in time and every channel with \<open>failIfAlertSendingFails\<close> could send. So the
  failure of another channel never makes a request fail, while a cancellation before the last report does,
  whatever the channels are.
\<close>
theorem alerts_outcome:
  assumes "\<forall>ch \<in> set rcvs. snd (Send ax ch False opts) = None"
    and "mset xs \<subseteq># mset (reports ax opts rcvs)"
    and "cancelled \<or> mset xs = mset (reports ax opts rcvs)"
  shows "\<exists>r. wait_alerts stream n 0 rcvs (map AlertErr xs @ (if cancelled then [AlertDone] else [])) = Some r \<and>
    (r = None \<longleftrightarrow> length xs = length rcvs \<and>
       list_all (\<lambda>ch. Fail ch \<longrightarrow> Send_body ax ch opts = Ret None) rcvs)"
proof -
  note len = length_reports[OF assms(1)]
  have le: "length xs \<le> length rcvs" using size_mset_mono[OF assms(2)] len by simp
  have all: "mset xs = mset (reports ax opts rcvs)" if "length xs = length rcvs"
    using assms(2) that len mset_subset_size[of "mset xs" "mset (reports ax opts rcvs)"]
    by (auto simp: subset_mset.less_le)
  have now: "\<not> cancelled \<longrightarrow> length rcvs \<le> length xs"
    using assms(3) len mset_eq_length by fastforce
  obtain r where r: "wait_alerts stream n 0 rcvs (map AlertErr xs @ (if cancelled then [AlertDone] else [])) = Some r"
    "r = None \<longleftrightarrow> length rcvs \<le> length xs \<and> (\<forall>x \<in> set (take (length rcvs) xs). x = None)"
  proof -
    have "\<exists>r. wait_alerts stream n 0 rcvs (map AlertErr xs @ (if cancelled then [AlertDone] else [])) = Some r \<and>
        (r = None \<longleftrightarrow> length rcvs \<le> length xs \<and> (\<forall>x \<in> set (take (length rcvs) xs). x = None))"
      by (rule wait_alerts_reports) (use now in simp_all)
    with that show ?thesis by blast
  qed
  have ok: "(\<forall>x \<in> set (reports ax opts rcvs). x = None) \<longleftrightarrow> list_all (\<lambda>ch. Fail ch \<longrightarrow> Send_body ax ch opts = Ret None) rcvs"
    using assms(1) by (induction rcvs) (auto simp: Send_no_panic Send_Ret split: if_splits)
  have "r = None \<longleftrightarrow> length xs = length rcvs \<and> (\<forall>x \<in> set xs. x = None)" using r(2) le by auto
  also have "\<dots> \<longleftrightarrow> length xs = length rcvs \<and> (\<forall>x \<in> set (reports ax opts rcvs). x = None)"
    using all mset_eq_setD by metis
  finally show ?thesis using r(1) ok by blast
qed

definition example_ext :: alert_ext where
  "example_ext = \<lparr>ax_cwd = Inr ''/'', ax_EvalSymlinks = Inr,
     ax_ReadFile = (\<lambda>p. Inr [CHR ''{'', DQ, CHR ''t'', DQ, CHR '':'', DQ, CHR ''{'', CHR ''{'', CHR ''m'', CHR ''}'', CHR ''}'', DQ, CHR ''}'']),
     ax_ToCamel = (\<lambda>s. ''AlertMessage''), ax_action = (\<lambda>a. Inl ''unexpected action''),
     ax_Marshal = (\<lambda>m. Inr ''message''), ax_NewRequest = (\<lambda>u. None),
     ax_Do = (\<lambda>u hs b. if u = ''https://ok'' then Inr (200, []) else Inl ''no such host''), ax_Now = ''now''\<rparr>"

definition example_channel :: "string \<Rightarrow> string \<Rightarrow> bool \<Rightarrow> Channel" where
  "example_channel name url fail = \<lparr>ChannelName = name, ch_URL = url, ch_Priority = None, PayloadFields = [],
     Headers = [''X: y''], TemplateFile = ''slack'', Fail = fail\<rparr>"

definition example_values :: NotificationValues where
  "example_values = \<lparr>nv_Result = ''success'', nv_Error = None, nv_Images = [], nv_RequestId = ''1'',
     nv_Priority = 3, nv_ConnaisseurPodId = ''pod'', nv_Cluster = ''c'', nv_Namespace = ''default'',
     nv_Timestamp = [], nv_AlertMessage = ''CONNAISSEUR admitted a request''\<rparr>"

lemma example_sends:
  "Send_body example_ext (example_channel ''ok'' ''https://ok'' b) example_values = Ret None"
  "Send_body example_ext (example_channel ''bad'' ''https://bad'' b) example_values =
     Ret (Some ''failed to send notification for receiver bad: no such host'')"
  by code_simp+

lemmas example_reports = example_sends[THEN Send_Ret]

lemma example_Fail [simp]: "Fail (example_channel name url b) = b" "ChannelName (example_channel name url b) = name"
  by (simp_all add: example_channel_def)

theorem alerts_outcome_witness:
  "\<exists>err. wait_alerts ''admit'' 2 0 [example_channel ''bad'' ''https://bad'' True, example_channel ''ok'' ''https://ok'' False]
     [AlertErr None, AlertErr (Some ''failed to send notification for receiver bad: no such host'')] = Some (Some err)"
proof -
  let ?rs = "[example_channel ''bad'' ''https://bad'' True, example_channel ''ok'' ''https://ok'' False]"
  let ?xs = "[None, Some ''failed to send notification for receiver bad: no such host'']"
  have rs: "reports example_ext example_values ?rs = [Some ''failed to send notification for receiver bad: no such host'', None]"
    by (simp add: example_reports)
  have "\<forall>ch \<in> set ?rs. snd (Send example_ext ch False example_values) = None" by (simp add: example_reports)
  moreover have "mset ?xs = mset (reports example_ext example_values ?rs)" unfolding rs by (simp add: add_mset_commute)
  ultimately obtain r where "wait_alerts ''admit'' 2 0 ?rs (map AlertErr ?xs @ (if False then [AlertDone] else [])) = Some r"
    "r = None \<longleftrightarrow> length ?xs = length ?rs \<and>
       list_all (\<lambda>ch. Fail ch \<longrightarrow> Send_body example_ext ch example_values = Ret None) ?rs"
    using alerts_outcome[of ?rs example_ext example_values ?xs False "''admit''" 2] by auto
  then show ?thesis by (cases r) (simp_all add: example_sends)
qed

text \<open>
  The error of a failed alert names the receiver at the position of the report, not the
  channel that failed: when the second channel reports success before the first one fails, the
  second one is blamed.
\<close>
theorem alert_error_blames_wrong_receiver:
  assumes "Send ax a False opts = ([Some err], None)" and "Send ax b False opts = ([None], None)"
  shows "\<exists>xs. mset xs = mset (reports ax opts [a, b]) \<and>
    wait_alerts stream 2 0 [a, b] (map AlertErr xs) =
      Some (Some (''failed sending a notification for receiver '' @ ChannelName b @
                  '' with FailOnError set: '' @ err))"
  using assms by (intro exI[of _ "[None, Some err]"]) simp

theorem alert_error_blames_wrong_receiver_witness:
  "\<exists>evs err. wait_alerts ''admit'' 2 0 [example_channel ''bad'' ''https://bad'' True, example_channel ''ok'' ''https://ok'' True] evs =
      Some (Some (''failed sending a notification for receiver '' @ ''ok'' @ '' with FailOnError set: '' @ err))"
proof -
  have "Send example_ext (example_channel ''bad'' ''https://bad'' True) False example_values =
      ([Some ''failed to send notification for receiver bad: no such host''], None)"
    and "Send example_ext (example_channel ''ok'' ''https://ok'' True) False example_values = ([None], None)"
    by (simp_all add: example_reports)
  from alert_error_blames_wrong_receiver[OF this, of "''admit''"] show ?thesis by auto
qed

text \<open>
  C37 (safety). Template values cannot break out of the JSON document: let the template of a channel be an object whose
  members have plain keys and, inside quotes, plain text and fields of type string (all but \<open>Error\<close>, which
  the code does not escape, and \<open>Priority\<close>), with any white space. Then the
  generated message is the encoding of the object with exactly these members, each showing the values
  as they are (invalid UTF-8 replaced), and the payload fields of the channel, whatever quotes,
  backslashes or control characters images or messages contain.
\<close>
theorem template_values_stay_in_string:
  assumes "transformTemplate ax (TemplateFile ch) = Inr tmpl"
    and "parse_template (ax_action ax) tmpl = Inr (flat_template mbs tail)"
    and "list_all member_ok mbs" and "mbs \<noteq> []" and "white tail"
  shows "generateNotificationMessage ax ch nv = Ret
    (case ax_Marshal ax (Some (fold (\<lambda>(key, value). map_put key value) (PayloadFields ch)
        (fold (\<lambda>mb. map_put (mb_key mb) (JString (concat (map (shown nv) (mb_value mb))))) mbs []))) of
       Inl err \<Rightarrow> Inl (''failed to marshal rendered template for receiver '' @ ChannelName ch @ '': '' @ err)
     | Inr b \<Rightarrow> Inr b)"
proof -
  obtain out where out: "Execute (flat_template mbs tail) (JsonEscapeStruct nv) = Inr out" "out \<noteq> []" "out \<noteq> ''{}''"
    "Unmarshal_map out =
      Inr (Some (fold (\<lambda>mb. map_put (mb_key mb) (JString (concat (map (shown nv) (mb_value mb))))) mbs []))"
    using parse_rendered[OF assms(3-5)] by blast
  show ?thesis
    unfolding generateNotificationMessage_def assms(1,2) sum.case out(1,4)
    using out(2,3) by (simp add: templateWithPayloadFields_def)
qed

lemma example_template:
  "transformTemplate example_ext ''slack'' = Inr ([CHR ''{'', DQ, CHR ''t'', DQ, CHR '':'', DQ] @ ''{{ .AlertMessage }}'' @ [DQ, CHR ''}''])"
  "parse_template (ax_action example_ext) ([CHR ''{'', DQ, CHR ''t'', DQ, CHR '':'', DQ] @ ''{{ .AlertMessage }}'' @ [DQ, CHR ''}'']) =
     Inr (flat_template [\<lparr>mb_before = [], mb_key = ''t'', mb_colon_before = [], mb_colon_after = [],
       mb_value = [TField ''AlertMessage''], mb_after = []\<rparr>] [])"
proof -
  show "transformTemplate example_ext ''slack'' = Inr ([CHR ''{'', DQ, CHR ''t'', DQ, CHR '':'', DQ] @ ''{{ .AlertMessage }}'' @ [DQ, CHR ''}''])"
    by code_simp
qed (simp add: field_name_def TrimSpace_def is_space_def is_letter_def is_digit_def)

definition marshal_ext :: alert_ext where
  "marshal_ext = example_ext\<lparr>ax_Marshal := \<lambda>m. case m of Some [(k, JString v)] \<Rightarrow> Inr (k @ ''='' @ v) | _ \<Rightarrow> Inl ''other''\<rparr>"

theorem template_values_stay_in_string_witness:
  "generateNotificationMessage marshal_ext (example_channel ''c'' ''https://ok'' True)
     (example_values\<lparr>nv_AlertMessage := [CHR ''a'', DQ, CHR '','', BS]\<rparr>) = Ret (Inr (''t='' @ [CHR ''a'', DQ, CHR '','', BS]))"
proof -
  let ?mb = "\<lparr>mb_before = [], mb_key = ''t'', mb_colon_before = [], mb_colon_after = [],
       mb_value = [TField ''AlertMessage''], mb_after = []\<rparr>"
  let ?nv = "example_values\<lparr>nv_AlertMessage := [CHR ''a'', DQ, CHR '','', BS]\<rparr>"
  let ?ch = "example_channel ''c'' ''https://ok'' True"
  have t: "transformTemplate marshal_ext (TemplateFile ?ch) = transformTemplate example_ext ''slack''"
    "ax_action marshal_ext = ax_action example_ext"
    by (simp_all add: transformTemplate_def marshal_ext_def example_channel_def split: sum.split)
  have ok: "list_all member_ok [?mb]" "white []" by code_simp+
  have m: "fold (\<lambda>(key, value). map_put key value) (PayloadFields ?ch)
      (fold (\<lambda>mb. map_put (mb_key mb) (JString (concat (map (shown ?nv) (mb_value mb))))) [?mb] []) =
    [(''t'', JString [CHR ''a'', DQ, CHR '','', BS])]" by code_simp
  have j: "ax_Marshal marshal_ext (Some [(''t'', JString [CHR ''a'', DQ, CHR '','', BS])]) = Inr (''t='' @ [CHR ''a'', DQ, CHR '','', BS])"
    by (simp add: marshal_ext_def)
  have ne: "[?mb] \<noteq> []" by simp
  show ?thesis
    using template_values_stay_in_string[OF t(1)[unfolded example_template(1)] example_template(2)[folded t(2)] ok(1) ne ok(2), of ?nv]
    unfolding m j sum.case .
qed

end
