(* ===== verification/Mutate.thy ===== *)
theory Mutate
  imports Validation Alerting
begin

text \<open>
  Package \<open>internal/handler\<close>: the admission webhook (\<open>mutate.go\<close>), its counters
  (\<open>admission_metrics.go\<close>) and the health endpoint (\<open>health.go\<close>). The receive loop over the
  validation results is modelled by the sequence of events its \<open>select\<close> sees; the theory
  \<open>Admission_Run\<close> relates these events to the goroutines that produce them. Decoding the request
  body and encoding the response are parameters.
\<close>

section \<open>Definitions\<close>

subsection \<open>Admission types\<close>

text \<open>\<open>ars_Message\<close> is the message of the status \<open>Result\<close>, \<^const>\<open>None\<close> if that is nil.\<close>

record AdmissionResponse =
  ars_UID :: string
  ars_Allowed :: bool
  ars_Message :: "string option"
  ars_Patch :: "string option"
  ars_PatchType :: "string option"
  ars_Warnings :: "string list"

record AdmissionReview =
  rv_APIVersion :: string
  rv_Kind :: string
  rv_Request :: "AdmissionRequest option"

record ReviewResponse =
  rr_APIVersion :: string
  rr_Kind :: string
  rr_Response :: AdmissionResponse

subsection \<open>admission_metrics.go\<close>

record admission_counters =
  numAdmissionsReceived :: nat
  numAdmissionsAdmitted :: nat
  numAdmissionsDenied :: "bool \<Rightarrow> nat"

definition IncAdmissionsReceived :: "admission_counters \<Rightarrow> admission_counters" where
  "IncAdmissionsReceived m = m\<lparr>numAdmissionsReceived := Suc (numAdmissionsReceived m)\<rparr>"

definition IncAdmissionsAdmitted :: "admission_counters \<Rightarrow> admission_counters" where
  "IncAdmissionsAdmitted m = m\<lparr>numAdmissionsAdmitted := Suc (numAdmissionsAdmitted m)\<rparr>"

definition IncAdmissionsDenied :: "bool \<Rightarrow> admission_counters \<Rightarrow> admission_counters" where
  "IncAdmissionsDenied timeout m =
     m\<lparr>numAdmissionsDenied := (numAdmissionsDenied m)(timeout := Suc (numAdmissionsDenied m timeout))\<rparr>"

subsection \<open>mutateReview\<close>

text \<open>The loop that receives the validation results.\<close>

datatype recv_event = CtxDone | Recv ValidationOutput

datatype recv_result =
    Waiting | TimedOut nat | Failed ValidationOutput | Completed "ValidationOutput list"

fun receive_loop :: "nat \<Rightarrow> ValidationOutput list \<Rightarrow> recv_event list \<Rightarrow> recv_result" where
  "receive_loop cap results [] = (if length results < cap then Waiting else Completed results)"
| "receive_loop cap results (e # es) =
     (if length results < cap then
        (case e of
           CtxDone \<Rightarrow> TimedOut (length results)
         | Recv valOut \<Rightarrow>
             if out_Error valOut \<noteq> None then Failed valOut
             else receive_loop cap (results @ [valOut]) es)
      else Completed results)"

text \<open>The operation on one container and its text in the JSON patch.\<close>

definition format_patch :: "string \<Rightarrow> string \<Rightarrow> string" where
  "format_patch path value =
     ''{'' @ [DQ] @ ''op'' @ [DQ] @ '':'' @ [DQ] @ ''replace'' @ [DQ] @ '','' @ [DQ] @ ''path'' @ [DQ] @
     '':'' @ [DQ] @ path @ [DQ] @ '','' @ [DQ] @ ''value'' @ [DQ] @ '':'' @ [DQ] @ value @ [DQ] @ ''}''"

text \<open>The patches and raw images that one validation result contributes.\<close>

definition output_patches :: "WorkloadObject \<Rightarrow> ValidationOutput \<Rightarrow> (string \<times> string) list" where
  "output_patches wlo valOut =
     (if out_ValidationMode valOut = MutateMode \<and> out_NewImage valOut \<noteq> out_OldImage valOut
      then map (\<lambda>idxType.
             (format_patch (ContainerPathFormatString wlo (idx_Type idxType) (idx_Index idxType))
                (out_NewImage valOut),
              out_RawImage valOut))
           (out_IdxsTypes valOut)
      else [])"

definition admit_response ::
  "WorkloadObject \<Rightarrow> string \<Rightarrow> ValidationOutput list \<Rightarrow> NotificationValues \<Rightarrow>
     AdmissionResponse \<times> NotificationValues" where
  "admit_response wlo uid results nv =
     (let patches = concat (map (output_patches wlo) results);
          jsonPatches = map fst patches;
          images = map snd patches;
          skipped = list_all out_Skipped results
      in (\<lparr>ars_UID = uid, ars_Allowed = True, ars_Message = None,
           ars_Patch = (if jsonPatches \<noteq> [] then Some (''['' @ Join '','' jsonPatches @ '']'') else None),
           ars_PatchType = (if jsonPatches \<noteq> [] then Some ''JSONPatch'' else None),
           ars_Warnings = []\<rparr>,
          nv\<lparr>nv_Images := Join '', '' images,
             nv_Result := (if skipped then NotificationResultSkip else NotificationResultSuccess)\<rparr>))"

definition deny_response :: "string \<Rightarrow> string \<Rightarrow> AdmissionResponse" where
  "deny_response uid message =
     \<lparr>ars_UID = uid, ars_Allowed = False, ars_Message = Some message, ars_Patch = None,
      ars_PatchType = None, ars_Warnings = []\<rparr>"

definition init_values :: "string \<Rightarrow> AdmissionRequest \<Rightarrow> NotificationValues" where
  "init_values podName ar =
     \<lparr>nv_Result = [], nv_Error = None, nv_Images = [], nv_RequestId = ar_UID ar, nv_Priority = 0,
      nv_ConnaisseurPodId = podName, nv_Cluster = [], nv_Namespace = ar_Namespace ar,
      nv_Timestamp = [], nv_AlertMessage = []\<rparr>"

text \<open>
  What \<open>mutateReview\<close> returns once the loop has ended; \<^const>\<open>None\<close> while it waits for an event.
\<close>

definition conclude_review ::
  "AdmissionRequest \<Rightarrow> AdmissionRequestObjects \<Rightarrow> NotificationValues \<Rightarrow> nat \<Rightarrow> recv_result \<Rightarrow>
     (AdmissionResponse \<times> NotificationValues) option" where
  "conclude_review ar aro nv cap r =
     (case r of
        Waiting \<Rightarrow> None
      | TimedOut i \<Rightarrow>
          Some (deny_response (ar_UID ar) (''validation of admission request '' @ ar_UID ar @
                  '' timed out after validating '' @ decimal i @ ''/'' @ decimal cap @ '' images''),
                nv\<lparr>nv_Result := NotificationResultTimeout\<rparr>)
      | Failed valOut \<Rightarrow>
          Some (deny_response (ar_UID ar) (case out_Error valOut of Some e \<Rightarrow> e | None \<Rightarrow> []),
                nv\<lparr>nv_Result := NotificationResultError, nv_Error := out_Error valOut,
                   nv_Images := out_RawImage valOut\<rparr>)
      | Completed results \<Rightarrow> Some (admit_response (aro_NewObj aro) (ar_UID ar) results nv))"

definition mutateReview ::
  "'w Runtime \<Rightarrow> AdmissionRequest \<Rightarrow> recv_event list \<Rightarrow>
     (AdmissionResponse \<times> NotificationValues) option go" where
  "mutateReview rt ar events =
     (let nv = init_values (Getenv (rt_Env rt) ''POD_NAME'') ar
      in go_bind (NewAdmissionRequestObjects (rt_decode rt) ar) (\<lambda>r. Ret
           (case r of
              Inl err \<Rightarrow> Some (deny_response (ar_UID ar) err, nv\<lparr>nv_Result := NotificationResultInvalid\<rparr>)
            | Inr aro \<Rightarrow>
                if wlo_Deleted (aro_OldObj aro)
                then Some (\<lparr>ars_UID = ar_UID ar, ars_Allowed = True, ars_Message = None, ars_Patch = None,
                            ars_PatchType = None, ars_Warnings = []\<rparr>,
                           nv\<lparr>nv_Result := NotificationResultSuccess\<rparr>)
                else let cap = length (ValidateWorkloadObject rt (aro_NewObj aro) (aro_OldObj aro))
                     in conclude_review ar aro nv cap (receive_loop cap [] events))))"

subsection \<open>handleMutate\<close>

text \<open>A failed alert turns the response into a denial.\<close>

definition alert_failed :: "string option \<Rightarrow> AdmissionResponse \<Rightarrow> AdmissionResponse" where
  "alert_failed err resp =
     (case err of
        None \<Rightarrow> resp
      | Some e \<Rightarrow> resp\<lparr>ars_Allowed := False, ars_Message := Some ('' error sending notifications: '' @ e)\<rparr>)"

text \<open>
  Resource validation mode and detection mode. \<open>Response.Result.Message\<close> dereferences the status.
\<close>

definition resource_mode :: "env \<Rightarrow> string \<Rightarrow> AdmissionResponse \<Rightarrow> AdmissionResponse go" where
  "resource_mode e kind resp =
     (if kind \<noteq> ''Pod'' \<and> \<not> BlockAllResources e
      then let open = (\<lambda>resp. resp\<lparr>ars_Allowed := True, ars_Patch := None, ars_PatchType := None\<rparr>)
           in if ars_Allowed resp then Ret (open resp)
              else case ars_Message resp of
                     None \<Rightarrow> Panic ''nil pointer dereference''
                   | Some msg \<Rightarrow> Ret (open (resp\<lparr>ars_Warnings := [''pod-only validation active'', msg]\<rparr>))
      else Ret resp)"

definition detection_mode :: "env \<Rightarrow> AdmissionResponse \<Rightarrow> AdmissionResponse go" where
  "detection_mode e resp =
     (if FeatureFlagOn e DetectionMode \<and> \<not> ars_Allowed resp
      then (case ars_Message resp of
              None \<Rightarrow> Panic ''nil pointer dereference''
            | Some msg \<Rightarrow> Ret (resp\<lparr>ars_Warnings := [''detection mode active'', msg], ars_Allowed := True\<rparr>))
      else Ret resp)"

definition features :: "env \<Rightarrow> string \<Rightarrow> AdmissionResponse \<Rightarrow> AdmissionResponse go" where
  "features e kind resp = go_bind (resource_mode e kind resp) (detection_mode e)"

definition count_decision :: "bool \<Rightarrow> AdmissionResponse \<Rightarrow> admission_counters \<Rightarrow> admission_counters" where
  "count_decision cancelled resp m =
     (if ars_Allowed resp then IncAdmissionsAdmitted m else IncAdmissionsDenied cancelled m)"

record http_request =
  rq_Method :: string
  rq_ContentType :: string
  rq_Body :: "string res"

datatype http_response = HttpError string nat | HttpOK string

record codec =
  cd_Unmarshal :: "string \<Rightarrow> AdmissionReview res"
  cd_Marshal :: "ReviewResponse \<Rightarrow> string res"
  cd_GroupVersionKind :: "string \<Rightarrow> string \<Rightarrow> string \<times> string"

text \<open>
  From the review on: notification, features, counters, response. \<open>cancelled\<close> is the state of the
  context when a denial is counted; \<^const>\<open>None\<close> stands for waiting on validations or alerts.
\<close>

definition respond ::
  "'w Runtime \<Rightarrow> codec \<Rightarrow> AlertConfig \<Rightarrow> bool \<Rightarrow> AdmissionReview \<Rightarrow> AdmissionRequest \<Rightarrow> alert_event list \<Rightarrow>
     AdmissionResponse \<times> NotificationValues \<Rightarrow> admission_counters \<Rightarrow>
     (http_response \<times> admission_counters \<times> AlertConfig) option go" where
  "respond rt cd alerting cancelled ar request aevents review m =
     go_bind (EvalAndSendNotifications alerting (snd review) aevents) (\<lambda>(alerting, started, result).
       case result of
         None \<Rightarrow> Ret None
       | Some err \<Rightarrow>
           go_bind (features (rt_Env rt) (gvk_Kind (ar_Kind request)) (alert_failed err (fst review)))
             (\<lambda>resp.
               let m = count_decision cancelled resp m;
                   (apiVersion, kind) = cd_GroupVersionKind cd (rv_APIVersion ar) (rv_Kind ar)
               in Ret (Some (case cd_Marshal cd \<lparr>rr_APIVersion = apiVersion, rr_Kind = kind, rr_Response = resp\<rparr> of
                               Inl e \<Rightarrow> HttpError (''error marshalling response: '' @ e) 500
                             | Inr respBytes \<Rightarrow> HttpOK respBytes, m, alerting))))"

definition handleMutate ::
  "'w Runtime \<Rightarrow> codec \<Rightarrow> AlertConfig \<Rightarrow> bool \<Rightarrow> http_request \<Rightarrow> recv_event list \<Rightarrow> alert_event list \<Rightarrow>
     admission_counters \<Rightarrow> (http_response \<times> admission_counters \<times> AlertConfig) option go" where
  "handleMutate rt cd alerting cancelled r events aevents m =
     (let handleError = (\<lambda>msg code. Ret (Some (HttpError msg code, m, alerting)))
      in if rq_Method r \<noteq> ''POST'' then handleError (''Method not allowed.: '' @ rq_Method r) 405
         else if rq_ContentType r \<noteq> ''application/json''
         then handleError (''wrong content type: expected json, got '' @ rq_ContentType r) 400
         else (case rq_Body r of
             Inl err \<Rightarrow> handleError (''error reading request body: '' @ err) 500
           | Inr body \<Rightarrow>
         (case cd_Unmarshal cd body of
             Inl err \<Rightarrow> handleError (''received invalid json: '' @ err) 400
           | Inr ar \<Rightarrow>
         (case rv_Request ar of
             None \<Rightarrow> handleError ''received empty admission request'' 400
           | Some request \<Rightarrow>
               go_bind (mutateReview rt request events) (\<lambda>review. case review of
                 None \<Rightarrow> Ret None
               | Some review \<Rightarrow> respond rt cd alerting cancelled ar request aevents review m)))))"

definition HandleMutate ::
  "'w Runtime \<Rightarrow> codec \<Rightarrow> AlertConfig \<Rightarrow> bool \<Rightarrow> http_request \<Rightarrow> recv_event list \<Rightarrow> alert_event list \<Rightarrow>
     admission_counters \<Rightarrow> (http_response \<times> admission_counters \<times> AlertConfig) option go" where
  "HandleMutate rt cd alerting cancelled r events aevents m =
     handleMutate rt cd alerting cancelled r events aevents (IncAdmissionsReceived m)"

subsection \<open>health.go\<close>

definition HandleHealth :: "http_request \<Rightarrow> http_response" where
  "HandleHealth r = (if rq_Method r = ''GET'' then HttpOK [] else HttpError ''Method not allowed.'' 405)"

section \<open>Lemmas\<close>

subsection \<open>The receive loop\<close>

abbreviation no_error :: "ValidationOutput \<Rightarrow> bool" where
  "no_error out \<equiv> out_Error out = None"

lemma receive_loop_Completed:
  "length results \<le> cap \<Longrightarrow> receive_loop cap results es = Completed rs \<longleftrightarrow>
   (\<exists>outs rest. es = map Recv outs @ rest \<and> rs = results @ outs \<and> length rs = cap \<and> list_all no_error outs)"
proof (induction cap results es rule: receive_loop.induct)
  case (1 cap results)
  then show ?case by auto
next
  case (2 cap results e es)
  show ?case
  proof (cases "length results < cap")
    case False
    with "2.prems" have full: "length results = cap" by simp
    have "(\<exists>outs rest. e # es = map Recv outs @ rest \<and> rs = results @ outs \<and> length rs = cap \<and> list_all no_error outs)
        \<longleftrightarrow> rs = results" using full by auto
    then show ?thesis using False by auto
  next
    case True
    show ?thesis
    proof (cases e)
      case CtxDone
      have "\<not> (\<exists>outs rest. e # es = map Recv outs @ rest \<and> rs = results @ outs \<and> length rs = cap \<and> list_all no_error outs)"
        using CtxDone True by (auto simp: Cons_eq_append_conv)
      then show ?thesis using CtxDone True by simp
    next
      case (Recv v)
      have split: "(\<exists>outs rest. e # es = map Recv outs @ rest \<and> rs = results @ outs \<and> length rs = cap \<and> list_all no_error outs) \<longleftrightarrow>
          no_error v \<and> (\<exists>outs rest. es = map Recv outs @ rest \<and> rs = (results @ [v]) @ outs \<and> length rs = cap \<and> list_all no_error outs)"
      proof (safe, goal_cases)
        case (1 outs rest)
        then show ?case using True Recv by (cases outs) auto
      next
        case (2 outs rest)
        then show ?case using True Recv by (cases outs) auto
      next
        case (3 outs rest)
        then show ?case using Recv by (intro exI[of _ "v # outs"] exI[of _ rest]) auto
      qed
      show ?thesis
      proof (cases "no_error v")
        case ok: True
        then show ?thesis using "2.IH"[OF True Recv] "2.prems" True Recv unfolding split by simp
      next
        case False
        then show ?thesis using True Recv unfolding split by simp
      qed
    qed
  qed
qed

lemma receive_loop_Failed:
  "receive_loop cap results es = Failed v \<Longrightarrow> out_Error v \<noteq> None \<and> Recv v \<in> set es"
  by (induction cap results es rule: receive_loop.induct)
    (auto split: if_split_asm recv_event.split_asm)

lemma mutateReview_cases:
  assumes "NewAdmissionRequestObjects (rt_decode rt) ar = Ret (Inr aro)" and "\<not> wlo_Deleted (aro_OldObj aro)"
  shows "mutateReview rt ar events =
    Ret (conclude_review ar aro (init_values (Getenv (rt_Env rt) ''POD_NAME'') ar)
          (length (ValidateWorkloadObject rt (aro_NewObj aro) (aro_OldObj aro)))
          (receive_loop (length (ValidateWorkloadObject rt (aro_NewObj aro) (aro_OldObj aro))) [] events))"
  using assms by (simp add: mutateReview_def Let_def)

subsection \<open>Responses\<close>

text \<open>
  What every response of \<open>mutateReview\<close> satisfies: a denial has a message, and the values for the
  notification have a known result, with an error where the result says so.
\<close>

definition response_ok :: "AdmissionResponse \<Rightarrow> bool" where
  "response_ok resp \<longleftrightarrow> ars_Allowed resp \<or> ars_Message resp \<noteq> None"

definition values_ok :: "NotificationValues \<Rightarrow> bool" where
  "values_ok nv \<longleftrightarrow> nv_Result nv \<in> {NotificationResultSuccess, NotificationResultSkip, NotificationResultError,
      NotificationResultTimeout, NotificationResultInvalid} \<and>
     (nv_Result nv = NotificationResultError \<longrightarrow> nv_Error nv \<noteq> None)"

lemma deny_response_ok [simp]: "response_ok (deny_response uid msg)" "\<not> ars_Allowed (deny_response uid msg)"
  by (simp_all add: response_ok_def deny_response_def)

lemma admit_response_ok [simp]:
  "response_ok (fst (admit_response wlo uid results nv))" "values_ok (snd (admit_response wlo uid results nv))"
  "ars_Allowed (fst (admit_response wlo uid results nv))"
  by (simp_all add: response_ok_def values_ok_def admit_response_def Let_def)

lemma conclude_review_ok:
  assumes "conclude_review ar aro nv cap (receive_loop cap [] events) = Some (resp, v)"
  shows "response_ok resp \<and> values_ok v"
proof (cases "receive_loop cap [] events")
  case (Failed out)
  with receive_loop_Failed[OF Failed] assms show ?thesis
    by (auto simp: conclude_review_def values_ok_def)
next
  case (Completed results)
  with assms have "(resp, v) = admit_response (aro_NewObj aro) (ar_UID ar) results nv"
    by (simp add: conclude_review_def)
  then show ?thesis using admit_response_ok by (metis fst_conv snd_conv)
qed (use assms in \<open>auto simp: conclude_review_def values_ok_def\<close>)

lemma mutateReview_ok:
  assumes "mutateReview rt ar events = Ret (Some (resp, v))"
  shows "response_ok resp \<and> values_ok v"
proof -
  obtain r where r: "NewAdmissionRequestObjects (rt_decode rt) ar = Ret r"
    using assms unfolding mutateReview_def Let_def by auto
  show ?thesis
  proof (cases r)
    case (Inl e)
    then show ?thesis using assms r by (auto simp: mutateReview_def Let_def values_ok_def)
  next
    case (Inr aro)
    show ?thesis
    proof (cases "wlo_Deleted (aro_OldObj aro)")
      case True
      then show ?thesis using assms r Inr by (auto simp: mutateReview_def Let_def values_ok_def response_ok_def)
    next
      case False
      then show ?thesis using assms r Inr conclude_review_ok by (simp add: mutateReview_cases)
    qed
  qed
qed

lemma mutateReview_panics:
  "panics (mutateReview rt ar events) \<longleftrightarrow> panics (NewAdmissionRequestObjects (rt_decode rt) ar)"
  by (simp add: mutateReview_def Let_def)

lemma select_receivers_values_ok:
  assumes "values_ok nv"
  shows "\<exists>rcvs stream nv'. select_receivers a nv = Ret (Inr (rcvs, stream, nv')) \<and>
    (rcvs, stream) = (if nv_Result nv \<in> {NotificationResultSuccess, NotificationResultSkip}
                      then (AdmitRequests a, ''admit'') else (RejectRequests a, ''reject''))"
  using assms unfolding values_ok_def select_receivers_def by auto

lemma EvalAndSend_returns:
  assumes "values_ok nv"
  shows "\<exists>a st x. EvalAndSendNotifications alerting nv aevents = Ret (a, st, x)"
proof -
  let ?a = "if ClusterId alerting = [] then alerting\<lparr>ClusterId := ''not specified''\<rparr> else alerting"
  let ?nv = "nv\<lparr>nv_Cluster := ClusterId ?a\<rparr>"
  have "values_ok ?nv" using assms by (simp add: values_ok_def)
  from select_receivers_values_ok[OF this, of ?a] obtain rcvs stream nv'
    where s: "select_receivers ?a ?nv = Ret (Inr (rcvs, stream, nv'))" by blast
  show ?thesis unfolding EvalAndSendNotifications_def Let_def s by simp
qed

subsection \<open>Features\<close>

lemma alert_failed_ok: "response_ok resp \<Longrightarrow> response_ok (alert_failed err resp)"
  by (cases err) (simp_all add: alert_failed_def response_ok_def)

lemma resource_mode_ok:
  "response_ok resp \<Longrightarrow> \<exists>resp'. resource_mode e kind resp = Ret resp' \<and> response_ok resp' \<and>
     (ars_Allowed resp' \<longleftrightarrow> ars_Allowed resp \<or> kind \<noteq> ''Pod'' \<and> \<not> BlockAllResources e) \<and>
     ars_UID resp' = ars_UID resp"
  by (auto simp: response_ok_def resource_mode_def Let_def)

lemma detection_mode_ok:
  "response_ok resp \<Longrightarrow> \<exists>resp'. detection_mode e resp = Ret resp' \<and>
     (ars_Allowed resp' \<longleftrightarrow> ars_Allowed resp \<or> FeatureFlagOn e DetectionMode) \<and> ars_UID resp' = ars_UID resp"
  by (auto simp: response_ok_def detection_mode_def)

lemma features_ok:
  assumes "response_ok resp"
  shows "\<exists>resp'. features e kind resp = Ret resp' \<and>
     (ars_Allowed resp' \<longleftrightarrow> ars_Allowed resp \<or> kind \<noteq> ''Pod'' \<and> \<not> BlockAllResources e \<or> FeatureFlagOn e DetectionMode) \<and>
     ars_UID resp' = ars_UID resp"
proof -
  obtain r1 where r1: "resource_mode e kind resp = Ret r1" "response_ok r1"
    "ars_Allowed r1 \<longleftrightarrow> ars_Allowed resp \<or> kind \<noteq> ''Pod'' \<and> \<not> BlockAllResources e" "ars_UID r1 = ars_UID resp"
    using resource_mode_ok[OF assms] by blast
  from detection_mode_ok[OF r1(2)] r1 show ?thesis by (auto simp: features_def)
qed

subsection \<open>The JSON patch\<close>

definition op_json :: "string \<times> string \<Rightarrow> json" where
  "op_json pv = JObject [(''op'', JString ''replace''), (''path'', JString (fst pv)), (''value'', JString (snd pv))]"

text \<open>The operations that the validation results ask for: container path and new image.\<close>

definition output_ops :: "WorkloadObject \<Rightarrow> ValidationOutput \<Rightarrow> (string \<times> string) list" where
  "output_ops wlo out =
     (if out_ValidationMode out = MutateMode \<and> out_NewImage out \<noteq> out_OldImage out
      then map (\<lambda>i. (ContainerPathFormatString wlo (idx_Type i) (idx_Index i), out_NewImage out))
             (out_IdxsTypes out)
      else [])"

abbreviation plain_text :: "string \<Rightarrow> bool" where
  "plain_text s \<equiv> list_all plain_char s"

lemma unquote_plain_text: "plain_text s \<Longrightarrow> unquote (s @ t) = prepend s (unquote t)"
  by (induction s) (auto simp: unquote_plain plain_char_def)

lemma unquote_literals:
  "unquote (CHR ''o'' # CHR ''p'' # DQ # t) = Some (''op'', t)"
  "unquote (CHR ''r'' # CHR ''e'' # CHR ''p'' # CHR ''l'' # CHR ''a'' # CHR ''c'' # CHR ''e'' # DQ # t) = Some (''replace'', t)"
  "unquote (CHR ''p'' # CHR ''a'' # CHR ''t'' # CHR ''h'' # DQ # t) = Some (''path'', t)"
  "unquote (CHR ''v'' # CHR ''a'' # CHR ''l'' # CHR ''u'' # CHR ''e'' # DQ # t) = Some (''value'', t)"
  by (simp_all add: unquote_plain)

lemma unquote_plain_DQ: "plain_text s \<Longrightarrow> unquote (s @ DQ # t) = Some (s, t)"
  by (simp add: unquote_plain_text)

lemma parse_format_patch:
  assumes "plain_text path" "plain_text v" "d < 10000"
  shows "parse_value (Suc (Suc (Suc (Suc (Suc n))))) d (format_patch path v @ t) = Some (op_json (path, v), t)"
  using assms by (simp add: format_patch_def op_json_def unquote_literals unquote_plain_DQ)

lemma Join_Cons_append:
  "Join sep (x # xs) @ t = x @ (if xs = [] then t else sep @ Join sep xs @ t)"
  by (cases xs) auto

lemma parse_patch_elements:
  assumes "ops \<noteq> []" "list_all (\<lambda>(path, v). plain_text path \<and> plain_text v) ops" "d < 10000"
  shows "parse_elements (length ops + 5 + n) d (Join '','' (map (\<lambda>(path, v). format_patch path v) ops) @ CHR '']'' # t) =
    Some (map op_json ops, t)"
  using assms(1,2)
proof (induction ops)
  case (Cons op ops)
  obtain path v where op: "op = (path, v)" by force
  let ?rest = "if ops = [] then CHR '']'' # t
    else '','' @ Join '','' (map (\<lambda>(path, v). format_patch path v) ops) @ CHR '']'' # t"
  obtain k where k: "k = length ops + 5 + n" by simp
  then have fuel: "length (op # ops) + 5 + n = Suc k" by simp
  have five: "k = Suc (Suc (Suc (Suc (Suc (length ops + n)))))" using k by simp
  have val: "parse_value k d (format_patch path v @ ?rest) = Some (op_json (path, v), ?rest)"
    unfolding five using Cons.prems(2) op assms(3) by (intro parse_format_patch) auto
  have joined: "Join '','' (map (\<lambda>(path, v). format_patch path v) (op # ops)) @ CHR '']'' # t = format_patch path v @ ?rest"
    by (simp add: op Join_Cons_append)
  have IH: "ops \<noteq> [] \<Longrightarrow> parse_elements k d
      (Join '','' (map (\<lambda>(path, v). format_patch path v) ops) @ CHR '']'' # t) = Some (map op_json ops, t)"
    using Cons k by simp
  show ?case
    unfolding fuel joined parse_elements.simps(2) val using IH op by simp
qed simp

lemma length_format_patch: "1 \<le> length (format_patch path v)"
  by (simp add: format_patch_def)

lemma length_Join_patches:
  "length ops \<le> length (Join '','' (map (\<lambda>(path, v). format_patch path v) ops))"
proof (induction ops)
  case (Cons op ops)
  then show ?case by (cases op; cases ops) (auto simp: format_patch_def Join_Cons)
qed simp

lemma parse_value_array:
  "parse_elements n (Suc d) (CHR ''{'' # u) = Some (vs, r) \<Longrightarrow> d < 10000 \<Longrightarrow>
   parse_value (Suc n) d (CHR ''['' # CHR ''{'' # u) = Some (JArray vs, r)"
  by simp

lemma parse_json_patch:
  assumes "ops \<noteq> []" "list_all (\<lambda>(path, v). plain_text path \<and> plain_text v) ops"
  shows "parse_json (''['' @ Join '','' (map (\<lambda>(path, v). format_patch path v) ops) @ '']'') = Some (JArray (map op_json ops))"
proof -
  let ?j = "Join '','' (map (\<lambda>(path, v). format_patch path v) ops)"
  let ?text = "''['' @ ?j @ '']''"
  obtain path v ops' where ops: "ops = (path, v) # ops'" using assms(1) by (cases ops) auto
  have start: "\<exists>u. ?j @ '']'' = CHR ''{'' # u"
    unfolding ops by (simp add: Join_Cons_append format_patch_def)
  then obtain u where u: "?j @ '']'' = CHR ''{'' # u" by blast
  obtain k where k: "k = 2 * length ?text + 1" by simp
  have "length ops + 5 \<le> k"
  proof -
    have "length ops \<le> length ?j" by (rule length_Join_patches)
    moreover have "1 \<le> length ?j" using u by (cases ?j) auto
    ultimately show ?thesis unfolding k by simp
  qed
  then have kf: "length ops + 5 + (k - (length ops + 5)) = k" by simp
  have el: "parse_elements k (Suc 0) (CHR ''{'' # u) = Some (map op_json ops, [])"
    using parse_patch_elements[OF assms, of "Suc 0" "k - (length ops + 5)" "[]"] u unfolding kf by simp
  have fuel: "2 * length ?text + 2 = Suc k" unfolding k by simp
  have "?text = CHR ''['' # CHR ''{'' # u" using u by simp
  with parse_value_array[OF el]
  have "parse_value (2 * length ?text + 2) 0 ?text = Some (JArray (map op_json ops), [])"
    unfolding fuel by simp
  then show ?thesis unfolding parse_json_def by simp
qed

text \<open>An operation whose image has a quote is read back as another one, if at all.\<close>

lemma parse_low_fuel:
  assumes "plain_text path" and "n < 5"
  shows "parse_value n d (format_patch path v @ t) = None"
proof -
  consider "n = 0" | "n = Suc 0" | "n = Suc (Suc 0)" | "n = Suc (Suc (Suc 0))" | "n = Suc (Suc (Suc (Suc 0)))"
    using assms(2) by linarith
  then show ?thesis
    by cases (simp_all add: format_patch_def unquote_literals unquote_plain_DQ[OF assms(1)])
qed

lemma parse_quoted_value:
  assumes "plain_text path" "plain_text a"
    and "parse_value n d (format_patch path (a @ DQ # b) @ t) = Some (x, r)"
  shows "x \<noteq> op_json (path, a @ DQ # b)"
proof -
  have "\<not> n < 5" using parse_low_fuel[OF assms(1)] assms(3) by (metis option.distinct(1))
  then have "n = Suc (Suc (Suc (Suc (Suc (n - 5)))))" by linarith
  then obtain m where n: "n = Suc (Suc (Suc (Suc (Suc m))))" by blast
  note parsed = assms(3)[unfolded n]
  have "d < 10000" using parsed by (cases "d < 10000") (simp_all add: format_patch_def)
  let ?close = "\<lambda>c q. if c = CHR '','' then map_option (\<lambda>(ms, x). ((''value'', JString a) # ms, x))
      (parse_members (Suc m) (Suc d) q)
    else if c = CHR ''}'' then Some ([(''value'', JString a)], q) else None"
  have eq: "parse_value (Suc (Suc (Suc (Suc (Suc m))))) d (format_patch path (a @ DQ # b) @ t) =
      map_option (\<lambda>(ms, r). (JObject ms, r)) (map_option (\<lambda>(ms, x). ((''op'', JString ''replace'') # ms, x))
        (map_option (\<lambda>(ms, x). ((''path'', JString path) # ms, x))
          (case skip_ws (b @ DQ # CHR ''}'' # t) of [] \<Rightarrow> None | c # q \<Rightarrow> ?close c q)))"
    using \<open>d < 10000\<close> assms(1,2) by (simp add: format_patch_def unquote_literals unquote_plain_DQ)
  from parsed[unfolded eq] obtain ms r' where close: "(case skip_ws (b @ DQ # CHR ''}'' # t) of [] \<Rightarrow> None | c # q \<Rightarrow> ?close c q) = Some (ms, r')"
    and x: "x = JObject ((''op'', JString ''replace'') # (''path'', JString path) # ms)" by auto
  have "\<exists>ms'. ms = (''value'', JString a) # ms'"
    using close by (auto split: list.split_asm if_split_asm)
  with x show ?thesis by (auto simp: op_json_def)
qed

lemma parse_plain_value:
  assumes "plain_text path" "plain_text v" and "parse_value n d (format_patch path v @ t) = Some (x, r)"
  shows "r = t"
proof -
  have "\<not> n < 5" using parse_low_fuel[OF assms(1)] assms(3) by (metis option.distinct(1))
  then have "n = Suc (Suc (Suc (Suc (Suc (n - 5)))))" by linarith
  then obtain m where n: "n = Suc (Suc (Suc (Suc (Suc m))))" by blast
  note parsed = assms(3)[unfolded n]
  show ?thesis
  proof (cases "d < 10000")
    case True
    from parsed[unfolded parse_format_patch[OF assms(1,2) True]] show ?thesis by simp
  next
    case False
    then show ?thesis using parsed by (simp add: format_patch_def)
  qed
qed

definition quotable :: "string \<Rightarrow> bool" where
  "quotable v \<longleftrightarrow> list_all (\<lambda>c. plain_char c \<or> c = DQ) v"

lemma quotable_split:
  assumes "quotable v" "DQ \<in> set v"
  obtains a b where "v = a @ DQ # b" "plain_text a"
proof -
  obtain a b where v: "v = a @ DQ # b" "DQ \<notin> set a" using split_list_first[OF assms(2)] by blast
  then have "plain_text a" using assms(1) by (auto simp: quotable_def list_all_iff)
  with v that show ?thesis by blast
qed

lemma parse_quoted_elements:
  assumes "list_all (\<lambda>(path, v). plain_text path \<and> quotable v) ops" and "\<exists>op \<in> set ops. DQ \<in> set (snd op)"
    and "parse_elements n d (Join '','' (map (\<lambda>(path, v). format_patch path v) ops) @ CHR '']'' # t) = Some (vs, r)"
  shows "vs \<noteq> map op_json ops"
  using assms
proof (induction ops arbitrary: n vs)
  case (Cons op ops)
  obtain path v where op: "op = (path, v)" by force
  have p: "plain_text path" "quotable v" using Cons.prems(1) op by auto
  let ?rest = "if ops = [] then CHR '']'' # t
    else '','' @ Join '','' (map (\<lambda>(path, v). format_patch path v) ops) @ CHR '']'' # t"
  obtain m where n: "n = Suc m" using Cons.prems(3) by (cases n) auto
  have joined: "Join '','' (map (\<lambda>(path, v). format_patch path v) (op # ops)) @ CHR '']'' # t = format_patch path v @ ?rest"
    by (simp add: op Join_Cons_append)
  note parsed = Cons.prems(3)[unfolded joined n parse_elements.simps(2)]
  obtain x r1 where x: "parse_value m d (format_patch path v @ ?rest) = Some (x, r1)"
    using parsed by (cases "parse_value m d (format_patch path v @ ?rest)") auto
  obtain vs' where vs: "vs = x # vs'"
    using parsed unfolding x by (auto split: list.split_asm if_split_asm)
  show ?case
  proof (cases "DQ \<in> set v")
    case True
    obtain a b where ab: "v = a @ DQ # b" "plain_text a" using quotable_split[OF p(2) True] .
    from parse_quoted_value[OF p(1) ab(2) x[unfolded ab(1)]] vs op ab(1) show ?thesis by simp
  next
    case False
    then have "plain_text v" using p(2) by (auto simp: quotable_def list_all_iff)
    then have r1: "r1 = ?rest" using parse_plain_value[OF p(1) _ x] by simp
    have "\<exists>op \<in> set ops. DQ \<in> set (snd op)" using Cons.prems(2) False op by auto
    then have ops: "ops \<noteq> []" by auto
    have "parse_elements m d (Join '','' (map (\<lambda>(path, v). format_patch path v) ops) @ CHR '']'' # t) = Some (vs', r)"
      using parsed ops vs unfolding x r1 by (auto split: option.split_asm)
    with Cons.IH Cons.prems(1) \<open>\<exists>op \<in> set ops. DQ \<in> set (snd op)\<close> vs show ?thesis by auto
  qed
qed simp

lemma parse_json_quoted_patch:
  assumes "list_all (\<lambda>(path, v). plain_text path \<and> quotable v) ops" and "\<exists>op \<in> set ops. DQ \<in> set (snd op)"
  shows "parse_json (''['' @ Join '','' (map (\<lambda>(path, v). format_patch path v) ops) @ '']'') \<noteq> Some (JArray (map op_json ops))"
proof
  let ?j = "Join '','' (map (\<lambda>(path, v). format_patch path v) ops)"
  obtain op ops' where ops: "ops = op # ops'" using assms(2) by (cases ops) auto
  obtain u where u: "?j @ '']'' = CHR ''{'' # u"
    unfolding ops by (cases op) (simp add: Join_Cons_append format_patch_def)
  let ?text = "CHR ''['' # CHR ''{'' # u"
  assume "parse_json (''['' @ ?j @ '']'') = Some (JArray (map op_json ops))"
  then have "parse_json ?text = Some (JArray (map op_json ops))" using u by simp
  then obtain r where "parse_value (Suc (2 * length ?text + 1)) 0 ?text = Some (JArray (map op_json ops), r)"
    unfolding parse_json_def by (auto split: option.split_asm if_split_asm)
  then obtain n r where "parse_elements n 1 (CHR ''{'' # u) = Some (map op_json ops, r)"
    by (auto simp del: parse_elements.simps parse_members.simps)
  with parse_quoted_elements[OF assms, of n 1 "[]"] u show False by auto
qed

lemma digit_char_plain: "d < 10 \<Longrightarrow> plain_char (digit_char d)"
proof -
  assume d: "d < 10"
  then have b: "byte (digit_char d) = 48 + d" by simp
  have "digit_char d \<noteq> DQ" "digit_char d \<noteq> BS"
    using b d by (auto dest: arg_cong[of _ _ byte])
  then show ?thesis using d b by (simp add: plain_char_def)
qed

lemma decimal_plain: "plain_text (decimal n)"
proof (induction n rule: decimal.induct)
  case (1 n)
  then show ?case by (subst decimal.simps) (auto intro: digit_char_plain)
qed

lemma ContainerPath_plain: "plain_text ctype \<Longrightarrow> plain_text (ContainerPathFormatString wlo ctype i)"
  by (simp add: ContainerPathFormatString_def Let_def decimal_plain plain_char_def)

lemma output_patches_ops:
  "map fst (output_patches wlo out) = map (\<lambda>(path, v). format_patch path v) (output_ops wlo out)"
  by (simp add: output_patches_def output_ops_def)

lemma admit_response_patch:
  "ars_Patch (fst (admit_response wlo uid results nv)) =
     (let ops = concat (map (output_ops wlo) results)
      in if ops = [] then None
         else Some (''['' @ Join '','' (map (\<lambda>(path, v). format_patch path v) ops) @ '']''))"
proof -
  have eq: "map fst (concat (map (output_patches wlo) results)) =
      map (\<lambda>(path, v). format_patch path v) (concat (map (output_ops wlo) results))"
    by (simp add: map_concat comp_def output_patches_ops)
  then have ne: "concat (map (output_patches wlo) results) = [] \<longleftrightarrow> concat (map (output_ops wlo) results) = []"
    by (metis list.map_disc_iff)
  show ?thesis unfolding admit_response_def Let_def using eq ne by simp
qed

lemma image_at_type:
  "image_at wlo p = Some img \<Longrightarrow> idx_Type p \<in> {''containers'', ''initContainers'', ''ephemeralContainers''}"
  unfolding image_at_def container_list_def Let_def by (auto split: if_split_asm)

lemma container_path_inject:
  assumes "image_at wlo p = Some img" "image_at wlo q = Some img'"
    and "ContainerPathFormatString wlo (idx_Type p) (idx_Index p) = ContainerPathFormatString wlo (idx_Type q) (idx_Index q)"
  shows "p = q"
proof -
  have "CHR ''/'' \<notin> set (idx_Type p)" "CHR ''/'' \<notin> set (idx_Type q)"
    using image_at_type[OF assms(1)] image_at_type[OF assms(2)] by auto
  from ContainerPath_eqD[OF this assms(3)] show ?thesis by (cases p; cases q) simp
qed

text \<open>Outputs that belong, one to one, to the goroutines of a workload object.\<close>

definition outputs_of :: "'w Runtime \<Rightarrow> WorkloadObject \<Rightarrow> WorkloadObject \<Rightarrow> ValidationOutput list \<Rightarrow> bool" where
  "outputs_of rt new old outs \<longleftrightarrow>
     mset (map (\<lambda>out. (out_RawImage out, out_IdxsTypes out)) outs) =
     mset (map (\<lambda>input. (in_Image input, in_IdxsTypes input)) (ValidateWorkloadObject rt new old))"

lemma outputs_of_entry:
  assumes "outputs_of rt new old outs" "out \<in> set outs"
  shows "out_IdxsTypes out = positions new (out_RawImage out)" "out_RawImage out \<in> images_of new"
proof -
  have "(out_RawImage out, out_IdxsTypes out) \<in> set (map (\<lambda>out. (out_RawImage out, out_IdxsTypes out)) outs)"
    using assms(2) by simp
  then have "(out_RawImage out, out_IdxsTypes out) \<in>
      set (map (\<lambda>input. (in_Image input, in_IdxsTypes input)) (ValidateWorkloadObject rt new old))"
    unfolding mset_eq_setD[OF assms(1)[unfolded outputs_of_def]] .
  then have e: "(out_RawImage out, out_IdxsTypes out) \<in> set (ConsolidatedContainers new)"
    unfolding ValidateWorkloadObject_def Let_def by auto
  then have "map_of (ConsolidatedContainers new) (out_RawImage out) = Some (out_IdxsTypes out)"
    by (simp add: map_of_eq_Some_iff ConsolidatedContainers_distinct)
  then show "out_IdxsTypes out = positions new (out_RawImage out)"
    by (simp add: ConsolidatedContainers_lookup split: if_split_asm)
  show "out_RawImage out \<in> images_of new"
    using e ConsolidatedContainers_keys[of new] by force
qed

lemma outputs_of_raw_images:
  assumes "outputs_of rt new old outs"
  shows "distinct (map out_RawImage outs)" "out_RawImage ` set outs = images_of new"
proof -
  have "mset (map fst (map (\<lambda>out. (out_RawImage out, out_IdxsTypes out)) outs)) =
      mset (map fst (map (\<lambda>input. (in_Image input, in_IdxsTypes input)) (ValidateWorkloadObject rt new old)))"
    using arg_cong[OF assms[unfolded outputs_of_def], of "image_mset fst"] by (simp only: mset_map)
  then have m: "mset (map out_RawImage outs) = mset (map in_Image (ValidateWorkloadObject rt new old))"
    by (simp add: comp_def)
  note c = ValidateWorkloadObject_images[of rt new old]
  show "distinct (map out_RawImage outs)" using mset_eq_imp_distinct_iff[OF m] c(1) by simp
  show "out_RawImage ` set outs = images_of new" using mset_eq_setD[OF m] c(2) by simp
qed

lemma output_ops_mem:
  "(path, v) \<in> set (output_ops wlo out) \<longleftrightarrow>
   out_ValidationMode out = MutateMode \<and> out_NewImage out \<noteq> out_OldImage out \<and> v = out_NewImage out \<and>
   (\<exists>i \<in> set (out_IdxsTypes out). path = ContainerPathFormatString wlo (idx_Type i) (idx_Index i))"
  unfolding output_ops_def by auto

lemma output_ops_distinct:
  assumes "outputs_of rt new old outs" "out \<in> set outs"
  shows "distinct (map fst (output_ops new out))"
proof -
  have "distinct (out_IdxsTypes out)" "\<forall>i \<in> set (out_IdxsTypes out). image_at new i = Some (out_RawImage out)"
    using outputs_of_entry(1)[OF assms] positions_distinct positions_set by auto
  then have "distinct (map (\<lambda>i. ContainerPathFormatString new (idx_Type i) (idx_Index i)) (out_IdxsTypes out))"
    by (auto simp: distinct_map inj_on_def intro: container_path_inject)
  then show ?thesis by (simp add: output_ops_def comp_def)
qed

lemma ops_distinct:
  assumes "outputs_of rt new old outs"
  shows "distinct (map fst (concat (map (output_ops new) outs)))"
proof -
  have "distinct (map fst (concat (map (output_ops new) os)))"
    if "distinct (map out_RawImage os)" "set os \<subseteq> set outs" for os
    using that
  proof (induction os)
    case (Cons out os)
    have "fst ` set (output_ops new out) \<inter> fst ` set (concat (map (output_ops new) os)) = {}"
    proof (rule ccontr)
      assume "\<not> ?thesis"
      then obtain path v v' where 1: "(path, v) \<in> set (output_ops new out)"
        and 2: "(path, v') \<in> set (concat (map (output_ops new) os))" by force
      from 2 obtain out' where o': "out' \<in> set os" "(path, v') \<in> set (output_ops new out')" by auto
      from 1 obtain i where i: "i \<in> set (out_IdxsTypes out)"
        "path = ContainerPathFormatString new (idx_Type i) (idx_Index i)" by (auto simp: output_ops_mem)
      from o'(2) obtain i' where i': "i' \<in> set (out_IdxsTypes out')"
        "path = ContainerPathFormatString new (idx_Type i') (idx_Index i')" by (auto simp: output_ops_mem)
      have out: "out \<in> set outs" "out' \<in> set outs" using Cons.prems(2) o'(1) by auto
      have "image_at new i = Some (out_RawImage out)"
        using i(1) outputs_of_entry(1)[OF assms out(1)] positions_set by simp
      moreover have "image_at new i' = Some (out_RawImage out')"
        using i'(1) outputs_of_entry(1)[OF assms out(2)] positions_set by simp
      ultimately have "out_RawImage out = out_RawImage out'"
        using container_path_inject[of new i _ i'] i(2) i'(2) by auto
      then show False using Cons.prems(1) o'(1) by auto
    qed
    then show ?case
      using Cons output_ops_distinct[OF assms, of out] by simp
  qed simp
  from this[OF outputs_of_raw_images(1)[OF assms]] show ?thesis by simp
qed

definition decisions :: "admission_counters \<Rightarrow> nat" where
  "decisions m = numAdmissionsAdmitted m + numAdmissionsDenied m True + numAdmissionsDenied m False"

lemma decisions_count: "decisions (count_decision cancelled resp m) = Suc (decisions m)"
  by (cases cancelled) (simp_all add: decisions_def count_decision_def IncAdmissionsAdmitted_def IncAdmissionsDenied_def)

text \<open>The handler got as far as a decision.\<close>

definition counters_consistent :: "admission_counters \<Rightarrow> bool" where
  "counters_consistent m \<longleftrightarrow> decisions m \<le> numAdmissionsReceived m"

lemma count_decision_received [simp]:
  "numAdmissionsReceived (count_decision cancelled resp m) = numAdmissionsReceived m"
  by (simp add: count_decision_def IncAdmissionsAdmitted_def IncAdmissionsDenied_def)

lemma respond_counters:
  assumes "respond rt cd alerting cancelled ar request aevents review m = Ret (Some (resp, m', a))"
  shows "numAdmissionsReceived m' = numAdmissionsReceived m \<and> decisions m' = Suc (decisions m)"
  using assms unfolding respond_def
  by (auto simp: case_prod_beta Let_def decisions_count split: option.split_asm)

text \<open>The operations on the path of a container are those of the one output for its image.\<close>

lemma container_ops:
  assumes "outputs_of rt new old outs" and "image_at new p = Some img"
  shows "\<exists>out \<in> set outs. out_RawImage out = img \<and> (\<forall>out' \<in> set outs. out_RawImage out' = img \<longrightarrow> out' = out) \<and>
       {v. (ContainerPathFormatString new (idx_Type p) (idx_Index p), v) \<in> set (concat (map (output_ops new) outs))} =
         (if out_ValidationMode out = MutateMode \<and> out_NewImage out \<noteq> out_OldImage out
          then {out_NewImage out} else {})"
proof -
  let ?path = "ContainerPathFormatString new (idx_Type p) (idx_Index p)"
  have pos: "p \<in> set (positions new img)" using assms(2) by (simp add: positions_set)
  then have "img \<in> images_of new" by (auto simp: images_of_positions)
  then obtain out where out: "out \<in> set outs" "out_RawImage out = img"
    using outputs_of_raw_images(2)[OF assms(1)] by (metis imageE)
  have uniq: "\<forall>out' \<in> set outs. out_RawImage out' = img \<longrightarrow> out' = out"
    using outputs_of_raw_images(1)[OF assms(1)] out by (auto simp: distinct_map inj_on_def)
  have mem: "p \<in> set (out_IdxsTypes out)" using outputs_of_entry(1)[OF assms(1) out(1)] out(2) pos by simp
  have iff: "(?path, v) \<in> set (concat (map (output_ops new) outs)) \<longleftrightarrow>
      out_ValidationMode out = MutateMode \<and> out_NewImage out \<noteq> out_OldImage out \<and> v = out_NewImage out" for v
  proof
    assume "(?path, v) \<in> set (concat (map (output_ops new) outs))"
    then obtain out' where o': "out' \<in> set outs" "(?path, v) \<in> set (output_ops new out')" by auto
    then obtain i where i: "i \<in> set (out_IdxsTypes out')"
      "?path = ContainerPathFormatString new (idx_Type i) (idx_Index i)" by (auto simp: output_ops_mem)
    have im: "image_at new i = Some (out_RawImage out')"
      using i(1) outputs_of_entry(1)[OF assms(1) o'(1)] positions_set by simp
    with container_path_inject[OF assms(2) this i(2)] assms(2) have "out_RawImage out' = img" by simp
    with uniq o' show "out_ValidationMode out = MutateMode \<and> out_NewImage out \<noteq> out_OldImage out \<and> v = out_NewImage out"
      by (auto simp: output_ops_mem)
  next
    assume "out_ValidationMode out = MutateMode \<and> out_NewImage out \<noteq> out_OldImage out \<and> v = out_NewImage out"
    with mem have "(?path, v) \<in> set (output_ops new out)" by (auto simp: output_ops_mem)
    with out(1) show "(?path, v) \<in> set (concat (map (output_ops new) outs))" by auto
  qed
  have "{v. (?path, v) \<in> set (concat (map (output_ops new) outs))} =
      {v. out_ValidationMode out = MutateMode \<and> out_NewImage out \<noteq> out_OldImage out \<and> v = out_NewImage out}"
    by (rule Collect_cong) (rule iff)
  also have "\<dots> = (if out_ValidationMode out = MutateMode \<and> out_NewImage out \<noteq> out_OldImage out
       then {out_NewImage out} else {})" by simp
  finally have ops: "{v. (?path, v) \<in> set (concat (map (output_ops new) outs))} =
      (if out_ValidationMode out = MutateMode \<and> out_NewImage out \<noteq> out_OldImage out
       then {out_NewImage out} else {})" .
  show ?thesis
    by (intro conjI bexI[OF _ out(1)] out(2) uniq ops)
qed

section \<open>Properties\<close>

text \<open>
  C9 (functional). \<open>mutateReview\<close> admits a request exactly if the old object is already marked for
  deletion, or the first events of its loop are error-free results, one for every image of the new
  object. A timeout, a failed validation or an undecodable request is a denial.
\<close>
theorem mutateReview_admits_iff:
  "(\<exists>resp nv. mutateReview rt ar events = Ret (Some (resp, nv)) \<and> ars_Allowed resp) \<longleftrightarrow>
   (\<exists>aro. NewAdmissionRequestObjects (rt_decode rt) ar = Ret (Inr aro) \<and>
      (wlo_Deleted (aro_OldObj aro) \<or>
       (\<exists>outs rest. events = map Recv outs @ rest \<and>
          length outs = length (ValidateWorkloadObject rt (aro_NewObj aro) (aro_OldObj aro)) \<and>
          list_all no_error outs)))"
proof (cases "\<exists>aro. NewAdmissionRequestObjects (rt_decode rt) ar = Ret (Inr aro)")
  case False
  then show ?thesis
    by (cases "NewAdmissionRequestObjects (rt_decode rt) ar")
      (auto simp: mutateReview_def Let_def split: sum.split)
next
  case True
  then obtain aro where aro: "NewAdmissionRequestObjects (rt_decode rt) ar = Ret (Inr aro)" by blast
  show ?thesis
  proof (cases "wlo_Deleted (aro_OldObj aro)")
    case True
    then show ?thesis using aro by (simp add: mutateReview_def Let_def)
  next
    case False
    let ?cap = "length (ValidateWorkloadObject rt (aro_NewObj aro) (aro_OldObj aro))"
    have "(\<exists>resp nv. mutateReview rt ar events = Ret (Some (resp, nv)) \<and> ars_Allowed resp) \<longleftrightarrow>
        (\<exists>rs. receive_loop ?cap [] events = Completed rs)"
    proof (cases "receive_loop ?cap [] events")
      case (Completed rs)
      let ?r = "admit_response (aro_NewObj aro) (ar_UID ar) rs (init_values (Getenv (rt_Env rt) ''POD_NAME'') ar)"
      have "mutateReview rt ar events = Ret (Some (fst ?r, snd ?r))"
        using Completed by (simp add: mutateReview_cases[OF aro False] conclude_review_def)
      then show ?thesis using Completed admit_response_ok(3) by blast
    qed (auto simp: mutateReview_cases[OF aro False] conclude_review_def)
    also have "\<dots> \<longleftrightarrow> (\<exists>outs rest. events = map Recv outs @ rest \<and> length outs = ?cap \<and> list_all no_error outs)"
      by (simp add: receive_loop_Completed)
    finally show ?thesis using aro False by simp
  qed
qed

text \<open>
  C18 (roundtrip). When the JSON patch of an admission says what it should: for new images of
  printable ASCII characters other than the backslash, the patch, read back by a JSON parser, is the
  list of replace operations with the container paths and new images of the validation results exactly
  if none of these images has a double quote. The code puts the image into the document without
  escaping it, so the patch relies on the reference parser to refuse such images. Without operations there
  is no patch.
\<close>
theorem patch_decodes:
  assumes "\<forall>out \<in> set results. quotable (out_NewImage out) \<and> (\<forall>i \<in> set (out_IdxsTypes out). plain_text (idx_Type i))"
    and "ops = concat (map (output_ops wlo) results)"
  shows "case ars_Patch (fst (admit_response wlo uid results nv)) of
      None \<Rightarrow> ops = []
    | Some patch \<Rightarrow> parse_json patch = Some (JArray (map op_json ops)) \<longleftrightarrow> (\<forall>op \<in> set ops. DQ \<notin> set (snd op))"
proof (cases "ops = []")
  case False
  have q: "list_all (\<lambda>(path, v). plain_text path \<and> quotable v) ops"
    using assms(1) unfolding assms(2) by (fastforce simp: list_all_iff[of _ "concat _"] output_ops_mem ContainerPath_plain)
  have "parse_json (''['' @ Join '','' (map (\<lambda>(path, v). format_patch path v) ops) @ '']'') = Some (JArray (map op_json ops)) \<longleftrightarrow>
      (\<forall>op \<in> set ops. DQ \<notin> set (snd op))"
  proof
    assume "\<forall>op \<in> set ops. DQ \<notin> set (snd op)"
    then have "list_all (\<lambda>(path, v). plain_text path \<and> plain_text v) ops"
      using q by (fastforce simp: list_all_iff quotable_def)
    from parse_json_patch[OF False this]
    show "parse_json (''['' @ Join '','' (map (\<lambda>(path, v). format_patch path v) ops) @ '']'') = Some (JArray (map op_json ops))" .
  qed (use parse_json_quoted_patch[OF q] in blast)
  then show ?thesis
    using False unfolding admit_response_patch Let_def assms(2) by simp
qed (use assms(2) in \<open>simp add: admit_response_patch\<close>)

definition example_output :: ValidationOutput where
  "example_output = \<lparr>out_IdxsTypes = [\<lparr>idx_Index = 0, idx_Type = ''containers''\<rparr>], out_RawImage = ''nginx'',
     out_NewImage = ''nginx@sha256:aa'', out_OldImage = ''nginx'', out_Error = None, out_Validator = ''default'',
     out_Skipped = False, out_SkipReason = [], out_ValidationMode = ''mutate''\<rparr>"

theorem patch_decodes_witness:
  "\<exists>patch. ars_Patch (fst (admit_response example_pod ''1'' [example_output] (init_values ''pod-0'' example_request))) = Some patch \<and>
     parse_json patch = Some (JArray [op_json (''/spec/containers/0/image'', ''nginx@sha256:aa'')])"
proof -
  have p: "\<forall>out \<in> set [example_output]. quotable (out_NewImage out) \<and> (\<forall>i \<in> set (out_IdxsTypes out). plain_text (idx_Type i))"
    and o: "concat (map (output_ops example_pod) [example_output]) = [(''/spec/containers/0/image'', ''nginx@sha256:aa'')]"
    by code_simp+
  then have "ars_Patch (fst (admit_response example_pod ''1'' [example_output] (init_values ''pod-0'' example_request))) \<noteq> None"
    unfolding admit_response_patch Let_def o by simp
  then show ?thesis using patch_decodes[OF p refl, of example_pod "''1''" "init_values ''pod-0'' example_request"] unfolding o by auto
qed

text \<open>
  C10 (functional). The patch replaces every container image by the result of its own validation: for
  the outputs of the goroutines of a workload object (in any order), the patch is the list of the
  replace operations of the outputs, no two operations have the same path, and the operations on the path of a container are those of the one output for its image, if
  that image is to be mutated and has changed.
\<close>
theorem patch_replaces_containers:
  assumes "outputs_of rt new old outs" and "image_at new p = Some img"
  shows "ars_Patch (fst (admit_response new uid outs nv)) =
      (let ops = concat (map (output_ops new) outs)
       in if ops = [] then None
          else Some (''['' @ Join '','' (map (\<lambda>(path, v). format_patch path v) ops) @ '']'')) \<and>
    distinct (map fst (concat (map (output_ops new) outs))) \<and>
    (\<exists>out \<in> set outs. out_RawImage out = img \<and> (\<forall>out' \<in> set outs. out_RawImage out' = img \<longrightarrow> out' = out) \<and>
       {v. (ContainerPathFormatString new (idx_Type p) (idx_Index p), v) \<in> set (concat (map (output_ops new) outs))} =
         (if out_ValidationMode out = MutateMode \<and> out_NewImage out \<noteq> out_OldImage out
          then {out_NewImage out} else {}))"
  by (intro conjI admit_response_patch ops_distinct[OF assms(1)] container_ops[OF assms])

theorem patch_replaces_containers_witness:
  "distinct (map fst (concat (map (output_ops example_pod) [example_output]))) \<and>
   (''/spec/containers/0/image'', ''nginx@sha256:aa'') \<in> set (concat (map (output_ops example_pod) [example_output]))"
proof -
  let ?p = "\<lparr>idx_Index = 0, idx_Type = ''containers''\<rparr>"
  have c: "ConsolidatedContainers example_pod = [(''nginx'', [?p])]" by code_simp
  have o: "outputs_of (example_runtime accept_all) example_pod empty_workload [example_output]"
    by (simp add: outputs_of_def ValidateWorkloadObject_def c example_output_def)
  have i: "image_at example_pod ?p = Some ''nginx''" by code_simp
  have "out_ValidationMode example_output = MutateMode \<and> out_NewImage example_output \<noteq> out_OldImage example_output"
    and n: "out_NewImage example_output = ''nginx@sha256:aa''"
    and path: "ContainerPathFormatString example_pod (idx_Type ?p) (idx_Index ?p) = ''/spec/containers/0/image''"
    by code_simp+
  then show ?thesis
    using patch_replaces_containers[OF o i] unfolding path
    by (simp del: map_concat concat.simps) blast
qed

text \<open>
  C11 (functional). The decision in the response: the request is admitted iff the review admits it
  and no blocking alert failed, or the resource kind is outside of a pods-only validation, or
  detection mode is on; and a denial that a mode overrides is shown as the two warnings of that mode.
  So detection mode admits also after a failed blocking alert, which the chart's values, a sample
  configuration and the documentation of alerting deny.
\<close>
theorem decision_iff:
  assumes "mutateReview rt ar events = Ret (Some (review, nv))"
  shows "\<exists>resp. features (rt_Env rt) (gvk_Kind (ar_Kind ar)) (alert_failed err review) = Ret resp \<and>
    (ars_Allowed resp \<longleftrightarrow> (ars_Allowed review \<and> err = None) \<or>
       (gvk_Kind (ar_Kind ar) \<noteq> ''Pod'' \<and> \<not> BlockAllResources (rt_Env rt)) \<or>
       FeatureFlagOn (rt_Env rt) DetectionMode) \<and>
    (ars_Allowed resp \<and> \<not> (ars_Allowed review \<and> err = None) \<longrightarrow>
       (\<exists>mode. ars_Warnings resp = [mode, the (ars_Message (alert_failed err review))] \<and>
          mode \<in> {''pod-only validation active'', ''detection mode active''}))"
proof -
  have ok: "response_ok review" using mutateReview_ok[OF assms] by simp
  let ?r = "alert_failed err review"
  have allowed: "ars_Allowed ?r \<longleftrightarrow> ars_Allowed review \<and> err = None"
    by (cases err) (simp_all add: alert_failed_def)
  obtain resp where resp: "features (rt_Env rt) (gvk_Kind (ar_Kind ar)) ?r = Ret resp"
    "ars_Allowed resp \<longleftrightarrow> ars_Allowed ?r \<or> gvk_Kind (ar_Kind ar) \<noteq> ''Pod'' \<and> \<not> BlockAllResources (rt_Env rt) \<or>
       FeatureFlagOn (rt_Env rt) DetectionMode"
    using features_ok[OF alert_failed_ok[OF ok]] by blast
  have "\<exists>mode. ars_Warnings resp = [mode, the (ars_Message ?r)] \<and>
      mode \<in> {''pod-only validation active'', ''detection mode active''}"
    if over: "ars_Allowed resp" "\<not> ars_Allowed ?r"
  proof -
    obtain msg where msg: "ars_Message ?r = Some msg"
      using alert_failed_ok[OF ok, of err] over(2) unfolding response_ok_def by auto
    show ?thesis
    proof (cases "gvk_Kind (ar_Kind ar) \<noteq> ''Pod'' \<and> \<not> BlockAllResources (rt_Env rt)")
      case True
      then have "ars_Warnings resp = [''pod-only validation active'', msg]"
        using resp(1) over msg unfolding features_def resource_mode_def detection_mode_def Let_def by auto
      then show ?thesis using msg by simp
    next
      case False
      then have "resource_mode (rt_Env rt) (gvk_Kind (ar_Kind ar)) ?r = Ret ?r" by (auto simp: resource_mode_def)
      then have "ars_Warnings resp = [''detection mode active'', msg]"
        using resp(1) over msg unfolding features_def detection_mode_def by (auto split: if_split_asm)
      then show ?thesis using msg by simp
    qed
  qed
  then show ?thesis using resp allowed by auto
qed

theorem decision_iff_witness:
  "\<exists>resp. features Map.empty ''ReplicaSet'' (alert_failed (Some ''x'') (deny_response ''1'' ''no'')) = Ret resp \<and>
     \<not> ars_Allowed resp"
proof -
  let ?ar = "example_request\<lparr>ar_Object := []\<rparr>"
  let ?rt = "example_runtime accept_all\<lparr>rt_decode := \<lambda>raw gvk. (None, gvk, None)\<rparr>"
  have "NewAdmissionRequestObjects (rt_decode ?rt) ?ar = Ret (Inl (''error decoding old workload object: '' @
      ''deserialize conversion to '' @ [DQ] @ ''ReplicaSet'' @ [DQ] @ '' has failed''))"
    by (simp add: NewAdmissionRequestObjects_def example_request_def example_gvk_def
        NewWorkloadObjectFromBytes_def Deserialize_def Let_def)
  then obtain review nv where r: "mutateReview ?rt ?ar [] = Ret (Some (review, nv))" "\<not> ars_Allowed review"
    "review = deny_response ''1'' (the (ars_Message review))"
    by (simp add: mutateReview_def Let_def example_request_def deny_response_def)
  have "\<not> FeatureFlagOn (rt_Env ?rt) DetectionMode" "BlockAllResources (rt_Env ?rt)"
    and k: "gvk_Kind (ar_Kind ?ar) = ''ReplicaSet''" by code_simp+
  moreover have "rt_Env ?rt = Map.empty" by (simp add: example_runtime_def)
  moreover have "alert_failed (Some ''x'') review = alert_failed (Some ''x'') (deny_response ''1'' ''no'')"
    by (subst r(3)) (simp add: alert_failed_def deny_response_def)
  ultimately show ?thesis using decision_iff[OF r(1), of "Some ''x''"] by auto
qed

text \<open>
  The handler panics only where decoding the request does (a replication controller
  without template): a denied response always has the message that the features dereference, and a
  failed validation always has the error that the notification dereferences.
\<close>
theorem HandleMutate_panics:
  assumes "panics (HandleMutate rt cd alerting cancelled r events aevents m)"
  shows "\<exists>body ar request. rq_Body r = Inr body \<and> cd_Unmarshal cd body = Inr ar \<and> rv_Request ar = Some request \<and>
    gvk_Kind (ar_Kind request) = ''ReplicationController'' \<and> panics (NewAdmissionRequestObjects (rt_decode rt) request)"
proof -
  obtain body ar request where b: "rq_Body r = Inr body" "cd_Unmarshal cd body = Inr ar" "rv_Request ar = Some request"
    and p: "panics (go_bind (mutateReview rt request events) (\<lambda>review. case review of
                 None \<Rightarrow> Ret None
               | Some review \<Rightarrow> respond rt cd alerting cancelled ar request aevents review (IncAdmissionsReceived m)))"
    using assms unfolding HandleMutate_def handleMutate_def Let_def
    by (auto split: if_split_asm sum.split_asm option.split_asm simp del: not_panics_bind)
  have no: "\<not> panics (respond rt cd alerting cancelled ar request aevents (resp, nv) m')"
    if "mutateReview rt request events = Ret (Some (resp, nv))" for resp nv m'
  proof -
    have ok: "response_ok resp" "values_ok nv" using mutateReview_ok[OF that] by auto
    obtain a st x where ev: "EvalAndSendNotifications alerting nv aevents = Ret (a, st, x)"
      using EvalAndSend_returns[OF ok(2)] by blast
    have "\<not> panics (features (rt_Env rt) (gvk_Kind (ar_Kind request)) (alert_failed err resp))" for err
    proof -
      obtain r1 where "features (rt_Env rt) (gvk_Kind (ar_Kind request)) (alert_failed err resp) = Ret r1"
        using features_ok[OF alert_failed_ok[OF ok(1)]] by blast
      then show ?thesis by simp
    qed
    then show ?thesis unfolding respond_def snd_conv fst_conv ev
      by (auto simp: case_prod_beta Let_def split: option.split)
  qed
  have "panics (NewAdmissionRequestObjects (rt_decode rt) request)"
  proof (rule ccontr)
    assume "\<not> ?thesis"
    then obtain review where rv: "mutateReview rt request events = Ret review"
      using mutateReview_panics by (metis panics_iff)
    show False
    proof (cases review)
      case (Some x)
      then show False using p rv no[of "fst x" "snd x"] by simp
    qed (use p rv in simp)
  qed
  moreover from this have "gvk_Kind (ar_Kind request) = ''ReplicationController''"
    by (rule NewAdmissionRequestObjects_panics)
  ultimately show ?thesis using b by blast
qed

theorem HandleMutate_panics_witness:
  "\<exists>request. gvk_Kind (ar_Kind request) = ''ReplicationController'' \<and>
     panics (NewAdmissionRequestObjects (\<lambda>raw gvk. (Some (ReplicationController example_meta None), gvk, None)) request)"
proof -
  let ?d = "\<lambda>raw gvk. (Some (ReplicationController example_meta None), gvk, None)"
  let ?rt = "example_runtime accept_all\<lparr>rt_decode := ?d\<rparr>"
  let ?req = "example_request\<lparr>ar_Kind := \<lparr>gvk_Group = [], gvk_Version = ''v1'', gvk_Kind = ''ReplicationController''\<rparr>\<rparr>"
  let ?ar = "\<lparr>rv_APIVersion = ''admission.k8s.io/v1'', rv_Kind = ''AdmissionReview'', rv_Request = Some ?req\<rparr>"
  let ?cd = "\<lparr>cd_Unmarshal = \<lambda>b. Inr ?ar, cd_Marshal = \<lambda>r. Inr [], cd_GroupVersionKind = Pair\<rparr>"
  let ?r = "\<lparr>rq_Method = ''POST'', rq_ContentType = ''application/json'', rq_Body = Inr []\<rparr>"
  let ?m = "\<lparr>numAdmissionsReceived = 0, numAdmissionsAdmitted = 0, numAdmissionsDenied = \<lambda>b. 0\<rparr>"
  have "panics (HandleMutate ?rt ?cd a False ?r [] [] ?m)" for a
    by (simp add: HandleMutate_def handleMutate_def mutateReview_def NewAdmissionRequestObjects_def
        example_request_def NewWorkloadObjectFromBytes_def Deserialize_def Let_def)
  from HandleMutate_panics[OF this] show ?thesis by (intro exI[of _ ?req]) auto
qed

text \<open>
  C38 (invariant). The admission counters are consistent: the decisions counted, admitted or denied,
  never exceed the requests received. Every request is counted as received, and at most one decision
  is counted for it: exactly one for a request that gets a review response.
\<close>
theorem HandleMutate_counters:
  assumes "HandleMutate rt cd alerting cancelled r events aevents m = Ret (Some (resp, m', a))"
  shows "numAdmissionsReceived m' = Suc (numAdmissionsReceived m) \<and>
    decisions m' \<in> {decisions m, Suc (decisions m)} \<and>
    (\<forall>bytes. resp = HttpOK bytes \<longrightarrow> decisions m' = Suc (decisions m)) \<and>
    (counters_consistent m \<longrightarrow> counters_consistent m')"
proof -
  let ?m = "IncAdmissionsReceived m"
  have m: "numAdmissionsReceived ?m = Suc (numAdmissionsReceived m)" "decisions ?m = decisions m"
    by (simp_all add: IncAdmissionsReceived_def decisions_def)
  have "(\<exists>msg code. resp = HttpError msg code) \<and> m' = ?m \<or>
      (\<exists>ar request review. respond rt cd alerting cancelled ar request aevents review ?m = Ret (Some (resp, m', a)))"
    using assms unfolding HandleMutate_def handleMutate_def Let_def
    by (auto split: if_split_asm sum.split_asm option.split_asm)
  then show ?thesis
  proof
    assume "(\<exists>msg code. resp = HttpError msg code) \<and> m' = ?m"
    then show ?thesis using m by (auto simp: counters_consistent_def)
  next
    assume "\<exists>ar request review. respond rt cd alerting cancelled ar request aevents review ?m = Ret (Some (resp, m', a))"
    then show ?thesis using respond_counters m by (auto simp: counters_consistent_def dest!: respond_counters)
  qed
qed

theorem HandleMutate_counters_witness:
  "\<exists>m'. HandleMutate (example_runtime accept_all)
       \<lparr>cd_Unmarshal = \<lambda>_. Inl [], cd_Marshal = \<lambda>_. Inr [], cd_GroupVersionKind = Pair\<rparr>
       \<lparr>ClusterId = [], AdmitRequests = [], RejectRequests = []\<rparr> False
       \<lparr>rq_Method = ''GET'', rq_ContentType = [], rq_Body = Inr []\<rparr> [] []
       \<lparr>numAdmissionsReceived = 7, numAdmissionsAdmitted = 3, numAdmissionsDenied = \<lambda>b. 2\<rparr> =
     Ret (Some (HttpError ''Method not allowed.: GET'' 405, m', \<lparr>ClusterId = [], AdmitRequests = [], RejectRequests = []\<rparr>)) \<and> numAdmissionsReceived m' = 8"
proof -
  let ?m = "\<lparr>numAdmissionsReceived = 7, numAdmissionsAdmitted = 3, numAdmissionsDenied = \<lambda>b. 2\<rparr> :: admission_counters"
  obtain m' where h: "HandleMutate (example_runtime accept_all)
       \<lparr>cd_Unmarshal = \<lambda>_. Inl [], cd_Marshal = \<lambda>_. Inr [], cd_GroupVersionKind = Pair\<rparr>
       \<lparr>ClusterId = [], AdmitRequests = [], RejectRequests = []\<rparr> False
       \<lparr>rq_Method = ''GET'', rq_ContentType = [], rq_Body = Inr []\<rparr> [] [] ?m =
     Ret (Some (HttpError ''Method not allowed.: GET'' 405, m', \<lparr>ClusterId = [], AdmitRequests = [], RejectRequests = []\<rparr>))"
    by (simp add: HandleMutate_def handleMutate_def)
  from HandleMutate_counters[OF h] h show ?thesis by simp
qed

end
