(* ===== verification/Admission_Run.thy ===== *)
theory Admission_Run
  imports Mutate
begin

text \<open>
  The concurrent run of one admission request: the goroutines that \<open>ValidateWorkloadObject\<close> starts,
  the buffered channel of their results, the shared cache and counters, the context that may be
  cancelled at any time, and the receive loop of \<open>mutateReview\<close>, as a step relation over all
  interleavings. A goroutine reads the cache, later writes to it, later still runs its deferred
  function; other goroutines may move in between. A goroutine that panics runs its deferred function and
  then ends the process; one whose validator waits forever stays where it is. Reachability, the invariant by rule induction, the
  absence of blocked senders, termination under every schedule, and what an admission means.
\<close>

section \<open>Definitions\<close>

text \<open>
  The phases of a goroutine: not yet past its lookups, finished with validating (with the panic, the
  local variables and the store still to do), ended.
\<close>

datatype phase = Ready | Looked "string option" locals store_call | Ended

record 'w run =
  run_jobs :: "(ValidationInput \<times> phase) list"
  run_cache :: 'w
  run_counters :: counters
  run_chan :: "ValidationOutput list"
  run_events :: "recv_event list"
  run_cancelled :: bool
  run_panicked :: bool
  run_exited :: bool

definition init_run :: "'w Runtime \<Rightarrow> WorkloadObject \<Rightarrow> WorkloadObject \<Rightarrow> 'w \<Rightarrow> counters \<Rightarrow> bool \<Rightarrow> 'w run" where
  "init_run rt new old w m cancelled =
     \<lparr>run_jobs = map (\<lambda>input. (input, Ready)) (ValidateWorkloadObject rt new old), run_cache = w,
      run_counters = m, run_chan = [], run_events = [], run_cancelled = cancelled, run_panicked = False,
      run_exited = False\<rparr>"

text \<open>The capacity of the channel is the number of goroutines.\<close>

abbreviation capacity :: "'w run \<Rightarrow> nat" where
  "capacity s \<equiv> length (run_jobs s)"

definition receiver :: "'w run \<Rightarrow> recv_result" where
  "receiver s = receive_loop (capacity s) [] (run_events s)"

text \<open>
  After a panic the others may still move, until the process has ended; then nothing does. A goroutine
  does not get past a validator that waits forever.
\<close>

inductive step :: "'w Runtime \<Rightarrow> 'w run \<Rightarrow> 'w run \<Rightarrow> bool" for rt where
  look: "\<lbrakk> \<not> run_exited s; i < capacity s; run_jobs s ! i = (input, Ready);
      ValidateImage_body rt input (run_cache s) = (p, l, call); p \<noteq> Some blocked \<rbrakk>
    \<Longrightarrow> step rt s (s\<lparr>run_jobs := (run_jobs s)[i := (input, Looked p l call)]\<rparr>)"
| store: "\<lbrakk> \<not> run_exited s; i < capacity s; run_jobs s ! i = (input, Looked p l (Some kv)) \<rbrakk>
    \<Longrightarrow> step rt s (s\<lparr>run_jobs := (run_jobs s)[i := (input, Looked p l None)],
                     run_cache := run_store rt (Some kv) (run_cache s)\<rparr>)"
| finish: "\<lbrakk> \<not> run_exited s; i < capacity s; run_jobs s ! i = (input, Looked p l None);
      deferred (rt_parse rt) False input l (run_counters s) = (Some out, m);
      \<not> run_cancelled s; length (run_chan s) < capacity s \<rbrakk>
    \<Longrightarrow> step rt s (s\<lparr>run_jobs := (run_jobs s)[i := (input, Ended)], run_counters := m,
                     run_chan := run_chan s @ [out],
                     run_panicked := (run_panicked s \<or> p \<noteq> None)\<rparr>)"
| give_up: "\<lbrakk> \<not> run_exited s; i < capacity s; run_jobs s ! i = (input, Looked p l None);
      deferred (rt_parse rt) True input l (run_counters s) = (None, m); run_cancelled s \<rbrakk>
    \<Longrightarrow> step rt s (s\<lparr>run_jobs := (run_jobs s)[i := (input, Ended)], run_counters := m,
                     run_panicked := (run_panicked s \<or> p \<noteq> None)\<rparr>)"
| receive: "\<lbrakk> \<not> run_exited s; receiver s = Waiting; run_chan s = out # rest \<rbrakk>
    \<Longrightarrow> step rt s (s\<lparr>run_events := run_events s @ [Recv out], run_chan := rest\<rparr>)"
| receive_done: "\<lbrakk> \<not> run_exited s; receiver s = Waiting; run_cancelled s \<rbrakk>
    \<Longrightarrow> step rt s (s\<lparr>run_events := run_events s @ [CtxDone]\<rparr>)"
| cancel: "\<lbrakk> \<not> run_exited s; \<not> run_cancelled s \<rbrakk> \<Longrightarrow> step rt s (s\<lparr>run_cancelled := True\<rparr>)"
| exit: "\<lbrakk> \<not> run_exited s; run_panicked s \<rbrakk> \<Longrightarrow> step rt s (s\<lparr>run_exited := True\<rparr>)"

inductive_cases stepE: "step rt s s'"

inductive reachable :: "'w Runtime \<Rightarrow> 'w run \<Rightarrow> 'w run \<Rightarrow> bool" for rt s0 where
  start: "reachable rt s0 s0"
| next_step: "\<lbrakk> reachable rt s0 s; step rt s s' \<rbrakk> \<Longrightarrow> reachable rt s0 s'"

section \<open>The invariant\<close>

fun received :: "recv_event list \<Rightarrow> ValidationOutput list" where
  "received [] = []"
| "received (Recv out # es) = out # received es"
| "received (CtxDone # es) = received es"

lemma received_append [simp]: "received (es @ fs) = received es @ received fs"
  by (induction es rule: received.induct) auto

lemma received_Recv [simp]: "received (map Recv outs) = outs"
  by (induction outs) auto

abbreviation out_key :: "ValidationOutput \<Rightarrow> string \<times> IdxType list" where
  "out_key out \<equiv> (out_RawImage out, out_IdxsTypes out)"

abbreviation in_key :: "ValidationInput \<Rightarrow> string \<times> IdxType list" where
  "in_key input \<equiv> (in_Image input, in_IdxsTypes input)"

definition outputs :: "'w run \<Rightarrow> ValidationOutput list" where
  "outputs s = received (run_events s) @ run_chan s"

definition ended :: "'w run \<Rightarrow> ValidationInput list" where
  "ended s = map fst (filter (\<lambda>j. snd j = Ended) (run_jobs s))"

text \<open>An output has been sent by a goroutine of the request that looked into a sound cache.\<close>

definition genuine :: "'w Runtime \<Rightarrow> 'w run \<Rightarrow> ValidationOutput \<Rightarrow> bool" where
  "genuine rt s out \<longleftrightarrow>
     (\<exists>input w m. input \<in> fst ` set (run_jobs s) \<and> in_key input = out_key out \<and> cache_sound rt w \<and>
        oc_Sent (ValidateImage rt False input w m) = Some out)"

definition looked_ok :: "'w Runtime \<Rightarrow> ValidationInput \<times> phase \<Rightarrow> bool" where
  "looked_ok rt j \<longleftrightarrow>
     (case snd j of
        Looked p l call \<Rightarrow>
          p \<noteq> Some blocked \<and>
          (\<exists>w call'. cache_sound rt w \<and> ValidateImage_body rt (fst j) w = (p, l, call') \<and>
                    (call = None \<or> call = call'))
      | _ \<Rightarrow> True)"

definition inv :: "'w Runtime \<Rightarrow> 'w run \<Rightarrow> bool" where
  "inv rt s \<longleftrightarrow>
     cache_sound rt (run_cache s) \<and> counters_ok (run_counters s) \<and>
     list_all (looked_ok rt) (run_jobs s) \<and>
     mset (map out_key (outputs s)) \<subseteq># mset (map in_key (ended s)) \<and>
     list_all (genuine rt s) (outputs s)"

lemma map_fst_update: "i < length js \<Longrightarrow> js ! i = (a, x) \<Longrightarrow> map fst (js[i := (a, y)]) = map fst js"
  by (metis fst_conv list_update_id map_update)

lemma step_inputs: "step rt s s' \<Longrightarrow> map fst (run_jobs s') = map fst (run_jobs s)"
  by (erule stepE) (simp_all add: map_fst_update)

lemma set_inputs: "map fst js = map fst js' \<Longrightarrow> fst ` set js = fst ` set js'"
  by (metis list.set_map)

lemma genuine_step:
  assumes "step rt s s'"
  shows "genuine rt s' = genuine rt s"
  by (rule ext) (simp add: genuine_def set_inputs[OF step_inputs[OF assms]])

lemma mset_filter_update:
  assumes "i < length js" "js ! i = (a, x)"
  shows "mset (map fst (filter (\<lambda>j. snd j = Ended) (js[i := (a, y)]))) =
    mset (map fst (filter (\<lambda>j. snd j = Ended) js)) - (if x = Ended then {#a#} else {#}) + (if y = Ended then {#a#} else {#})"
proof -
  have js: "js = take i js @ (a, x) # drop (Suc i) js" using assms by (metis id_take_nth_drop)
  have up: "js[i := (a, y)] = take i js @ (a, y) # drop (Suc i) js"
    using assms(1) by (simp add: upd_conv_take_nth_drop)
  have "filter (\<lambda>j. snd j = Ended) js = filter (\<lambda>j. snd j = Ended) (take i js) @
      (if x = Ended then [(a, x)] else []) @ filter (\<lambda>j. snd j = Ended) (drop (Suc i) js)"
    by (subst (1) js) simp
  then show ?thesis unfolding up by simp
qed

lemma mset_ended_same:
  assumes "i < length js" "js ! i = (a, x)" "x \<noteq> Ended" "y \<noteq> Ended"
  shows "mset (map fst (filter (\<lambda>j. snd j = Ended) (js[i := (a, y)]))) =
    mset (map fst (filter (\<lambda>j. snd j = Ended) js))"
  using mset_filter_update[OF assms(1,2), of y] assms(3,4) by simp

lemma mset_ended_add:
  assumes "i < length js" "js ! i = (a, x)" "x \<noteq> Ended"
  shows "mset (map fst (filter (\<lambda>j. snd j = Ended) (js[i := (a, Ended)]))) =
    mset (map fst (filter (\<lambda>j. snd j = Ended) js)) + {#a#}"
  using mset_filter_update[OF assms(1,2), of Ended] assms(3) by simp

lemma list_all_update: "list_all P js \<Longrightarrow> P y \<Longrightarrow> list_all P (js[i := y])"
  by (auto simp: list_all_iff dest: set_update_subset_insert[THEN subsetD])

lemma looked_ok_simps [simp]:
  "looked_ok rt (input, Ready)" "looked_ok rt (input, Ended)"
  "looked_ok rt (input, Looked p l call) \<longleftrightarrow>
     p \<noteq> Some blocked \<and> (\<exists>w call'. cache_sound rt w \<and> ValidateImage_body rt input w = (p, l, call') \<and> (call = None \<or> call = call'))"
  by (simp_all add: looked_ok_def)

lemma run_store_looked:
  assumes "cache_contract (rt_Cache rt)" "validators_ok rt" "cache_sound rt w"
    and "looked_ok rt (input, Looked p l (Some kv))"
  shows "cache_sound rt (run_store rt (Some kv) w)"
proof -
  obtain w' where "ValidateImage_body rt input w' = (p, l, Some kv)" using assms(4) by auto
  with cache_sound_body[OF assms(1,2,3), of input w'] show ?thesis by simp
qed

text \<open>A sent output belongs to its goroutine.\<close>

lemma deferred_key:
  "deferred parse cancelled input l m = (Some out, m') \<Longrightarrow> in_key input = out_key out \<and> \<not> cancelled"
  unfolding deferred_def Let_def by (auto split: if_split_asm)

lemma deferred_sent:
  assumes "looked_ok rt (input, Looked p l None)"
    and "deferred (rt_parse rt) False input l m = (Some out, m')"
  shows "\<exists>w. cache_sound rt w \<and> oc_Sent (ValidateImage rt False input w m) = Some out"
proof -
  obtain w call' where w: "cache_sound rt w" "ValidateImage_body rt input w = (p, l, call')" "p \<noteq> Some blocked"
    using assms(1) by auto
  then show ?thesis using assms(2) by (auto simp: oc_Sent_iff)
qed

lemma looked_ok_nth: "list_all (looked_ok rt) (run_jobs s) \<Longrightarrow> i < capacity s \<Longrightarrow> run_jobs s ! i = j \<Longrightarrow> looked_ok rt j"
  by (auto simp: list_all_length)

text \<open>Every step keeps the invariant.\<close>

lemma inv_step:
  assumes "step rt s s'" and inv: "inv rt s"
    and c: "cache_contract (rt_Cache rt)" and v: "validators_ok rt"
  shows "inv rt s'"
proof -
  note g = genuine_step[OF assms(1)]
  from inv have I: "cache_sound rt (run_cache s)" "counters_ok (run_counters s)"
    "list_all (looked_ok rt) (run_jobs s)" "mset (map out_key (outputs s)) \<subseteq># mset (map in_key (ended s))"
    "list_all (genuine rt s) (outputs s)" by (simp_all add: inv_def)
  from assms(1) show ?thesis
  proof (cases rule: step.cases)
    case (look i input p l call)
    have "looked_ok rt (input, Looked p l call)" using look(5,6) I(1) by auto
    moreover have "mset (ended s') = mset (ended s)"
      using look mset_ended_same[OF look(3,4)] by (simp add: ended_def)
    ultimately show ?thesis
      using I g look(1) by (simp add: inv_def outputs_def list_all_update)
  next
    case (store i input p l kv)
    have lo: "looked_ok rt (input, Looked p l (Some kv))" by (rule looked_ok_nth[OF I(3) store(3,4)])
    then have "looked_ok rt (input, Looked p l None)" by auto
    moreover have "mset (ended s') = mset (ended s)"
      using store mset_ended_same[OF store(3,4)] by (simp add: ended_def)
    moreover have "cache_sound rt (run_cache s')"
      using run_store_looked[OF c v I(1) lo] store(1) by simp
    ultimately show ?thesis
      using I g store(1) by (simp add: inv_def outputs_def list_all_update)
  next
    case (finish i input p l out m)
    have lo: "looked_ok rt (input, Looked p l None)" by (rule looked_ok_nth[OF I(3) finish(3,4)])
    obtain w where w: "cache_sound rt w" "oc_Sent (ValidateImage rt False input w (run_counters s)) = Some out"
      using deferred_sent[OF lo finish(5)] by blast
    have key: "in_key input = out_key out" using deferred_key[OF finish(5)] by simp
    have "input \<in> fst ` set (run_jobs s)" using finish(3,4) by (metis fst_conv image_eqI nth_mem)
    with w key have "genuine rt s out" unfolding genuine_def by blast
    moreover have "mset (ended s') = mset (ended s) + {#input#}"
      using finish mset_ended_add[OF finish(3,4)] by (simp add: ended_def)
    then have "mset (map in_key (ended s')) = mset (map in_key (ended s)) + {#out_key out#}"
      using key by simp
    moreover have "counters_ok m" using counters_ok_deferred[OF I(2)] finish(5) by (metis snd_conv)
    moreover have "outputs s' = outputs s @ [out]" using finish(1) by (simp add: outputs_def)
    ultimately show ?thesis
      using I g finish(1) by (simp add: inv_def list_all_update)
  next
    case (give_up i input p l m)
    have "mset (ended s') = mset (ended s) + {#input#}"
      using give_up mset_ended_add[OF give_up(3,4)] by (simp add: ended_def)
    then have "mset (map in_key (ended s)) \<subseteq># mset (map in_key (ended s'))" by simp
    with I(4) have "mset (map out_key (outputs s)) \<subseteq># mset (map in_key (ended s'))"
      by (rule subset_mset.order_trans)
    moreover have "counters_ok m" using counters_ok_deferred[OF I(2)] give_up(5) by (metis snd_conv)
    ultimately show ?thesis
      using I g give_up(1) by (simp add: inv_def outputs_def list_all_update)
  next
    case (receive out rest)
    have "mset (outputs s') = mset (outputs s)" "set (outputs s') = set (outputs s)"
      using receive by (auto simp: outputs_def)
    then show ?thesis
      using I g receive(1) by (simp add: inv_def list_all_iff ended_def)
  next
    case receive_done
    then show ?thesis using I g by (simp add: inv_def outputs_def ended_def)
  next
    case cancel
    then show ?thesis using I g by (simp add: inv_def outputs_def ended_def)
  next
    case exit
    then show ?thesis using I g by (simp add: inv_def outputs_def ended_def)
  qed
qed

lemma inv_init: "cache_sound rt w \<Longrightarrow> counters_ok m \<Longrightarrow> inv rt (init_run rt new old w m cancelled)"
  by (simp add: inv_def init_run_def outputs_def ended_def list_all_iff)

lemma reachable_inv:
  assumes "reachable rt s0 s" "inv rt s0" "cache_contract (rt_Cache rt)" "validators_ok rt"
  shows "inv rt s"
  using assms(1)
proof (induction rule: reachable.induct)
  case start
  show ?case by (rule assms(2))
next
  case (next_step s s')
  then show ?case using inv_step assms(3,4) by blast
qed

lemma reachable_inputs: "reachable rt s0 s \<Longrightarrow> map fst (run_jobs s) = map fst (run_jobs s0)"
  by (induction rule: reachable.induct) (simp_all add: step_inputs)

section \<open>What a completed loop has received\<close>

lemma reachable_capacity: "reachable rt s0 s \<Longrightarrow> capacity s = capacity s0"
  using reachable_inputs by (metis length_map)

lemma reachable_init_inputs:
  "reachable rt (init_run rt new old w m c) s \<Longrightarrow> map fst (run_jobs s) = ValidateWorkloadObject rt new old"
  by (drule reachable_inputs) (simp add: init_run_def comp_def)

lemma ended_sub_inputs: "mset (ended s) \<subseteq># mset (map fst (run_jobs s))"
proof -
  have "mset (map fst (run_jobs s)) = mset (ended s) + mset (map fst (filter (\<lambda>j. snd j \<noteq> Ended) (run_jobs s)))"
    unfolding ended_def mset_map
    by (metis image_mset_union mset_filter multiset_partition)
  then show ?thesis by simp
qed

lemma length_outputs:
  assumes "inv rt s"
  shows "length (outputs s) \<le> length (ended s)"
  using size_mset_mono[of "mset (map out_key (outputs s))" "mset (map in_key (ended s))"] assms
  by (simp add: inv_def)

lemma submset_same_size:
  assumes "A \<subseteq># B" "size A = size B"
  shows "A = B"
proof -
  obtain C where "B = A + C" using assms(1) by (auto simp: subset_mset.le_iff_add)
  with assms(2) show ?thesis by simp
qed

text \<open>
  When the loop has received as many results as there are goroutines, these are the results of
  all the goroutines, each exactly once.
\<close>

lemma completed_outputs:
  assumes inv: "inv rt s" and jobs: "map fst (run_jobs s) = ValidateWorkloadObject rt new old"
    and r: "receiver s = Completed results"
  shows "outputs_of rt new old results \<and> list_all (genuine rt s) results \<and> list_all no_error results"
proof -
  obtain outs rest where o: "run_events s = map Recv outs @ rest" "results = outs" "length outs = capacity s"
    "list_all no_error outs"
    using r by (auto simp: receiver_def receive_loop_Completed)
  let ?I = "mset (map in_key (map fst (run_jobs s)))"
  have sub: "mset (map out_key (outputs s)) \<subseteq># ?I"
  proof -
    have "mset (map in_key (ended s)) \<subseteq># ?I"
      using image_mset_subseteq_mono[OF ended_sub_inputs[of s], of in_key] by (simp only: mset_map)
    with inv show ?thesis unfolding inv_def using subset_mset.order_trans by blast
  qed
  have split: "outputs s = results @ (received rest @ run_chan s)" using o by (simp add: outputs_def)
  have "mset (map out_key results) \<subseteq># mset (map out_key (outputs s))"
    unfolding split map_append mset_append by (rule mset_subset_eq_add_left)
  then have "mset (map out_key results) \<subseteq># ?I" using sub by (rule subset_mset.order_trans)
  moreover have "size (mset (map out_key results)) = size ?I" using o by simp
  ultimately have "mset (map out_key results) = ?I" by (rule submset_same_size)
  then have "outputs_of rt new old results" unfolding outputs_of_def jobs by (simp add: comp_def)
  moreover have "list_all (genuine rt s) results" using inv split by (simp add: inv_def)
  ultimately show ?thesis using o by simp
qed

text \<open>Why an image of an admitted object was let through.\<close>

definition policy_accepts :: "'w Runtime \<Rightarrow> string \<Rightarrow> bool" where
  "policy_accepts rt s \<longleftrightarrow>
     (\<exists>img rule v img' d. resolved rt s img rule v \<and> SpecificValidator v img (rule_With rule) = Ret (img', Inr d))"

definition approved :: "'w Runtime \<Rightarrow> WorkloadObject \<Rightarrow> WorkloadObject \<Rightarrow> string \<Rightarrow> bool" where
  "approved rt new old s \<longleftrightarrow>
     FeatureFlagOn (rt_Env rt) AutomaticUnchangedApproval \<and> s \<in> images_of old \<or>
     FeatureFlagOn (rt_Env rt) AutomaticChildApproval \<and> BlockAllResources (rt_Env rt) \<and>
       (\<exists>imgs. ParentContainerImagesFromKubeAPI (rt_decode rt) (rt_KubeAPI rt) new = Ret imgs \<and> s \<in> set imgs)"

lemma genuine_accepted:
  assumes "genuine rt s out" "no_error out" "map fst (run_jobs s) = ValidateWorkloadObject rt new old"
    and "validators_ok rt" "rt_parse rt [] = Inl e"
  shows "policy_accepts rt (out_RawImage out) \<or> approved rt new old (out_RawImage out)"
proof -
  obtain input w m where i: "input \<in> fst ` set (run_jobs s)" "in_Image input = out_RawImage out"
    "cache_sound rt w" "oc_Sent (ValidateImage rt False input w m) = Some out"
    using assms(1) by (auto simp: genuine_def)
  have "input \<in> set (ValidateWorkloadObject rt new old)" using i(1) assms(3) by (metis list.set_map)
  then have prev: "set (in_PreviousImages input) = images_of old"
    and par: "in_ParentImages input = ParentContainerImagesFromKubeAPI (rt_decode rt) (rt_KubeAPI rt) new"
    unfolding ValidateWorkloadObject_def Let_def by (auto simp: set_ImageSet)
  from accepted_trusted[OF assms(4,5) i(3,4) assms(2)] show ?thesis
    unfolding policy_accepts_def approved_def unchanged_ok_def child_ok_def child_checked_def prev par i(2)
    by blast
qed

text \<open>
  An admission by a run of the webhook: the response is that of the results of all the goroutines,
  each of which comes from a sound cache and reports no error.
\<close>

lemma admission_results:
  assumes "cache_contract (rt_Cache rt)" and "validators_ok rt" and "cache_sound rt w" and "counters_ok m"
    and "NewAdmissionRequestObjects (rt_decode rt) ar = Ret (Inr aro)" and "\<not> wlo_Deleted (aro_OldObj aro)"
    and "reachable rt (init_run rt (aro_NewObj aro) (aro_OldObj aro) w m c) s"
    and "mutateReview rt ar (run_events s) = Ret (Some (resp, nv))" and "ars_Allowed resp"
  obtains results nv0 where "resp = fst (admit_response (aro_NewObj aro) (ar_UID ar) results nv0)"
    and "outputs_of rt (aro_NewObj aro) (aro_OldObj aro) results" and "list_all (genuine rt s) results"
    and "list_all no_error results" and "map fst (run_jobs s) = ValidateWorkloadObject rt (aro_NewObj aro) (aro_OldObj aro)"
proof -
  let ?nv = "init_values (Getenv (rt_Env rt) ''POD_NAME'') ar"
  note inv = reachable_inv[OF assms(7) inv_init[OF assms(3,4)] assms(1,2)]
  note jobs = reachable_init_inputs[OF assms(7)]
  have cap: "capacity s = length (ValidateWorkloadObject rt (aro_NewObj aro) (aro_OldObj aro))"
    using arg_cong[OF jobs, of length] by simp
  have conclude: "conclude_review ar aro ?nv (capacity s) (receiver s) = Some (resp, nv)"
    using assms(8) mutateReview_cases[OF assms(5,6)] by (simp add: receiver_def cap)
  with assms(9) obtain results where r: "receiver s = Completed results"
    by (cases "receiver s") (auto simp: conclude_review_def)
  have "resp = fst (admit_response (aro_NewObj aro) (ar_UID ar) results ?nv)"
    using conclude r by (simp add: conclude_review_def)
  with that completed_outputs[OF inv jobs r] jobs show ?thesis by blast
qed

section \<open>Every schedule ends\<close>

fun weight :: "phase \<Rightarrow> nat" where
  "weight Ready = 6"
| "weight (Looked p l (Some kv)) = 4"
| "weight (Looked p l None) = 2"
| "weight Ended = 0"

definition measure_run :: "'w run \<Rightarrow> nat" where
  "measure_run s = sum_list (map (weight \<circ> snd) (run_jobs s)) + length (run_chan s) +
     (if run_cancelled s then 0 else 1) + (if receiver s = Waiting then 1 else 0) + (if run_exited s then 0 else 1)"

lemma sum_list_update_less:
  "i < length js \<Longrightarrow> js ! i = j \<Longrightarrow> (f j' :: nat) < f j \<Longrightarrow>
   sum_list (map f (js[i := j'])) + f j = sum_list (map f js) + f j'"
proof (induction js arbitrary: i)
  case (Cons a js)
  then show ?case by (cases i) auto
qed simp

lemma receive_loop_more: "receive_loop cap results (es @ [e]) = Waiting \<Longrightarrow> receive_loop cap results es = Waiting"
  by (induction cap results es rule: receive_loop.induct) (auto split: if_split_asm recv_event.split_asm)

lemma receive_loop_done:
  "receive_loop cap results es = Waiting \<Longrightarrow> receive_loop cap results (es @ [CtxDone]) \<noteq> Waiting"
  by (induction cap results es rule: receive_loop.induct) (auto split: if_split_asm recv_event.split_asm)

lemma step_decreases:
  assumes "step rt s s'"
  shows "measure_run s' < measure_run s"
  using assms
proof (cases rule: step.cases)
  case (look i input p l call)
  have "weight (Looked p l call) < weight Ready" by (cases call) simp_all
  with sum_list_update_less[OF look(3,4), of "weight \<circ> snd" "(input, Looked p l call)"] look(1)
  show ?thesis by (simp add: measure_run_def receiver_def)
next
  case (store i input p l kv)
  from sum_list_update_less[OF store(3,4), of "weight \<circ> snd" "(input, Looked p l None)"] store(1)
  show ?thesis by (simp add: measure_run_def receiver_def)
next
  case (finish i input p l out m)
  from sum_list_update_less[OF finish(3,4), of "weight \<circ> snd" "(input, Ended)"] finish(1)
  show ?thesis by (simp add: measure_run_def receiver_def)
next
  case (give_up i input p l m)
  from sum_list_update_less[OF give_up(3,4), of "weight \<circ> snd" "(input, Ended)"] give_up(1)
  show ?thesis by (simp add: measure_run_def receiver_def)
next
  case (receive out rest)
  then show ?thesis by (simp add: measure_run_def receiver_def)
next
  case receive_done
  then show ?thesis using receive_loop_done by (simp add: measure_run_def receiver_def)
next
  case cancel
  then show ?thesis by (simp add: measure_run_def receiver_def)
next
  case exit
  then show ?thesis by (simp add: measure_run_def receiver_def)
qed

section \<open>No goroutine and no receiver is stuck\<close>

lemma ended_less:
  assumes "i < capacity s" "run_jobs s ! i = (input, x)" "x \<noteq> Ended"
  shows "length (ended s) < capacity s"
proof -
  have "run_jobs s ! i \<in> set (run_jobs s)" using assms(1) by simp
  then show ?thesis unfolding ended_def length_map
    using assms(2,3) by (intro length_filter_less[where x = "run_jobs s ! i"]) auto
qed

definition all_sent :: "'w run \<Rightarrow> bool" where
  "all_sent s \<longleftrightarrow> run_cancelled s \<or>
     length (outputs s) = length (ended s) \<and> CtxDone \<notin> set (run_events s)"

lemma length_ended: "length (ended s) = size (mset (ended s))"
  by simp

lemma all_sent_step:
  assumes "step rt s s'" "all_sent s"
  shows "all_sent s'"
  using assms(1)
proof (cases rule: step.cases)
  case (look i input p l call)
  have "mset (ended s') = mset (ended s)"
    using look mset_ended_same[OF look(3,4)] by (simp add: ended_def)
  then have "length (ended s') = length (ended s)" by (metis size_mset)
  with look(1) assms(2) show ?thesis by (simp add: all_sent_def outputs_def)
next
  case (store i input p l kv)
  have "mset (ended s') = mset (ended s)"
    using store mset_ended_same[OF store(3,4)] by (simp add: ended_def)
  then have "length (ended s') = length (ended s)" by (metis size_mset)
  with store(1) assms(2) show ?thesis by (simp add: all_sent_def outputs_def)
next
  case (finish i input p l out m)
  have "mset (ended s') = mset (ended s) + {#input#}"
    using finish mset_ended_add[OF finish(3,4)] by (simp add: ended_def)
  then have "length (ended s') = Suc (length (ended s))" by (metis size_mset size_add_mset add_mset_add_single)
  with finish(1) assms(2) show ?thesis by (simp add: all_sent_def outputs_def)
next
  case (receive out rest)
  with assms(2) show ?thesis by (simp add: all_sent_def outputs_def ended_def)
qed (use assms(2) in \<open>auto simp: all_sent_def outputs_def ended_def\<close>)

lemma all_sent_reachable: "reachable rt s0 s \<Longrightarrow> all_sent s0 \<Longrightarrow> all_sent s"
  by (induction rule: reachable.induct) (auto intro: all_sent_step)

lemma receive_loop_TimedOut: "receive_loop cap results es = TimedOut n \<Longrightarrow> CtxDone \<in> set es"
  by (induction cap results es rule: receive_loop.induct) (auto split: if_split_asm recv_event.split_asm)

lemma Recv_received: "Recv v \<in> set es \<Longrightarrow> v \<in> set (received es)"
  by (induction es rule: received.induct) auto

lemma receive_loop_Waiting:
  "receive_loop cap results es = Waiting \<Longrightarrow>
   \<exists>outs. es = map Recv outs \<and> length results + length outs < cap"
proof (induction cap results es rule: receive_loop.induct)
  case (2 cap results e es)
  then obtain out where e: "e = Recv out" "length results < cap" "no_error out"
    and w: "receive_loop cap (results @ [out]) es = Waiting"
    by (auto split: if_split_asm recv_event.split_asm)
  then obtain outs where "es = map Recv outs" "length (results @ [out]) + length outs < cap"
    using 2 by auto
  with e show ?case by (intro exI[of _ "out # outs"]) simp
qed (auto split: if_split_asm)

lemma deferred_sends: "\<exists>out m'. deferred parse False input l m = (Some out, m')"
  by (simp add: deferred_def Let_def)

lemma send_not_blocked:
  assumes "inv rt s" "i < capacity s" "run_jobs s ! i = (input, x)" "x \<noteq> Ended"
  shows "length (run_chan s) < capacity s"
  using length_outputs[OF assms(1)] ended_less[OF assms(2-4)] by (simp add: outputs_def)

text \<open>
  What keeps the goroutines of a request from a panic and from waiting forever: the validators return, the match of the
  rules does for every image, and so does the lookup of the parents where it is made.
\<close>

definition matching_returns :: "'w Runtime \<Rightarrow> WorkloadObject \<Rightarrow> WorkloadObject \<Rightarrow> bool" where
  "matching_returns rt new old \<longleftrightarrow> (\<forall>input \<in> set (ValidateWorkloadObject rt new old).
     (\<forall>img. New (rt_parse rt) (in_Image input) = Inr img \<longrightarrow>
        \<not> panics (MatchingRule (rt_glob rt) (rt_Config rt) (Name img))) \<and>
     (child_checked rt \<longrightarrow> \<not> panics (in_ParentImages input)))"

lemma validators_return_ok: "validators_return rt \<Longrightarrow> validators_ok rt"
  by (simp add: validators_return_def validators_ok_def validator_method_def)

lemma body_returns:
  assumes "validators_return rt" and "matching_returns rt new old" and "input \<in> set (ValidateWorkloadObject rt new old)"
  shows "fst (ValidateImage_body rt input w) = None"
proof (cases "New (rt_parse rt) (in_Image input)")
  case (Inl e)
  then show ?thesis by (simp add: ValidateImage_body_def)
next
  case img: (Inr img)
  then obtain x where x: "MatchingRule (rt_glob rt) (rt_Config rt) (Name img) = Ret x"
    using assms(2,3) unfolding matching_returns_def panics_iff by blast
  show ?thesis
  proof (cases "\<exists>rule v. x = Inr rule \<and> Config_Validator (rt_Config rt) (rule_Validator rule) = Inr v")
    case False
    then show ?thesis using img x
      by (cases x; cases "Config_Validator (rt_Config rt) (rule_Validator (projr x))") (simp_all add: ValidateImage_body_def)
  next
    case True
    then obtain rule v where rv: "x = Inr rule" "Config_Validator (rt_Config rt) (rule_Validator rule) = Inr v" by blast
    have r: "resolved rt (in_Image input) img rule v" using img x rv by (simp add: resolved_def)
    have "validator_method (SpecificValidator v)"
      using assms(1) resolved_image(3)[OF r] by (simp add: validators_return_def)
    from validator_method.returns[OF this] obtain img' res where
      v: "SpecificValidator v img (rule_With rule) = Ret (img', res)" by blast
    have body: "ValidateImage_body rt input w = validate_with rt input w img rule v"
      using img x rv by (simp add: ValidateImage_body_def)
    show ?thesis
    proof (cases "v_Type v = StaticValidatorType")
      case True
      then show ?thesis by (cases res) (simp_all add: body validate_with_def Validator_ValidateImage_def v Let_def)
    next
      case False
      have parents: "child_checked rt \<longrightarrow> \<not> panics (in_ParentImages input)" using assms(2,3) by (simp add: matching_returns_def)
      obtain sk where "Skip rt w img (in_PreviousImages input) (in_ParentImages input) = Ret sk"
        by (rule Skip_cases[OF resolved_image(1)[OF r], of rt w]) (use parents in auto)
      then show ?thesis using False by (simp add: body validate_with_def Validator_ValidateImage_def v Let_def)
    qed
  qed
qed

text \<open>Then no goroutine panics and the process does not end.\<close>

definition quiet :: "'w run \<Rightarrow> bool" where
  "quiet s \<longleftrightarrow> \<not> run_panicked s \<and> \<not> run_exited s \<and>
     list_all (\<lambda>j. case snd j of Looked p l call \<Rightarrow> p = None | _ \<Rightarrow> True) (run_jobs s)"

lemma quiet_nth: "quiet s \<Longrightarrow> i < capacity s \<Longrightarrow> run_jobs s ! i = (input, Looked p l call) \<Longrightarrow> p = None"
  by (auto simp: quiet_def list_all_length)

lemma quiet_step:
  assumes "validators_return rt" and "matching_returns rt new old"
    and "map fst (run_jobs s) = ValidateWorkloadObject rt new old" and "step rt s s'" and "quiet s"
  shows "quiet s'"
  using assms(4)
proof (cases rule: step.cases)
  case (look i input p l call)
  have "fst (run_jobs s ! i) \<in> set (map fst (run_jobs s))" using look(3) by simp
  then have "input \<in> set (ValidateWorkloadObject rt new old)" using look(4) assms(3) by simp
  from body_returns[OF assms(1,2) this, of "run_cache s"] have "p = None" using look(5) by simp
  then show ?thesis using assms(5) look(1) by (simp add: quiet_def list_all_update)
next
  case (store i input p l kv)
  then show ?thesis using assms(5) quiet_nth[OF assms(5) store(3,4)] by (simp add: quiet_def list_all_update)
next
  case (finish i input p l out m)
  then show ?thesis using assms(5) quiet_nth[OF assms(5) finish(3,4)] by (simp add: quiet_def list_all_update)
next
  case (give_up i input p l m)
  then show ?thesis using assms(5) quiet_nth[OF assms(5) give_up(3,4)] by (simp add: quiet_def list_all_update)
qed (use assms(5) in \<open>simp_all add: quiet_def\<close>)

lemma reachable_quiet:
  assumes "reachable rt s0 s" and "validators_return rt" and "matching_returns rt new old"
    and "map fst (run_jobs s0) = ValidateWorkloadObject rt new old" and "quiet s0"
  shows "quiet s"
  using assms(1)
proof (induction rule: reachable.induct)
  case start
  show ?case by (rule assms(5))
next
  case (next_step s s')
  then show ?case using quiet_step[OF assms(2,3)] reachable_inputs assms(4) by metis
qed

text \<open>Without a cancellation, a waiting receiver gets its next result or a goroutine moves.\<close>

lemma progress:
  assumes "inv rt s" "all_sent s" "receiver s = Waiting" "\<not> run_cancelled s" "quiet s"
    and "validators_return rt" "matching_returns rt new old" "map fst (run_jobs s) = ValidateWorkloadObject rt new old"
  shows "\<exists>s'. step rt s s' \<and> \<not> run_cancelled s'"
proof (cases "run_chan s")
  have alive: "\<not> run_exited s" using assms(5) by (simp add: quiet_def)
  have keep: "\<exists>s'. step rt s s' \<and> \<not> run_cancelled s'" if "step rt s s1" "run_cancelled s1 = run_cancelled s" for s1
    using that assms(4) by blast
  {
    case (Cons out rest)
    show ?thesis by (rule keep[OF step.receive[OF alive assms(3) Cons]]) simp
  next
    case Nil
    obtain outs where o: "run_events s = map Recv outs" "length outs < capacity s"
      using receive_loop_Waiting assms(3) by (fastforce simp: receiver_def)
    have "length (ended s) = length outs"
      using assms(2,4) o Nil by (simp add: all_sent_def outputs_def)
    with o(2) have less: "length (ended s) < capacity s" by simp
    have "\<not> (\<forall>j \<in> set (run_jobs s). snd j = Ended)"
    proof
      assume "\<forall>j \<in> set (run_jobs s). snd j = Ended"
      then have "filter (\<lambda>j. snd j = Ended) (run_jobs s) = run_jobs s" by (simp add: filter_id_conv)
      with less show False by (simp add: ended_def)
    qed
    then obtain i input x where i: "i < capacity s" "run_jobs s ! i = (input, x)" "x \<noteq> Ended"
      by (metis in_set_conv_nth prod.collapse)
    show ?thesis
    proof (cases x)
      case Ready
      obtain p l call where b: "ValidateImage_body rt input (run_cache s) = (p, l, call)"
        by (cases "ValidateImage_body rt input (run_cache s)")
      have "fst (run_jobs s ! i) \<in> set (map fst (run_jobs s))" using i(1) by simp
      then have "input \<in> set (ValidateWorkloadObject rt new old)" using i(2) assms(8) by simp
      from body_returns[OF assms(6,7) this, of "run_cache s"] have p: "p \<noteq> Some blocked" using b by simp
      show ?thesis by (rule keep[OF step.look[OF alive i(1) i(2)[unfolded Ready] b p]]) simp
    next
      case (Looked p l call)
      show ?thesis
      proof (cases call)
        case None
        obtain out m where d: "deferred (rt_parse rt) False input l (run_counters s) = (Some out, m)"
          using deferred_sends by blast
        note f = step.finish[OF alive i(1) i(2)[unfolded Looked None] d assms(4) send_not_blocked[OF assms(1) i]]
        show ?thesis by (rule keep[OF f]) simp
      next
        case (Some kv)
        show ?thesis by (rule keep[OF step.store[OF alive i(1) i(2)[unfolded Looked Some]]]) simp
      qed
    qed (use i(3) in simp)
  }
qed

lemma steps_wf: "wf {(s', s). step rt s s'}"
proof -
  have "{(s', s). step rt s s'} \<subseteq> measure measure_run" by (auto dest: step_decreases)
  then show ?thesis by (rule wf_subset[OF wf_measure])
qed

lemma reachable_trans: "reachable rt s1 s2 \<Longrightarrow> reachable rt s0 s1 \<Longrightarrow> reachable rt s0 s2"
  by (induction rule: reachable.induct) (auto intro: reachable.intros)

lemma init_all_sent: "all_sent (init_run rt new old w m c)"
  by (simp add: all_sent_def init_run_def outputs_def ended_def)

text \<open>The run of a request with one image, step by step.\<close>

lemma run_of_one:
  fixes rt :: "'w Runtime"
  assumes "ValidateWorkloadObject rt new old = [input]"
    and "oc_Sent (ValidateImage rt False input w m) = Some out" and "out_Error out = None"
  shows "\<exists>s. reachable rt (init_run rt new old w m False) s \<and> receiver s = Completed [out]"
proof -
  define st :: "phase \<Rightarrow> 'w \<Rightarrow> counters \<Rightarrow> ValidationOutput list \<Rightarrow> recv_event list \<Rightarrow> 'w run"
    where "st = (\<lambda>ph w m chan events. \<lparr>run_jobs = [(input, ph)], run_cache = w, run_counters = m,
    run_chan = chan, run_events = events, run_cancelled = False, run_panicked = False, run_exited = False\<rparr>)"
  obtain p l call m' where b: "ValidateImage_body rt input w = (p, l, call)"
    and d: "deferred (rt_parse rt) False input l m = (Some out, m')" and p: "p \<noteq> Some blocked"
    using assms(2) by (auto simp: oc_Sent_iff prod_eq_iff)
  let ?w = "run_store rt call w" and ?out = "\<lambda>s. s\<lparr>run_panicked := p \<noteq> None\<rparr>"
  have init: "init_run rt new old w m False = st Ready w m [] []" by (simp add: init_run_def st_def assms(1))
  have look: "step rt (st Ready w m [] []) (st (Looked p l call) w m [] [])"
    using step.look[of "st Ready w m [] []" 0 input rt p l call] b p by (simp add: st_def)
  have "reachable rt (st Ready w m [] []) (st (Looked p l None) ?w m [] [])"
  proof (cases call)
    case None
    then show ?thesis using reachable.next_step[OF reachable.start look] by (simp add: run_store_def)
  next
    case (Some kv)
    have "step rt (st (Looked p l call) w m [] []) (st (Looked p l None) ?w m [] [])"
      using step.store[of "st (Looked p l call) w m [] []" 0 input p l kv rt] Some by (simp add: st_def)
    then show ?thesis using look by (blast intro: reachable.intros)
  qed
  moreover have "step rt (st (Looked p l None) ?w m [] []) (?out (st Ended ?w m' [out] []))"
    using step.finish[of "st (Looked p l None) ?w m [] []" 0 input p l rt out m'] d by (simp add: st_def)
  moreover have "step rt (?out (st Ended ?w m' [out] [])) (?out (st Ended ?w m' [] [Recv out]))"
    using step.receive[of "?out (st Ended ?w m' [out] [])" out "[]" rt] by (simp add: st_def receiver_def)
  ultimately have "reachable rt (init_run rt new old w m False) (?out (st Ended ?w m' [] [Recv out]))"
    unfolding init by (blast intro: reachable.intros)
  moreover have "receiver (?out (st Ended ?w m' [] [Recv out])) = Completed [out]"
    by (simp add: receiver_def st_def assms(3))
  ultimately show ?thesis by blast
qed

definition allow_all :: Validator where
  "allow_all = \<lparr>v_Name = ''default'', v_Type = StaticValidatorType,
     SpecificValidator = StaticValidator_ValidateImage \<lparr>sv_Name = ''default'', sv_Type = ''static'', sv_Approve = True\<rparr>\<rparr>"

definition allow_runtime :: "store Runtime" where
  "allow_runtime = example_runtime allow_all"

definition create_request :: AdmissionRequest where
  "create_request = example_request\<lparr>ar_Operation := Create, ar_Object := ''img''\<rparr>"

definition create_objects :: AdmissionRequestObjects where
  "create_objects = \<lparr>aro_NewObj = empty_workload\<lparr>wlo_Name := ''web'', wlo_Kind := ''ReplicaSet'',
       wlo_Namespace := ''default'', wlo_Containers := [\<lparr>c_Image = ''img''\<rparr>]\<rparr>,
     aro_OldObj = empty_workload, aro_Kind = ''ReplicaSet'', aro_Namespace = ''default'', aro_Operation = Create\<rparr>"

abbreviation create_run_with :: "store Runtime \<Rightarrow> store run" where
  "create_run_with rt \<equiv> init_run rt (aro_NewObj create_objects) (aro_OldObj create_objects) (0, []) (\<lambda>c. 0) False"

abbreviation create_init :: "store run" where
  "create_init \<equiv> create_run_with allow_runtime"

lemma allow_ok:
  "cache_contract (rt_Cache allow_runtime)" "validators_ok allow_runtime" "cache_sound allow_runtime (0, [])"
  "rt_parse allow_runtime [] = Inl ''could not parse reference''" "counters_ok (\<lambda>c. 0)" "validators_return allow_runtime"
proof -
  show ret: "validators_return allow_runtime"
    using static.validator_method_axioms by (simp add: allow_runtime_def validators_return_def example_runtime_def allow_all_def)
  show "validators_ok allow_runtime" by (rule validators_return_ok[OF ret])
qed (simp_all add: allow_runtime_def example_cache_contract example_cache_sound example_parse_empty counters_ok_def)

lemma example_decoded:
  "NewAdmissionRequestObjects (rt_decode (example_runtime v)) create_request = Ret (Inr create_objects)"
  "\<not> wlo_Deleted (aro_OldObj create_objects)"
proof -
  have "NewAdmissionRequestObjects example_decoder create_request = Ret (Inr create_objects)" by code_simp
  then show "NewAdmissionRequestObjects (rt_decode (example_runtime v)) create_request = Ret (Inr create_objects)"
    by (simp add: example_runtime_def)
qed code_simp

lemmas create_objects_decoded = example_decoded(1)[where v = allow_all, folded allow_runtime_def] example_decoded(2)

definition create_input :: ValidationInput where
  "create_input = \<lparr>in_IdxsTypes = [\<lparr>idx_Index = 0, idx_Type = ''containers''\<rparr>], in_Image = ''img'',
     in_PreviousImages = [], in_ParentImages = Ret []\<rparr>"

lemma example_inputs:
  "ValidateWorkloadObject (example_runtime v) (aro_NewObj create_objects) (aro_OldObj create_objects) = [create_input]"
proof -
  have "ConsolidatedContainers (aro_NewObj create_objects) = [(''img'', [\<lparr>idx_Index = 0, idx_Type = ''containers''\<rparr>])]"
    and "ImageSet (aro_OldObj create_objects) = []" by code_simp+
  then show ?thesis
    by (simp add: ValidateWorkloadObject_def create_input_def ParentContainerImagesFromKubeAPI_def create_objects_def
        empty_workload_def example_runtime_def)
qed

lemmas create_inputs = example_inputs[where v = allow_all, folded allow_runtime_def]

text \<open>A validator of that name that accepts the image: the goroutine sends a result, the review is an admission.\<close>

lemma create_output:
  assumes "validators_ok (example_runtime v)" and "v_Name v = ''default''"
    and "SpecificValidator v example_image (rule_With (example_rule ''*:*'')) = Ret (img', Inr d)"
    and "res_ok (New example_parse (Name (SetDigest example_image d)))"
  shows "\<exists>out. oc_Sent (ValidateImage (example_runtime v) False create_input (0, []) m) = Some out \<and>
    out_Error out = None"
proof -
  let ?rt = "example_runtime v"
  have r: "resolved ?rt (in_Image create_input) example_image (example_rule ''*:*'') v"
    using example_resolved[OF assms(2)] by (simp add: example_input_def create_input_def)
  have "\<nexists>ce. cached ?rt (0, []) (in_Image create_input) ce"
    by (simp add: cached_def example_runtime_def Redis_Cacher_def Redis_Get_def NewRedis_def store_client_def store_get_def)
  moreover have "\<not> unchanged_ok ?rt create_input" "\<not> child_ok ?rt create_input" "\<not> panics (in_ParentImages create_input)"
    by (simp_all add: unchanged_ok_def child_ok_def create_input_def)
  ultimately have "evidence ?rt (0, []) create_input example_image (example_rule ''*:*'') v d"
    using assms(3) by (cases "v_Type v = StaticValidatorType") (auto intro: by_static by_validation)
  moreover have "rt_parse ?rt = example_parse" by (simp add: example_runtime_def)
  ultimately have "\<exists>img rule v' d'. resolved ?rt (in_Image create_input) img rule v' \<and>
      evidence ?rt (0, []) create_input img rule v' d' \<and> Name (SetDigest example_image d) = Name (SetDigest img d') \<and>
      res_ok (New (rt_parse ?rt) (Name (SetDigest example_image d)))" using r assms(4) by fastforce
  then show ?thesis unfolding accepts_iff[OF assms(1) example_parse_empty, symmetric, where m = m] by blast
qed

lemma example_run:
  assumes "validators_ok (example_runtime v)" and "v_Name v = ''default''"
    and "SpecificValidator v example_image (rule_With (example_rule ''*:*'')) = Ret (img', Inr d)"
    and "res_ok (New example_parse (Name (SetDigest example_image d)))"
  shows "\<exists>s results. reachable (example_runtime v) (create_run_with (example_runtime v)) s \<and>
    receiver s = Completed results"
proof -
  from create_output[OF assms] obtain out where
    "oc_Sent (ValidateImage (example_runtime v) False create_input (0, []) (\<lambda>c. 0)) = Some out" "out_Error out = None" by blast
  from run_of_one[OF example_inputs this] show ?thesis by blast
qed

lemma example_review:
  assumes "validators_ok (example_runtime v)" and "v_Name v = ''default''"
    and "SpecificValidator v example_image (rule_With (example_rule ''*:*'')) = Ret (img', Inr d)"
    and "res_ok (New example_parse (Name (SetDigest example_image d)))"
  obtains s resp nv where "reachable (example_runtime v) (create_run_with (example_runtime v)) s" and "ars_Allowed resp"
    and "mutateReview (example_runtime v) create_request (run_events s) = Ret (Some (resp, nv))"
proof -
  obtain s results where s: "reachable (example_runtime v) (create_run_with (example_runtime v)) s"
    "receiver s = Completed results" using example_run[OF assms] by blast
  have cap: "capacity s =
      length (ValidateWorkloadObject (example_runtime v) (aro_NewObj create_objects) (aro_OldObj create_objects))"
    using arg_cong[OF reachable_init_inputs[OF s(1)], of length] by simp
  let ?nv = "init_values (Getenv (rt_Env (example_runtime v)) ''POD_NAME'') create_request"
  let ?r = "admit_response (aro_NewObj create_objects) (ar_UID create_request) results ?nv"
  have "mutateReview (example_runtime v) create_request (run_events s) = Ret (Some (fst ?r, snd ?r))"
    using mutateReview_cases[OF example_decoded] s(2) by (simp add: receiver_def cap conclude_review_def)
  from that[OF s(1) admit_response_ok(3) this] show ?thesis .
qed

lemma allow_all_accepts:
  "validators_ok (example_runtime allow_all)" "v_Name allow_all = ''default''"
  "SpecificValidator allow_all example_image (rule_With (example_rule ''*:*'')) = Ret (example_image, Inr (Digest example_image))"
  "res_ok (New example_parse (Name (SetDigest example_image (Digest example_image))))"
proof -
  show "validators_ok (example_runtime allow_all)" using allow_ok(2) by (simp add: allow_runtime_def)
  show "res_ok (New example_parse (Name (SetDigest example_image (Digest example_image))))" by code_simp
qed (simp_all add: allow_all_def StaticValidator_ValidateImage_def)

lemmas create_run = example_run[OF allow_all_accepts, folded allow_runtime_def]

lemmas create_review = example_review[OF allow_all_accepts, folded allow_runtime_def]

section \<open>Properties\<close>

text \<open>
  C14 (invariant). Concurrency does not break the shared state: in every state that any interleaving
  of the goroutines of a request reaches, the cache holds no digest that a validator has not
  returned, and the validation counters agree with each other.
\<close>
theorem interleaving_keeps_state_sound:
  assumes "cache_contract (rt_Cache rt)" and "validators_ok rt" and "cache_sound rt w" and "counters_ok m"
    and "reachable rt (init_run rt new old w m c) s"
  shows "cache_sound rt (run_cache s) \<and> counters_ok (run_counters s)"
  using reachable_inv[OF assms(5) inv_init[OF assms(3,4)] assms(1,2)] by (simp add: inv_def)

theorem interleaving_keeps_state_sound_witness:
  "\<exists>s. reachable allow_runtime create_init s \<and> receiver s \<noteq> Waiting \<and>
     cache_sound allow_runtime (run_cache s) \<and> counters_ok (run_counters s)"
proof -
  obtain s results where s: "reachable allow_runtime create_init s" "receiver s = Completed results"
    using create_run by blast
  from interleaving_keeps_state_sound[OF allow_ok(1,2,3,5) s(1)] s show ?thesis by auto
qed

text \<open>
  C17 (bounds). The channel has room for every result: whenever a goroutine has still to send, fewer
  results than the capacity are buffered, so no send blocks and no goroutine is left behind, also
  after the receiver has returned early.
\<close>
theorem send_never_blocks:
  assumes "cache_contract (rt_Cache rt)" and "validators_ok rt" and "cache_sound rt w" and "counters_ok m"
    and "reachable rt (init_run rt new old w m c) s"
    and "i < capacity s" and "run_jobs s ! i = (input, x)" and "x \<noteq> Ended"
  shows "length (run_chan s) < capacity s"
  using send_not_blocked[OF reachable_inv[OF assms(5) inv_init[OF assms(3,4)] assms(1,2)] assms(6-8)] .

theorem send_never_blocks_witness:
  "length (run_chan create_init) < capacity create_init"
proof -
  obtain input js where j: "run_jobs create_init = (input, Ready) # js"
    using create_inputs by (auto simp: init_run_def)
  then have "0 < capacity create_init" "run_jobs create_init ! 0 = (input, Ready)" by simp_all
  from send_never_blocks[OF allow_ok(1,2,3,5) reachable.start this] show ?thesis by simp
qed

text \<open>
  C15 (liveness). A request is decided without the help of its timeout: if the validators return, and matching the rules
  and looking up the parents do not panic for the images of the object, then no goroutine panics,
  no schedule of the goroutines and the receive loop goes on forever, and wherever a schedule without a
  cancellation has got to and nothing but a cancellation can happen any more, the receive loop has
  ended with its decision.
\<close>
theorem decision_without_timeout:
  assumes "cache_contract (rt_Cache rt)" and "validators_return rt" and "matching_returns rt new old"
    and "cache_sound rt w" and "counters_ok m" and "reachable rt (init_run rt new old w m c) s"
  shows "\<not> run_panicked s \<and> \<not> run_exited s \<and>
    (\<nexists>run. run 0 = s \<and> (\<forall>i. step rt (run i) (run (Suc i)))) \<and>
    (\<forall>s'. reachable rt s s' \<and> \<not> run_cancelled s' \<and> (\<forall>s2. step rt s' s2 \<longrightarrow> run_cancelled s2) \<longrightarrow>
       receiver s' \<noteq> Waiting)"
proof -
  have init: "map fst (run_jobs (init_run rt new old w m c)) = ValidateWorkloadObject rt new old"
    "quiet (init_run rt new old w m c)"
    by (simp_all add: init_run_def comp_def quiet_def list_all_iff)
  have "receiver s' \<noteq> Waiting"
    if "reachable rt s s'" "\<not> run_cancelled s'" "\<forall>s2. step rt s' s2 \<longrightarrow> run_cancelled s2" for s'
  proof
    assume w: "receiver s' = Waiting"
    note r = reachable_trans[OF that(1) assms(6)]
    note inv = reachable_inv[OF r inv_init[OF assms(4,5)] assms(1) validators_return_ok[OF assms(2)]]
    from progress[OF inv all_sent_reachable[OF r init_all_sent] w that(2) reachable_quiet[OF r assms(2,3) init] assms(2,3)
        reachable_init_inputs[OF r]] that(3) show False by blast
  qed
  moreover have "\<nexists>run. run 0 = s \<and> (\<forall>i. step rt (run i) (run (Suc i)))"
    using steps_wf[of rt] unfolding wf_iff_no_infinite_down_chain by blast
  ultimately show ?thesis using reachable_quiet[OF assms(6,2,3) init] by (simp add: quiet_def)
qed

lemma create_matching: "matching_returns allow_runtime (aro_NewObj create_objects) (aro_OldObj create_objects)"
proof -
  have img: "New (rt_parse allow_runtime) (in_Image create_input) = Inr img \<Longrightarrow> img = Validation.example_image" for img
    using example_resolved[of allow_all] unfolding resolved_def
    by (simp add: allow_runtime_def allow_all_def example_input_def create_input_def)
  have "\<not> panics (MatchingRule (rt_glob allow_runtime) (rt_Config allow_runtime) (Name Validation.example_image))"
    using example_resolved[of allow_all] unfolding resolved_def by (simp add: allow_runtime_def allow_all_def)
  with img show ?thesis by (auto simp: matching_returns_def create_inputs) (simp add: create_input_def)
qed

theorem decision_without_timeout_witness:
  "\<not> run_panicked create_init \<and> (\<nexists>run. run 0 = create_init \<and> (\<forall>i. step allow_runtime (run i) (run (Suc i))))"
  using decision_without_timeout[OF allow_ok(1,6) create_matching allow_ok(3,5) reachable.start] by blast

text \<open>
  The order in which results arrive does not matter for an admission: for the same
  results in another order the response admits with a patch of the same operations, and the
  notification has the same result.
\<close>
theorem admission_order_irrelevant:
  assumes "mset results = mset results'"
  shows "mset (concat (map (output_ops wlo) results)) = mset (concat (map (output_ops wlo) results')) \<and>
    (ars_Patch (fst (admit_response wlo uid results nv)) = None \<longleftrightarrow>
     ars_Patch (fst (admit_response wlo uid results' nv)) = None) \<and>
    nv_Result (snd (admit_response wlo uid results nv)) = nv_Result (snd (admit_response wlo uid results' nv))"
proof -
  have ops: "mset (concat (map (output_ops wlo) results)) = mset (concat (map (output_ops wlo) results'))"
    by (rule mset_concat_map_cong[OF assms])
  then have none: "concat (map (output_ops wlo) results) = [] \<longleftrightarrow> concat (map (output_ops wlo) results') = []"
    by (metis mset_zero_iff)
  have "list_all out_Skipped results = list_all out_Skipped results'"
    using mset_eq_setD[OF assms] by (simp add: list_all_iff)
  then show ?thesis
    using ops none unfolding admit_response_patch Let_def by (simp add: admit_response_def Let_def)
qed

theorem admission_order_irrelevant_witness:
  "nv_Result (snd (admit_response example_pod ''1'' [example_output, example_output\<lparr>out_Skipped := True\<rparr>] (init_values ''pod-0'' example_request))) =
   nv_Result (snd (admit_response example_pod ''1'' [example_output\<lparr>out_Skipped := True\<rparr>, example_output] (init_values ''pod-0'' example_request)))"
  using admission_order_irrelevant[of "[example_output, example_output\<lparr>out_Skipped := True\<rparr>]"
      "[example_output\<lparr>out_Skipped := True\<rparr>, example_output]"] by (simp add: add_mset_commute)

end
