(* ===== verification/Cosign.thy ===== *)
theory Cosign
  imports Trust_Auth Validator_Iface Json
begin

text \<open>
  Package \<open>internal/validator/cosignvalidator\<close>: the Cosign validator (\<open>cosign_validator.go\<close>) and
  the verifiers of its trust roots (\<open>verifiers.go\<close>). The values of the sigstore, x509 and registry
  libraries (references, certificate pools, log keys, clients, keys, signatures) are opaque, of one
  type \<open>'o\<close>, and the functions of these libraries are the record \<open>cosign_ext\<close>. The goroutines that
  verify one trust root each send one output into a channel; \<open>sched\<close> is the order in which the
  receive loop sees these outputs.
\<close>

section \<open>Definitions\<close>

subsection \<open>Types\<close>

record 'o CosignValidator =
  cv_Name :: string
  cv_Type :: string
  cv_Rekor :: 'o
  cv_rekorPubkey :: "'o option"
  cv_fulcioCert :: "'o option"
  cv_ctLogPubkey :: "'o option"
  cv_Cert :: "'o option"
  cv_Auth :: Auth
  cv_TrustRoots :: "TrustRoot list"

record CosignValidatorYaml =
  cy_Name :: string
  cy_Type :: string
  cy_HostRekor :: string
  cy_HostRekorPubkey :: string
  cy_HostFulcioCert :: string
  cy_HostCTLogPubkey :: string
  cy_Cert :: string
  cy_Auth :: Auth
  cy_TrustRoots :: "TrustRoot list"

record CosignPayloadIdentity =
  cp_DockerReference :: string

record CosignPayloadImage =
  cp_Digest :: string

record CosignPayloadCritical =
  cp_Identity :: CosignPayloadIdentity
  cp_Image :: CosignPayloadImage
  cp_Type :: string

record CosignPayload =
  cp_Critical :: CosignPayloadCritical
  cp_Optional :: "(string \<times> string) list"

record 'o verifierOutput =
  vo_checkedSignatures :: "'o list"
  vo_err :: "string option"
  vo_propagationErr :: "string option"
  vo_validatingTrustRoot :: string

text \<open>\<open>cosign.Identity\<close> and the fields of \<open>cosign.CheckOpts\<close> and its registry options that are set.\<close>

record Identity =
  id_Issuer :: string
  id_Subject :: string
  id_IssuerRegExp :: string
  id_SubjectRegExp :: string

record 'o CheckOpts =
  co_IgnoreTlog :: bool
  co_IgnoreSCT :: bool
  co_KubernetesKeychain :: bool
  co_AuthConfig :: AuthEntry
  co_TLSRootCAs :: "'o option"
  co_RekorClient :: "'o option"
  co_RekorPubKeys :: "'o option"
  co_CTLogPubKeys :: "'o option"
  co_SigVerifier :: "'o option"
  co_RootCerts :: "'o option"
  co_IntermediateCerts :: "'o option"
  co_Identities :: "Identity list"

record 'o Verifier =
  vf_Name :: string
  vf_KeyVerifier :: "'o option"
  vf_KeylessVerifier :: Identity

text \<open>
  The libraries: the reference without attachment, the Rekor client, log keys and certificate pools
  from PEM text, the keys and certificates of the public sigstore instance, the public keys
  of trust roots, the verification and the payload of signatures, the text of a reference.
\<close>

record 'o cosign_ext =
  ce_AttachedImageRef :: "Image \<Rightarrow> 'o"
  ce_NewRekorClient :: "string \<Rightarrow> 'o res"
  ce_AddLogPubKey :: "string \<Rightarrow> 'o res"
  ce_CertsFromPEM :: "string \<Rightarrow> 'o option"
  ce_GetRekorPubs :: "'o res"
  ce_GetCTLogPubs :: "'o res"
  ce_GetRoots :: "'o res"
  ce_GetIntermediates :: "'o res"
  ce_LoadPublicKeyRaw :: "string \<Rightarrow> 'o res"
  ce_PublicKeyFromKeyRef :: "string \<Rightarrow> 'o res"
  ce_VerifyImageSignatures :: "'o \<Rightarrow> 'o CheckOpts \<Rightarrow> 'o list res"
  ce_Payload :: "'o \<Rightarrow> string res"
  ce_RefString :: "'o \<Rightarrow> string"

subsection \<open>The payload of a signature\<close>

text \<open>
  \<open>json.Unmarshal\<close> into the payload. Member names match without regard to case, where besides the
  ASCII letters the long s folds to \<open>s\<close> and the Kelvin sign to \<open>k\<close>; a null leaves a field as it is,
  unknown members are ignored, and a value of another type is an error.
\<close>

fun fold_field :: "string \<Rightarrow> string" where
  "fold_field [] = []"
| "fold_field (a # s) =
     (if byte a = 197 \<and> s \<noteq> [] \<and> byte (hd s) = 191 then CHR ''s'' # fold_field (drop 1 s)
      else if byte a = 226 \<and> map byte (take 2 s) = [132, 170] then CHR ''k'' # fold_field (drop 2 s)
      else lower_byte a # fold_field s)"

fun assign_struct ::
  "(string \<Rightarrow> json \<Rightarrow> 'r \<Rightarrow> 'r res) \<Rightarrow> (string \<times> json) list \<Rightarrow> 'r \<Rightarrow> 'r res" where
  "assign_struct field [] r = Inr r"
| "assign_struct field ((k, v) # ms) r =
     (case field (fold_field k) v r of Inl err \<Rightarrow> Inl err | Inr r' \<Rightarrow> assign_struct field ms r')"

definition decode_struct ::
  "(string \<Rightarrow> json \<Rightarrow> 'r \<Rightarrow> 'r res) \<Rightarrow> json \<Rightarrow> 'r \<Rightarrow> 'r res" where
  "decode_struct field v r =
     (case v of
        JObject ms \<Rightarrow> assign_struct field ms r
      | JNull \<Rightarrow> Inr r
      | _ \<Rightarrow> Inl ''json: cannot unmarshal into struct'')"

definition decode_string :: "json \<Rightarrow> string \<Rightarrow> string res" where
  "decode_string v s =
     (case v of JString x \<Rightarrow> Inr x | JNull \<Rightarrow> Inr s | _ \<Rightarrow> Inl ''json: cannot unmarshal into string'')"

definition identity_field :: "string \<Rightarrow> json \<Rightarrow> CosignPayloadIdentity \<Rightarrow> CosignPayloadIdentity res" where
  "identity_field n v r =
     (if n = ''docker-reference''
      then map_sum id (\<lambda>x. r\<lparr>cp_DockerReference := x\<rparr>) (decode_string v (cp_DockerReference r))
      else Inr r)"

definition image_field :: "string \<Rightarrow> json \<Rightarrow> CosignPayloadImage \<Rightarrow> CosignPayloadImage res" where
  "image_field n v r =
     (if n = ''docker-manifest-digest''
      then map_sum id (\<lambda>x. r\<lparr>cp_Digest := x\<rparr>) (decode_string v (cp_Digest r))
      else Inr r)"

definition critical_field :: "string \<Rightarrow> json \<Rightarrow> CosignPayloadCritical \<Rightarrow> CosignPayloadCritical res" where
  "critical_field n v r =
     (if n = ''identity''
      then map_sum id (\<lambda>x. r\<lparr>cp_Identity := x\<rparr>) (decode_struct identity_field v (cp_Identity r))
      else if n = ''image''
      then map_sum id (\<lambda>x. r\<lparr>cp_Image := x\<rparr>) (decode_struct image_field v (cp_Image r))
      else if n = ''type''
      then map_sum id (\<lambda>x. r\<lparr>cp_Type := x\<rparr>) (decode_string v (cp_Type r))
      else Inr r)"

text \<open>A map of strings: entries are added to the map, a null entry is the empty string.\<close>

fun assign_map :: "(string \<times> json) list \<Rightarrow> (string \<times> string) list \<Rightarrow> (string \<times> string) list res" where
  "assign_map [] m = Inr m"
| "assign_map ((k, v) # ms) m =
     (case decode_string v [] of Inl err \<Rightarrow> Inl err | Inr x \<Rightarrow> assign_map ms (map_put k x m))"

definition payload_field :: "string \<Rightarrow> json \<Rightarrow> CosignPayload \<Rightarrow> CosignPayload res" where
  "payload_field n v r =
     (if n = ''critical''
      then map_sum id (\<lambda>x. r\<lparr>cp_Critical := x\<rparr>) (decode_struct critical_field v (cp_Critical r))
      else if n = ''optional''
      then (case v of
              JObject ms \<Rightarrow> map_sum id (\<lambda>x. r\<lparr>cp_Optional := x\<rparr>) (assign_map ms (cp_Optional r))
            | JNull \<Rightarrow> Inr (r\<lparr>cp_Optional := []\<rparr>)
            | _ \<Rightarrow> Inl ''json: cannot unmarshal into map'')
      else Inr r)"

definition zero_CosignPayload :: CosignPayload where
  "zero_CosignPayload =
     \<lparr>cp_Critical = \<lparr>cp_Identity = \<lparr>cp_DockerReference = []\<rparr>, cp_Image = \<lparr>cp_Digest = []\<rparr>, cp_Type = []\<rparr>,
      cp_Optional = []\<rparr>"

definition Unmarshal_CosignPayload :: "string \<Rightarrow> CosignPayload res" where
  "Unmarshal_CosignPayload s =
     (case parse_json s of
        None \<Rightarrow> Inl ''invalid json''
      | Some v \<Rightarrow> decode_struct payload_field v zero_CosignPayload)"

subsection \<open>UnmarshalYAML\<close>

abbreviation DefaultRekorHost :: string where
  "DefaultRekorHost \<equiv> ''https://rekor.sigstore.dev''"

text \<open>An optional value of the configuration: none for an empty text, otherwise loaded or an error.\<close>

definition load_unless_empty :: "(string \<Rightarrow> 'a res) \<Rightarrow> string \<Rightarrow> 'a option res" where
  "load_unless_empty load s = (if s \<noteq> [] then map_sum id Some (load s) else Inr None)"

definition CosignValidator_UnmarshalYAML ::
  "'o cosign_ext \<Rightarrow> CosignValidatorYaml res \<Rightarrow> 'o CosignValidator res" where
  "CosignValidator_UnmarshalYAML ce unmarshalled =
     (case unmarshalled of
        Inl err \<Rightarrow> Inl err
      | Inr valData \<Rightarrow>
     (let host = (if cy_HostRekor valData = [] then DefaultRekorHost else cy_HostRekor valData);
          logKey = (\<lambda>what s. case ce_AddLogPubKey ce s of
             Inl err \<Rightarrow> Inl (''error adding '' @ what @ '' public key: '' @ err) | Inr k \<Rightarrow> Inr k);
          certs = (\<lambda>what s. case ce_CertsFromPEM ce s of
             None \<Rightarrow> Inl (''invalid '' @ what @ ''certificate for validator '' @ cy_Name valData)
           | Some c \<Rightarrow> Inr c)
      in case ce_NewRekorClient ce host of
        Inl err \<Rightarrow> Inl (''unable to create Rekor client for '' @ host @ '': '' @ err)
      | Inr rekorClient \<Rightarrow>
     (case load_unless_empty (logKey ''rekor'') (cy_HostRekorPubkey valData) of
        Inl err \<Rightarrow> Inl err
      | Inr rekorPub \<Rightarrow>
      if length (cy_TrustRoots valData) < 1
      then Inl (''no trust roots provided for validator '' @ cy_Name valData)
      else
     (case load_unless_empty (certs []) (cy_Cert valData) of
        Inl err \<Rightarrow> Inl err
      | Inr cert \<Rightarrow>
     (case load_unless_empty (certs ''fulcio '') (cy_HostFulcioCert valData) of
        Inl err \<Rightarrow> Inl err
      | Inr fulcioCert \<Rightarrow>
     (case load_unless_empty (logKey ''ct log'') (cy_HostCTLogPubkey valData) of
        Inl err \<Rightarrow> Inl err
      | Inr ctPub \<Rightarrow>
          Inr \<lparr>cv_Name = cy_Name valData, cv_Type = cy_Type valData, cv_Rekor = rekorClient,
               cv_rekorPubkey = rekorPub, cv_fulcioCert = fulcioCert, cv_ctLogPubkey = ctPub,
               cv_Cert = cert, cv_Auth = cy_Auth valData, cv_TrustRoots = cy_TrustRoots valData\<rparr>))))))"

subsection \<open>verifiers.go\<close>

definition zero_Identity :: Identity where
  "zero_Identity = \<lparr>id_Issuer = [], id_Subject = [], id_IssuerRegExp = [], id_SubjectRegExp = []\<rparr>"

definition LoadVerifier :: "'o cosign_ext \<Rightarrow> TrustRoot \<Rightarrow> 'o Verifier res" where
  "LoadVerifier ce trustRoot =
     (let kl = tr_Keyless trustRoot;
          verifier = (\<lambda>key identity. \<lparr>vf_Name = tr_Name trustRoot, vf_KeyVerifier = key,
                        vf_KeylessVerifier = identity\<rparr>)
      in if tr_Key trustRoot \<noteq> []
         then map_sum id (\<lambda>k. verifier (Some k) zero_Identity)
                (if HasPrefix (tr_Key trustRoot) ''-----BEGIN PUBLIC KEY-----''
                 then ce_LoadPublicKeyRaw ce (tr_Key trustRoot)
                 else ce_PublicKeyFromKeyRef ce (tr_Key trustRoot))
         else if (kl_Issuer kl \<noteq> [] \<or> kl_IssuerRegex kl \<noteq> []) \<and> (kl_Subject kl \<noteq> [] \<or> kl_SubjectRegex kl \<noteq> [])
         then Inr (verifier None
                \<lparr>id_Issuer = kl_Issuer kl, id_Subject = kl_Subject kl,
                 id_IssuerRegExp = kl_IssuerRegex kl, id_SubjectRegExp = kl_SubjectRegex kl\<rparr>)
         else Inl ''no public key or keyless configuration found'')"

subsection \<open>Options and verifiers of a validation\<close>

definition getRekorPubKey :: "'o cosign_ext \<Rightarrow> 'o CosignValidator \<Rightarrow> 'o res" where
  "getRekorPubKey ce cv =
     (case cv_rekorPubkey cv of
        Some k \<Rightarrow> Inr k
      | None \<Rightarrow>
          (case ce_GetRekorPubs ce of
             Inl err \<Rightarrow> Inl (''error getting rekor public keys: '' @ err)
           | Inr pubs \<Rightarrow> Inr pubs))"

definition getCTLogPubKeys :: "'o cosign_ext \<Rightarrow> 'o CosignValidator \<Rightarrow> 'o res" where
  "getCTLogPubKeys ce cv = (case cv_ctLogPubkey cv of Some k \<Rightarrow> Inr k | None \<Rightarrow> ce_GetCTLogPubs ce)"

definition getFulcioCerts ::
  "'o cosign_ext \<Rightarrow> 'o CosignValidator \<Rightarrow> ('o option \<times> 'o option) res" where
  "getFulcioCerts ce cv =
     (case cv_fulcioCert cv of
        Some c \<Rightarrow> Inr (Some c, None)
      | None \<Rightarrow>
     (case ce_GetRoots ce of
        Inl err \<Rightarrow> Inl (''error getting fulcio roots: '' @ err)
      | Inr root \<Rightarrow>
     (case ce_GetIntermediates ce of
        Inl err \<Rightarrow> Inl (''error getting fulcio intermediates: '' @ err)
      | Inr intermediate \<Rightarrow> Inr (Some root, Some intermediate))))"

definition boolOrDefault :: "bool option \<Rightarrow> bool \<Rightarrow> bool" where
  "boolOrDefault b dflt = (case b of None \<Rightarrow> dflt | Some x \<Rightarrow> x)"

definition setupOptions ::
  "'o cosign_ext \<Rightarrow> 'o CosignValidator \<Rightarrow> RuleOptions \<Rightarrow> Image \<Rightarrow> 'o CheckOpts res" where
  "setupOptions ce cv args img =
     (let verifyTlog = boolOrDefault (ro_VerifyTLog args) True;
          verifySCT = boolOrDefault (ro_VerifySCT args) True;
          opts = \<lparr>co_IgnoreTlog = \<not> verifyTlog, co_IgnoreSCT = \<not> verifySCT,
                  co_KubernetesKeychain = UseKeychain (cv_Auth cv),
                  co_AuthConfig = LookUp (cv_Auth cv) (repo_Name (Context img)),
                  co_TLSRootCAs = cv_Cert cv, co_RekorClient = None, co_RekorPubKeys = None,
                  co_CTLogPubKeys = None, co_SigVerifier = None, co_RootCerts = None,
                  co_IntermediateCerts = None, co_Identities = []\<rparr>
      in case (if verifyTlog
               then map_sum id (\<lambda>pubs. opts\<lparr>co_RekorClient := Some (cv_Rekor cv), co_RekorPubKeys := Some pubs\<rparr>)
                      (getRekorPubKey ce cv)
               else Inr opts) of
           Inl err \<Rightarrow> Inl err
         | Inr opts \<Rightarrow>
             if verifySCT
             then (case getCTLogPubKeys ce cv of
                     Inl err \<Rightarrow> Inl (''error getting ct log public keys: '' @ err)
                   | Inr ctPubs \<Rightarrow> Inr (opts\<lparr>co_CTLogPubKeys := Some ctPubs\<rparr>))
             else Inr opts)"

fun load_verifiers :: "'o cosign_ext \<Rightarrow> TrustRoot list \<Rightarrow> 'o Verifier list res" where
  "load_verifiers ce [] = Inr []"
| "load_verifiers ce (trustedKey # ks) =
     (case LoadVerifier ce trustedKey of
        Inl err \<Rightarrow> Inl err
      | Inr verifier \<Rightarrow> map_sum id (\<lambda>vs. verifier # vs) (load_verifiers ce ks))"

definition verifiers :: "'o cosign_ext \<Rightarrow> 'o CosignValidator \<Rightarrow> string list \<Rightarrow> 'o Verifier list res" where
  "verifiers ce cv keyRefs =
     (case GetTrustRoots keyRefs (cv_TrustRoots cv) True of
        Inl err \<Rightarrow> Inl (''error getting trust roots for validator '' @ cv_Name cv @ '': '' @ err)
      | Inr trustRootsKeys \<Rightarrow> load_verifiers ce trustRootsKeys)"

subsection \<open>ValidateImage\<close>

text \<open>The goroutine of one trust root: what it sends.\<close>

definition verifier_options ::
  "'o cosign_ext \<Rightarrow> 'o CosignValidator \<Rightarrow> 'o CheckOpts \<Rightarrow> 'o Verifier \<Rightarrow> 'o CheckOpts res" where
  "verifier_options ce cv opts verifier =
     (case vf_KeyVerifier verifier of
        Some k \<Rightarrow> Inr (opts\<lparr>co_SigVerifier := Some k\<rparr>)
      | None \<Rightarrow>
          map_sum id
            (\<lambda>(root, intermediate).
               opts\<lparr>co_RootCerts := root, co_IntermediateCerts := intermediate,
                    co_Identities := co_Identities opts @ [vf_KeylessVerifier verifier]\<rparr>)
            (getFulcioCerts ce cv))"

definition validateWithVerifier ::
  "'o cosign_ext \<Rightarrow> 'o CosignValidator \<Rightarrow> 'o \<Rightarrow> 'o CheckOpts \<Rightarrow> 'o Verifier \<Rightarrow> 'o verifierOutput" where
  "validateWithVerifier ce cv imageRef opts verifier =
     (let output = (\<lambda>sigs err perr name. \<lparr>vo_checkedSignatures = sigs, vo_err = err,
                      vo_propagationErr = perr, vo_validatingTrustRoot = name\<rparr>)
      in case verifier_options ce cv opts verifier of
        Inl err \<Rightarrow> output [] (Some err) None []
      | Inr opts \<Rightarrow>
          (case ce_VerifyImageSignatures ce imageRef opts of
             Inl err \<Rightarrow>
               if HasPrefix err ''image tag not found:''
               then output [] (Some (''image '' @ ce_RefString ce imageRef @ '' does not exist: '' @ err)) None []
               else output [] None (Some err) []
           | Inr validSignatures \<Rightarrow> output validSignatures None None (vf_Name verifier)))"

definition trust_root_references :: "'o CosignValidator \<Rightarrow> RuleOptions \<Rightarrow> string list" where
  "trust_root_references cv args =
     (if ro_TrustRoot args = ''*'' \<and>
         (ro_Threshold args > int (length (ro_Required args)) \<or> length (ro_Required args) = 0)
      then Map (cv_TrustRoots cv) tr_Name
      else if ro_TrustRoot args = ''*'' \<and> length (ro_Required args) > 0 then ro_Required args
      else [ro_TrustRoot args])"

text \<open>
  The receive loop: \<^const>\<open>None\<close> if it waits forever, because fewer outputs are sent than it
  receives; otherwise the first error, or everything collected.
\<close>

record 'o collected =
  col_Signatures :: "'o list"
  col_TrustRoots :: "string list"
  col_Errors :: "string list"

fun collect :: "nat \<Rightarrow> 'o verifierOutput list \<Rightarrow> 'o collected \<Rightarrow> 'o collected res option" where
  "collect 0 outputs c = Some (Inr c)"
| "collect (Suc n) [] c = None"
| "collect (Suc n) (output # outputs) c =
     (case vo_err output of
        Some err \<Rightarrow> Some (Inl err)
      | None \<Rightarrow>
          collect n outputs
            \<lparr>col_Signatures = col_Signatures c @ vo_checkedSignatures output,
             col_TrustRoots = col_TrustRoots c @ [vo_validatingTrustRoot output],
             col_Errors = (case vo_propagationErr output of
                             None \<Rightarrow> col_Errors c | Some err \<Rightarrow> col_Errors c @ [err])\<rparr>)"

definition signature_threshold :: "RuleOptions \<Rightarrow> nat \<Rightarrow> int" where
  "signature_threshold args numberOfVerifiers =
     (if ro_TrustRoot args = ''*'' \<and> length (ro_Required args) = 0 \<and> \<not> ro_Threshold args > 0
      then int numberOfVerifiers
      else if ro_TrustRoot args = ''*'' \<and> ro_Threshold args > 0 then ro_Threshold args
      else 0)"

text \<open>The loop over the signatures, with the keys of the map \<open>digests\<close>.\<close>

fun signed_digests :: "'o cosign_ext \<Rightarrow> 'o list \<Rightarrow> string list \<Rightarrow> string list res" where
  "signed_digests ce [] digests = Inr digests"
| "signed_digests ce (signature # ss) digests =
     (case ce_Payload ce signature of
        Inl err \<Rightarrow> Inl err
      | Inr payloadBytes \<Rightarrow>
          (case Unmarshal_CosignPayload payloadBytes of
             Inl err \<Rightarrow> Inl err
           | Inr payload \<Rightarrow>
               signed_digests ce ss (List.insert (cp_Digest (cp_Image (cp_Critical payload))) digests)))"

text \<open>Everything after the receive loop.\<close>

definition decide_digest ::
  "'o cosign_ext \<Rightarrow> RuleOptions \<Rightarrow> nat \<Rightarrow> 'o collected \<Rightarrow> string res" where
  "decide_digest ce args numberOfVerifiers c =
     (let threshold = signature_threshold args numberOfVerifiers;
          numberOfCheckedSignatures = length (col_Signatures c);
          missing = SetSubstract (ro_Required args) (col_TrustRoots c)
      in if threshold > 0 \<and> int numberOfCheckedSignatures < threshold
         then Inl (''validation threshold not reached ('' @ decimal numberOfCheckedSignatures @ ''/'' @
                   Itoa threshold @ '')'')
         else if length (ro_Required args) > 0 \<and> length missing \<noteq> 0
         then Inl (''missing required signatures from '' @ fmt_slice missing)
         else case signed_digests ce (col_Signatures c) [] of
           Inl err \<Rightarrow> Inl err
         | Inr digests \<Rightarrow>
             if length digests > 1 then Inl ''ambiguous digests''
             else (case digests of
                     k # ks \<Rightarrow> Inr k
                   | [] \<Rightarrow>
                       if length (col_Errors c) > 0
                       then Inl (''error validating image: '' @ fmt_slice (col_Errors c))
                       else Inl ''no signed digests''))"

definition CosignValidator_ValidateImage ::
  "'o cosign_ext \<Rightarrow> ('o verifierOutput list \<Rightarrow> 'o verifierOutput list) \<Rightarrow> 'o CosignValidator \<Rightarrow>
     Image \<Rightarrow> RuleOptions \<Rightarrow> string res option" where
  "CosignValidator_ValidateImage ce sched cv img args =
     (let imageRef = ce_AttachedImageRef ce img;
          trustRootReferences = trust_root_references cv args
      in case setupOptions ce cv args img of
        Inl err \<Rightarrow> Some (Inl (''error setting up cosign options: '' @ err))
      | Inr opts \<Rightarrow>
     (case verifiers ce cv trustRootReferences of
        Inl err \<Rightarrow> Some (Inl (''error getting verifiers: '' @ err))
      | Inr vs \<Rightarrow>
          let outputs = map (validateWithVerifier ce cv imageRef opts) vs
          in (case collect (length trustRootReferences) (sched outputs)
                     \<lparr>col_Signatures = [], col_TrustRoots = [], col_Errors = []\<rparr> of
                None \<Rightarrow> None
              | Some (Inl err) \<Rightarrow> Some (Inl err)
              | Some (Inr c) \<Rightarrow> Some (decide_digest ce args (length vs) c))))"

section \<open>Lemmas\<close>

subsection \<open>The receive loop\<close>

abbreviation no_err :: "'o verifierOutput \<Rightarrow> bool" where
  "no_err output \<equiv> vo_err output = None"

abbreviation propagated :: "'o verifierOutput list \<Rightarrow> string list" where
  "propagated outs \<equiv> List.map_filter vo_propagationErr outs"

lemma collect_Inr:
  "collect n outs c = Some (Inr c') \<longleftrightarrow> n \<le> length outs \<and> list_all no_err (take n outs) \<and>
     c' = \<lparr>col_Signatures = col_Signatures c @ concat (map vo_checkedSignatures (take n outs)),
           col_TrustRoots = col_TrustRoots c @ map vo_validatingTrustRoot (take n outs),
           col_Errors = col_Errors c @ propagated (take n outs)\<rparr>"
  by (induction n outs c rule: collect.induct)
    (auto simp: List.map_filter_simps split: option.splits)

lemma collect_returns: "n \<le> length outs \<Longrightarrow> \<exists>r. collect n outs c = Some r"
  by (induction n outs c rule: collect.induct) (auto split: option.splits)

subsection \<open>The decision\<close>

definition payload_digest :: "'o cosign_ext \<Rightarrow> 'o \<Rightarrow> string res" where
  "payload_digest ce s =
     (case ce_Payload ce s of
        Inl err \<Rightarrow> Inl err
      | Inr b \<Rightarrow> map_sum id (\<lambda>p. cp_Digest (cp_Image (cp_Critical p))) (Unmarshal_CosignPayload b))"

lemma signed_digests_Cons:
  "signed_digests ce (s # ss) ds =
     (case payload_digest ce s of Inl err \<Rightarrow> Inl err | Inr d \<Rightarrow> signed_digests ce ss (List.insert d ds))"
  by (auto simp: payload_digest_def split: sum.splits)

lemma signed_digests_Inr:
  "signed_digests ce ss ds = Inr ds' \<Longrightarrow> distinct ds \<Longrightarrow>
   distinct ds' \<and> (\<forall>s \<in> set ss. \<exists>d. payload_digest ce s = Inr d) \<and>
   set ds' = set ds \<union> {d. \<exists>s \<in> set ss. payload_digest ce s = Inr d}"
proof (induction ss arbitrary: ds)
  case (Cons s ss)
  then obtain d where d: "payload_digest ce s = Inr d" "signed_digests ce ss (List.insert d ds) = Inr ds'"
    unfolding signed_digests_Cons by (auto split: sum.splits)
  from Cons.IH[OF d(2)] Cons.prems(2) d(1) show ?case by auto
qed simp

lemma signed_digests_ok:
  "\<forall>s \<in> set ss. \<exists>d. payload_digest ce s = Inr d \<Longrightarrow> \<exists>ds'. signed_digests ce ss ds = Inr ds'"
  by (induction ss arbitrary: ds) (auto simp: signed_digests_Cons simp del: signed_digests.simps(2))

lemma signed_digests_single:
  "signed_digests ce ss [] = Inr [d] \<longleftrightarrow> ss \<noteq> [] \<and> (\<forall>s \<in> set ss. payload_digest ce s = Inr d)"
proof
  assume "signed_digests ce ss [] = Inr [d]"
  from signed_digests_Inr[OF this] have
    all: "\<forall>s \<in> set ss. \<exists>d. payload_digest ce s = Inr d" and
    eq: "{d} = {d. \<exists>s \<in> set ss. payload_digest ce s = Inr d}" by simp_all
  then show "ss \<noteq> [] \<and> (\<forall>s \<in> set ss. payload_digest ce s = Inr d)" by fastforce
next
  assume a: "ss \<noteq> [] \<and> (\<forall>s \<in> set ss. payload_digest ce s = Inr d)"
  then obtain ds' where ds: "signed_digests ce ss [] = Inr ds'" using signed_digests_ok[of ss ce "[]"] by auto
  from signed_digests_Inr[OF this] a have "distinct ds'" "set ds' = {d}" by (auto simp: neq_Nil_conv)
  then have "ds' = [d]" by (cases ds'; cases "tl ds'") auto
  with ds show "signed_digests ce ss [] = Inr [d]" by simp
qed

lemma decide_digest_Inr:
  "decide_digest ce args n c = Inr d \<longleftrightarrow>
     signature_threshold args n \<le> int (length (col_Signatures c)) \<and>
     set (ro_Required args) \<subseteq> set (col_TrustRoots c) \<and>
     col_Signatures c \<noteq> [] \<and> (\<forall>s \<in> set (col_Signatures c). payload_digest ce s = Inr d)"
proof -
  have miss: "length (ro_Required args) > 0 \<and> length (SetSubstract (ro_Required args) (col_TrustRoots c)) \<noteq> 0
      \<longleftrightarrow> \<not> set (ro_Required args) \<subseteq> set (col_TrustRoots c)"
    using SetSubstract_empty_iff[of "ro_Required args" "col_TrustRoots c"] by auto
  have thr: "signature_threshold args n > 0 \<and> int (length (col_Signatures c)) < signature_threshold args n
      \<longleftrightarrow> \<not> signature_threshold args n \<le> int (length (col_Signatures c))" by linarith
  have "(case signed_digests ce (col_Signatures c) [] of
           Inl err \<Rightarrow> Inl err
         | Inr digests \<Rightarrow>
             if length digests > 1 then Inl ''ambiguous digests''
             else (case digests of
                     k # ks \<Rightarrow> Inr k
                   | [] \<Rightarrow>
                       if length (col_Errors c) > 0
                       then Inl (''error validating image: '' @ fmt_slice (col_Errors c))
                       else Inl ''no signed digests'')) = Inr d \<longleftrightarrow>
       signed_digests ce (col_Signatures c) [] = Inr [d]"
    by (auto split: sum.splits list.splits)
  then show ?thesis
    unfolding decide_digest_def Let_def miss thr signed_digests_single by auto
qed

subsection \<open>Verifiers and their outputs\<close>

lemma LoadVerifier_Name: "LoadVerifier ce tr = Inr v \<Longrightarrow> vf_Name v = tr_Name tr"
  by (auto simp: LoadVerifier_def Let_def map_sum_def split: if_split_asm sum.split_asm)

lemma load_verifiers_Inr:
  "load_verifiers ce trs = Inr vs \<longleftrightarrow> list_all2 (\<lambda>tr v. LoadVerifier ce tr = Inr v) trs vs"
proof (induction trs arbitrary: vs)
  case (Cons tr trs)
  show ?case
  proof (cases "LoadVerifier ce tr")
    case (Inr v)
    then show ?thesis
      by (cases "load_verifiers ce trs") (auto simp: list_all2_Cons1 simp flip: Cons.IH)
  qed (simp add: list_all2_Cons1)
qed auto

lemma list_all2_in2: "list_all2 P xs ys \<Longrightarrow> y \<in> set ys \<Longrightarrow> \<exists>x \<in> set xs. P x y"
  by (induction rule: list_all2_induct) auto

lemma list_all2_in1: "list_all2 P xs ys \<Longrightarrow> x \<in> set xs \<Longrightarrow> \<exists>y \<in> set ys. P x y"
  by (induction rule: list_all2_induct) auto

lemma verifiers_Inr:
  "verifiers ce cv refs = Inr vs \<longleftrightarrow>
     (\<exists>trs. GetTrustRoots refs (cv_TrustRoots cv) True = Inr trs \<and>
        list_all2 (\<lambda>tr v. LoadVerifier ce tr = Inr v) trs vs)"
  by (auto simp: verifiers_def load_verifiers_Inr split: sum.splits)

lemma GetTrustRoots_length:
  assumes "GetTrustRoots refs trs True = Inr out" and "trs \<noteq> []"
  shows "refs \<noteq> [''*''] \<Longrightarrow> refs \<noteq> [] \<Longrightarrow> length out = length refs"
    and "refs \<noteq> [] \<Longrightarrow> length refs \<le> length out"
proof -
  have l: "length (effective_refs refs True) = length refs" if "refs \<noteq> []"
    using that by (auto simp: effective_refs_def Let_def)
  have *: "refs = [''*'']" if "effective_refs refs True = [''*'']"
    using that by (auto simp: effective_refs_def Let_def split: if_split_asm)
  show eq: "length out = length refs" if "refs \<noteq> [''*'']" "refs \<noteq> []"
    using GetTrustRoots_names[OF assms(1)] * that l by (metis length_map)
  show "length refs \<le> length out" if "refs \<noteq> []"
  proof (cases "refs = [''*'']")
    case True
    then have "effective_refs refs True = [''*'']" by (simp add: effective_refs_def)
    then have "out = trs" using assms(1) by (simp add: GetTrustRoots_Inr)
    then show ?thesis using True assms(2) by (cases trs) auto
  qed (use eq that in simp)
qed

lemma trust_root_references_ne: "cv_TrustRoots cv \<noteq> [] \<Longrightarrow> trust_root_references cv args \<noteq> []"
  by (auto simp: trust_root_references_def)

text \<open>A trust root verifies the image with these options and finds these signatures.\<close>

definition root_verifies ::
  "'o cosign_ext \<Rightarrow> 'o CosignValidator \<Rightarrow> Image \<Rightarrow> RuleOptions \<Rightarrow> TrustRoot \<Rightarrow> 'o CheckOpts \<Rightarrow> 'o list \<Rightarrow> bool" where
  "root_verifies ce cv img args tr copts sigs \<longleftrightarrow>
     (\<exists>opts v. setupOptions ce cv args img = Inr opts \<and> LoadVerifier ce tr = Inr v \<and>
        verifier_options ce cv opts v = Inr copts) \<and>
     ce_VerifyImageSignatures ce (ce_AttachedImageRef ce img) copts = Inr sigs"

lemma root_verifies_unique:
  "root_verifies ce cv img args tr copts sigs \<Longrightarrow> root_verifies ce cv img args tr copts' sigs' \<Longrightarrow>
   copts' = copts \<and> sigs' = sigs"
  by (auto simp: root_verifies_def)

lemma validateWithVerifier_Inr:
  "verifier_options ce cv opts v = Inr copts \<Longrightarrow> ce_VerifyImageSignatures ce ref copts = Inr sigs \<Longrightarrow>
   validateWithVerifier ce cv ref opts v =
     \<lparr>vo_checkedSignatures = sigs, vo_err = None, vo_propagationErr = None, vo_validatingTrustRoot = vf_Name v\<rparr>"
  by (simp add: validateWithVerifier_def)

lemma validateWithVerifier_failed:
  "(\<nexists>copts sigs. verifier_options ce cv opts v = Inr copts \<and> ce_VerifyImageSignatures ce ref copts = Inr sigs) \<Longrightarrow>
   vo_checkedSignatures (validateWithVerifier ce cv ref opts v) = [] \<and>
   vo_validatingTrustRoot (validateWithVerifier ce cv ref opts v) = []"
  by (auto simp: validateWithVerifier_def Let_def split: sum.splits)

text \<open>An output with signatures or a name comes from a trust root that verifies the image.\<close>

lemma output_verified:
  assumes "setupOptions ce cv args img = Inr opts" and "LoadVerifier ce tr = Inr v"
    and "output = validateWithVerifier ce cv (ce_AttachedImageRef ce img) opts v"
    and "vo_checkedSignatures output \<noteq> [] \<or> vo_validatingTrustRoot output \<noteq> []"
  obtains copts where "root_verifies ce cv img args tr copts (vo_checkedSignatures output)"
    and "vo_validatingTrustRoot output = tr_Name tr"
proof -
  obtain copts sigs where *: "verifier_options ce cv opts v = Inr copts"
    "ce_VerifyImageSignatures ce (ce_AttachedImageRef ce img) copts = Inr sigs"
    using validateWithVerifier_failed assms(3,4) by metis
  then have "root_verifies ce cv img args tr copts sigs"
    unfolding root_verifies_def using assms(1,2) by blast
  then show ?thesis
    using that validateWithVerifier_Inr[OF *] assms(3) LoadVerifier_Name[OF assms(2)] by simp
qed

subsection \<open>The whole validation\<close>

abbreviation fair :: "('a list \<Rightarrow> 'a list) \<Rightarrow> bool" where
  "fair sched \<equiv> \<forall>outs. mset (sched outs) = mset outs"

abbreviation empty_collected :: "'o collected" where
  "empty_collected \<equiv> \<lparr>col_Signatures = [], col_TrustRoots = [], col_Errors = []\<rparr>"

lemma Cosign_ValidateImage_Inr:
  "CosignValidator_ValidateImage ce sched cv img args = Some (Inr d) \<longleftrightarrow>
     (\<exists>opts vs. setupOptions ce cv args img = Inr opts \<and>
        verifiers ce cv (trust_root_references cv args) = Inr vs \<and>
        (let read = take (length (trust_root_references cv args))
               (sched (map (validateWithVerifier ce cv (ce_AttachedImageRef ce img) opts) vs));
             sigs = concat (map vo_checkedSignatures read)
         in length (trust_root_references cv args) = length read \<and> list_all no_err read \<and>
            signature_threshold args (length vs) \<le> int (length sigs) \<and>
            set (ro_Required args) \<subseteq> set (map vo_validatingTrustRoot read) \<and>
            sigs \<noteq> [] \<and> (\<forall>s \<in> set sigs. payload_digest ce s = Inr d)))"
  (is "?lhs \<longleftrightarrow> ?rhs")
proof -
  have eq: "n \<le> length xs \<longleftrightarrow> n = length (take n xs)" for n and xs :: "'a list" by auto
  have "?lhs \<longleftrightarrow> (\<exists>opts vs c. setupOptions ce cv args img = Inr opts \<and>
      verifiers ce cv (trust_root_references cv args) = Inr vs \<and>
      collect (length (trust_root_references cv args))
        (sched (map (validateWithVerifier ce cv (ce_AttachedImageRef ce img) opts) vs)) empty_collected = Some (Inr c) \<and>
      decide_digest ce args (length vs) c = Inr d)"
    unfolding CosignValidator_ValidateImage_def Let_def
    by (auto split: sum.splits option.splits)
  also have "\<dots> \<longleftrightarrow> ?rhs"
    unfolding collect_Inr decide_digest_Inr Let_def by (auto simp flip: eq)
  finally show ?thesis .
qed

text \<open>All references are names of their own, so one goroutine answers each of them.\<close>

lemma Cosign_ValidateImage_all_read:
  assumes "fair sched" and "cv_TrustRoots cv \<noteq> []" and "trust_root_references cv args \<noteq> [''*'']"
    and "setupOptions ce cv args img = Inr opts"
    and "verifiers ce cv (trust_root_references cv args) = Inr vs"
  shows "CosignValidator_ValidateImage ce sched cv img args = Some (Inr d) \<longleftrightarrow>
    (let outs = map (validateWithVerifier ce cv (ce_AttachedImageRef ce img) opts) vs;
         sigs = concat (map vo_checkedSignatures outs)
     in list_all no_err outs \<and> signature_threshold args (length vs) \<le> int (length sigs) \<and>
        set (ro_Required args) \<subseteq> set (map vo_validatingTrustRoot outs) \<and>
        sigs \<noteq> [] \<and> (\<forall>s \<in> set sigs. payload_digest ce s = Inr d))"
proof -
  let ?n = "length (trust_root_references cv args)"
  let ?outs = "map (validateWithVerifier ce cv (ce_AttachedImageRef ce img) opts) vs"
  have "length vs = ?n"
    using assms(5) GetTrustRoots_length(1)[OF _ assms(2,3) trust_root_references_ne[OF assms(2)]]
    by (auto simp: verifiers_Inr dest: list_all2_lengthD)
  then have n: "?n = length (sched ?outs)"
    using arg_cong[OF assms(1)[rule_format, of ?outs], of size] by simp
  have st: "set (sched ?outs) = set ?outs"
    using mset_eq_setD[OF assms(1)[rule_format, of ?outs]] .
  have sg: "mset (concat (map vo_checkedSignatures (sched ?outs))) = mset (concat (map vo_checkedSignatures ?outs))"
    by (rule mset_concat_map_cong) (rule assms(1)[rule_format])
  have len: "length (concat (map vo_checkedSignatures (sched ?outs))) = length (concat (map vo_checkedSignatures ?outs))"
    and ne: "concat (map vo_checkedSignatures (sched ?outs)) = [] \<longleftrightarrow> concat (map vo_checkedSignatures ?outs) = []"
    and ss: "set (concat (map vo_checkedSignatures (sched ?outs))) = set (concat (map vo_checkedSignatures ?outs))"
    using arg_cong[OF sg, of size] arg_cong[OF sg, of "\<lambda>m. m = {#}"] mset_eq_setD[OF sg] by simp_all
  have tk: "take ?n (sched ?outs) = sched ?outs" by (simp add: n)
  have na: "list_all no_err (sched ?outs) = list_all no_err ?outs"
    unfolding list_all_iff st ..
  have nm: "set (map vo_validatingTrustRoot (sched ?outs)) = set (map vo_validatingTrustRoot ?outs)"
    unfolding set_map st ..
  have "CosignValidator_ValidateImage ce sched cv img args = Some (Inr d) \<longleftrightarrow>
      (let read = take ?n (sched ?outs); sigs = concat (map vo_checkedSignatures read)
       in ?n = length read \<and> list_all no_err read \<and>
          signature_threshold args (length vs) \<le> int (length sigs) \<and>
          set (ro_Required args) \<subseteq> set (map vo_validatingTrustRoot read) \<and>
          sigs \<noteq> [] \<and> (\<forall>s \<in> set sigs. payload_digest ce s = Inr d))"
    unfolding Cosign_ValidateImage_Inr using assms(4,5) by simp
  then show ?thesis
    unfolding tk Let_def na nm ss len ne using n by simp
qed

subsection \<open>The validator method\<close>

text \<open>
  A receive loop that waits forever blocks the goroutine of the image; for a validator with trust
  roots it is shown not to happen.
\<close>

definition cosign_method ::
  "'o cosign_ext \<Rightarrow> ('o verifierOutput list \<Rightarrow> 'o verifierOutput list) \<Rightarrow> 'o CosignValidator \<Rightarrow> validate" where
  "cosign_method ce sched cv img args =
     (case CosignValidator_ValidateImage ce sched cv img args of
        None \<Rightarrow> Panic blocked
      | Some r \<Rightarrow> Ret (img, r))"

interpretation cosign_image: keeps_image "cosign_method ce sched cv" for ce :: "'o cosign_ext" and sched cv
  by unfold_locales (simp add: cosign_method_def split: option.split_asm)

locale cosign_run =
  fixes ce :: "'o cosign_ext" and sched :: "'o verifierOutput list \<Rightarrow> 'o verifierOutput list"
    and cv :: "'o CosignValidator"
  assumes delivered: "mset (sched outs) = mset outs"
    and configured: "cv_TrustRoots cv \<noteq> []"
begin

lemma delivered_length: "length (sched outs) = length outs"
  using arg_cong[OF delivered, of size] by simp

lemma delivered_set: "set (sched outs) = set outs"
  using mset_eq_setD[OF delivered] .

lemma returns: "\<exists>r. CosignValidator_ValidateImage ce sched cv img args = Some r"
proof (cases "setupOptions ce cv args img")
  case (Inr opts)
  show ?thesis
  proof (cases "verifiers ce cv (trust_root_references cv args)")
    case vs: (Inr vs)
    then obtain trs where "GetTrustRoots (trust_root_references cv args) (cv_TrustRoots cv) True = Inr trs"
      "length trs = length vs" by (auto simp: verifiers_Inr dest: list_all2_lengthD)
    from GetTrustRoots_length(2)[OF this(1) configured trust_root_references_ne[OF configured]] this(2)
    have "length (trust_root_references cv args) \<le>
        length (sched (map (validateWithVerifier ce cv (ce_AttachedImageRef ce img) opts) vs))"
      by (simp add: delivered_length)
    from collect_returns[OF this, of empty_collected] Inr vs show ?thesis
      by (auto simp: CosignValidator_ValidateImage_def Let_def split: sum.split)
  qed (use Inr in \<open>simp add: CosignValidator_ValidateImage_def\<close>)
qed (simp add: CosignValidator_ValidateImage_def)

lemma signature_evidence:
  assumes "CosignValidator_ValidateImage ce sched cv img args = Some (Inr d)"
  obtains trs where "GetTrustRoots (trust_root_references cv args) (cv_TrustRoots cv) True = Inr trs"
    and "\<exists>tr \<in> set trs. \<exists>copts sigs. root_verifies ce cv img args tr copts sigs \<and>
      (\<exists>s \<in> set sigs. payload_digest ce s = Inr d)"
    and "\<forall>r \<in> set (ro_Required args). r \<noteq> [] \<longrightarrow>
      (\<exists>tr \<in> set trs. \<exists>copts sigs. tr_Name tr = r \<and> root_verifies ce cv img args tr copts sigs)"
proof -
  obtain opts vs where o: "setupOptions ce cv args img = Inr opts"
    "verifiers ce cv (trust_root_references cv args) = Inr vs"
    and read: "let read = take (length (trust_root_references cv args))
               (sched (map (validateWithVerifier ce cv (ce_AttachedImageRef ce img) opts) vs));
             sigs = concat (map vo_checkedSignatures read)
         in length (trust_root_references cv args) = length read \<and> list_all no_err read \<and>
            signature_threshold args (length vs) \<le> int (length sigs) \<and>
            set (ro_Required args) \<subseteq> set (map vo_validatingTrustRoot read) \<and>
            sigs \<noteq> [] \<and> (\<forall>s \<in> set sigs. payload_digest ce s = Inr d)"
    using assms unfolding Cosign_ValidateImage_Inr by blast
  let ?outs = "map (validateWithVerifier ce cv (ce_AttachedImageRef ce img) opts) vs"
  let ?read = "take (length (trust_root_references cv args)) (sched ?outs)"
  obtain trs where trs: "GetTrustRoots (trust_root_references cv args) (cv_TrustRoots cv) True = Inr trs"
    "list_all2 (\<lambda>tr v. LoadVerifier ce tr = Inr v) trs vs" using o(2) unfolding verifiers_Inr by blast
  have sub: "set ?read \<subseteq> set ?outs" unfolding delivered_set[of ?outs, symmetric] by (rule set_take_subset)
  have from_root: "\<exists>tr \<in> set trs. \<exists>copts. root_verifies ce cv img args tr copts (vo_checkedSignatures outp) \<and>
      vo_validatingTrustRoot outp = tr_Name tr"
    if mem: "outp \<in> set ?read" and res: "vo_checkedSignatures outp \<noteq> [] \<or> vo_validatingTrustRoot outp \<noteq> []" for outp
  proof -
    obtain v where v: "v \<in> set vs" "outp = validateWithVerifier ce cv (ce_AttachedImageRef ce img) opts v"
      using subsetD[OF sub mem] by auto
    then obtain tr where tr: "tr \<in> set trs" "LoadVerifier ce tr = Inr v"
      using list_all2_in2[OF trs(2) v(1)] by blast
    from output_verified[OF o(1) tr(2) v(2) res] tr(1) show ?thesis by blast
  qed
  have read': "set (ro_Required args) \<subseteq> set (map vo_validatingTrustRoot ?read)"
    "concat (map vo_checkedSignatures ?read) \<noteq> []"
    "\<forall>s \<in> set (concat (map vo_checkedSignatures ?read)). payload_digest ce s = Inr d"
    using read unfolding Let_def by blast+
  from hd_in_set[OF this(2)] obtain outp s
    where os: "outp \<in> set ?read" "s \<in> set (vo_checkedSignatures outp)"
    unfolding set_concat set_map by blast
  have 1: "\<exists>tr \<in> set trs. \<exists>copts sigs. root_verifies ce cv img args tr copts sigs \<and>
      (\<exists>s \<in> set sigs. payload_digest ce s = Inr d)"
  proof -
    have "vo_checkedSignatures outp \<noteq> []" using os(2) by auto
    then obtain tr copts where "tr \<in> set trs"
      "root_verifies ce cv img args tr copts (vo_checkedSignatures outp)" using from_root[OF os(1)] by blast
    moreover have "payload_digest ce s = Inr d" using read'(3) os by auto
    ultimately show ?thesis using os(2) by blast
  qed
  have 2: "\<forall>r \<in> set (ro_Required args). r \<noteq> [] \<longrightarrow>
      (\<exists>tr \<in> set trs. \<exists>copts sigs. tr_Name tr = r \<and> root_verifies ce cv img args tr copts sigs)"
  proof (intro ballI impI)
    fix r assume "r \<in> set (ro_Required args)" "r \<noteq> []"
    then obtain outp where m: "outp \<in> set ?read" "vo_validatingTrustRoot outp = r" using read'(1) by auto
    from m(2) \<open>r \<noteq> []\<close> have "vo_checkedSignatures outp \<noteq> [] \<or> vo_validatingTrustRoot outp \<noteq> []" by simp
    from from_root[OF m(1) this] obtain tr copts where "tr \<in> set trs"
      "root_verifies ce cv img args tr copts (vo_checkedSignatures outp)" "tr_Name tr = r"
      unfolding m(2) by metis
    then show "\<exists>tr \<in> set trs. \<exists>copts sigs. tr_Name tr = r \<and> root_verifies ce cv img args tr copts sigs"
      by (intro bexI exI conjI)
  qed
  show ?thesis using that[OF trs(1) 1 2] .
qed

end

sublocale cosign_run \<subseteq> iface: validator_method "cosign_method ce sched cv"
proof
  show "\<exists>img' r. cosign_method ce sched cv img opts = Ret (img', r)" for img opts
    using returns[of img opts] by (auto simp: cosign_method_def)
qed

subsection \<open>Loading\<close>

lemma load_unless_empty_Inr:
  "load_unless_empty load s = Inr r \<Longrightarrow> (r = None \<longleftrightarrow> s = []) \<and> (\<forall>x. r = Some x \<longrightarrow> load s = Inr x)"
  by (auto simp: load_unless_empty_def map_sum_def split: if_split_asm sum.split_asm)

lemma Cosign_UnmarshalYAML_Inr:
  assumes "CosignValidator_UnmarshalYAML ce y = Inr cv"
  obtains valData where "y = Inr valData"
    and "cv_TrustRoots cv = cy_TrustRoots valData" "cv_TrustRoots cv \<noteq> []"
    and "ce_NewRekorClient ce (if cy_HostRekor valData = [] then DefaultRekorHost else cy_HostRekor valData) =
      Inr (cv_Rekor cv)"
    and "cv_Name cv = cy_Name valData" "cv_Type cv = cy_Type valData" "cv_Auth cv = cy_Auth valData"
    and "cv_rekorPubkey cv = None \<longleftrightarrow> cy_HostRekorPubkey valData = []"
    and "cv_fulcioCert cv = None \<longleftrightarrow> cy_HostFulcioCert valData = []"
    and "cv_ctLogPubkey cv = None \<longleftrightarrow> cy_HostCTLogPubkey valData = []"
    and "cv_Cert cv = None \<longleftrightarrow> cy_Cert valData = []"
  using assms
  by (auto simp: CosignValidator_UnmarshalYAML_def Let_def Suc_le_eq
      dest!: load_unless_empty_Inr split: sum.split_asm if_split_asm)

lemma setupOptions_Inr:
  assumes "setupOptions ce cv args img = Inr opts"
  shows "co_IgnoreTlog opts \<longleftrightarrow> ro_VerifyTLog args = Some False"
    and "co_IgnoreSCT opts \<longleftrightarrow> ro_VerifySCT args = Some False"
    and "\<not> co_IgnoreTlog opts \<longrightarrow> (\<exists>k. getRekorPubKey ce cv = Inr k \<and> co_RekorPubKeys opts = Some k)"
    and "\<not> co_IgnoreSCT opts \<longrightarrow> (\<exists>k. getCTLogPubKeys ce cv = Inr k \<and> co_CTLogPubKeys opts = Some k)"
    and "co_AuthConfig opts = LookUp (cv_Auth cv) (repo_Name (Context img))"
    and "co_TLSRootCAs opts = cv_Cert cv"
    and "co_SigVerifier opts = None" "co_Identities opts = []" "co_RootCerts opts = None"
  using assms
  by (auto simp: setupOptions_def Let_def boolOrDefault_def map_sum_def
      split: if_split_asm sum.split_asm option.split_asm)

lemma getFulcioCerts_root: "getFulcioCerts ce cv = Inr (r, i) \<Longrightarrow> \<exists>c. r = Some c"
  by (cases r) (auto simp: getFulcioCerts_def split: option.split_asm sum.split_asm)

lemma LoadVerifier_cases:
  assumes "LoadVerifier ce tr = Inr v"
  shows "(tr_Key tr \<noteq> [] \<and> vf_KeyVerifier v \<noteq> None) \<or>
    (tr_Key tr = [] \<and> vf_KeyVerifier v = None \<and>
     vf_KeylessVerifier v = \<lparr>id_Issuer = kl_Issuer (tr_Keyless tr), id_Subject = kl_Subject (tr_Keyless tr),
       id_IssuerRegExp = kl_IssuerRegex (tr_Keyless tr), id_SubjectRegExp = kl_SubjectRegex (tr_Keyless tr)\<rparr> \<and>
     (kl_Issuer (tr_Keyless tr) \<noteq> [] \<or> kl_IssuerRegex (tr_Keyless tr) \<noteq> []) \<and>
     (kl_Subject (tr_Keyless tr) \<noteq> [] \<or> kl_SubjectRegex (tr_Keyless tr) \<noteq> []))"
  using assms by (auto simp: LoadVerifier_def Let_def map_sum_def split: if_split_asm sum.split_asm)

text \<open>For all trust roots by name, \<open>GetTrustRoots\<close> gives them back.\<close>

lemma find_trust_root_distinct:
  "distinct (map tr_Name trs) \<Longrightarrow> tr \<in> set trs \<Longrightarrow> find_trust_root (tr_Name tr) trs = Some tr"
  by (induction trs) auto

lemma GetTrustRoots_all_names:
  assumes "distinct (map tr_Name trs)" and "trs \<noteq> []" and "set (map tr_Name trs) \<inter> {[], ''*''} = {}"
  shows "GetTrustRoots (map tr_Name trs) trs True = Inr trs"
proof -
  have e: "effective_refs (map tr_Name trs) True = map tr_Name trs" and s: "map tr_Name trs \<noteq> [''*'']"
    using assms(2,3) by (cases trs; auto simp: effective_refs_def Let_def)+
  have "list_all2 (\<lambda>tr tr'. find_trust_root (tr_Name tr) trs = Some tr') trs trs"
    using find_trust_root_distinct[OF assms(1)] by (simp add: list_all2_same)
  then show ?thesis
    using assms(2) s unfolding GetTrustRoots_Inr e Let_def by (simp add: those_map_Some comp_def)
qed

lemma count_all:
  fixes f :: "'a \<Rightarrow> nat"
  assumes "\<And>x. x \<in> set xs \<Longrightarrow> f x \<le> 1" and "length xs \<le> (\<Sum>x\<leftarrow>xs. f x)" and "y \<in> set xs"
  shows "f y = 1"
proof (rule ccontr)
  assume "f y \<noteq> 1"
  with assms(1,3) have "f y = 0" by (metis One_nat_def le_Suc_eq le_zero_eq)
  obtain us vs where xs: "xs = us @ y # vs" using split_list[OF assms(3)] by blast
  have le: "set zs \<subseteq> set xs \<Longrightarrow> (\<Sum>x\<leftarrow>zs. f x) \<le> length zs" for zs
    using assms(1) by (induction zs) fastforce+
  have "(\<Sum>x\<leftarrow>us. f x) \<le> length us" "(\<Sum>x\<leftarrow>vs. f x) \<le> length vs"
    by (rule le; auto simp: xs)+
  with assms(2) \<open>f y = 0\<close> show False by (simp add: xs)
qed

section \<open>An example\<close>

text \<open>
  Two trust roots with keys; the library finds two signatures for the key \<open>alice\<close> and none for any
  other key. Every signature has the payload for the digest \<open>sha256:aa\<close>.
\<close>

definition example_payload :: string where
  "example_payload = [CHR ''{'', DQ] @ ''critical'' @ [DQ, CHR '':'', CHR ''{'', DQ] @ ''image'' @
     [DQ, CHR '':'', CHR ''{'', DQ] @ ''docker-manifest-digest'' @ [DQ, CHR '':'', DQ] @ ''sha256:aa'' @ [DQ] @ ''}}}''"

definition example_ce :: "string cosign_ext" where
  "example_ce = \<lparr>ce_AttachedImageRef = original, ce_NewRekorClient = Inr, ce_AddLogPubKey = Inr,
     ce_CertsFromPEM = Some, ce_GetRekorPubs = Inr ''rekor'', ce_GetCTLogPubs = Inr ''ct'',
     ce_GetRoots = Inr ''root'', ce_GetIntermediates = Inr ''intermediate'', ce_LoadPublicKeyRaw = Inr,
     ce_PublicKeyFromKeyRef = Inr,
     ce_VerifyImageSignatures = (\<lambda>ref opts. if co_SigVerifier opts = Some ''alice'' then Inr [''s1'', ''s2'']
       else Inl ''no signatures found''),
     ce_Payload = (\<lambda>s. Inr example_payload), ce_RefString = id\<rparr>"

definition example_root :: "string \<Rightarrow> TrustRoot" where
  "example_root n = \<lparr>tr_Name = n, tr_Key = n, tr_Cert = [], tr_TSCert = [],
     tr_Keyless = \<lparr>kl_Issuer = [], kl_Subject = [], kl_IssuerRegex = [], kl_SubjectRegex = []\<rparr>\<rparr>"

definition example_yaml :: CosignValidatorYaml where
  "example_yaml = \<lparr>cy_Name = ''default'', cy_Type = ''cosign'', cy_HostRekor = [], cy_HostRekorPubkey = [],
     cy_HostFulcioCert = [], cy_HostCTLogPubkey = [], cy_Cert = [],
     cy_Auth = \<lparr>AuthConfigs = [], UseKeychain = False\<rparr>,
     cy_TrustRoots = [example_root ''alice'', example_root ''bob'']\<rparr>"

definition example_cv :: "string CosignValidator" where
  "example_cv = \<lparr>cv_Name = ''default'', cv_Type = ''cosign'', cv_Rekor = DefaultRekorHost,
     cv_rekorPubkey = None, cv_fulcioCert = None, cv_ctLogPubkey = None, cv_Cert = None,
     cv_Auth = \<lparr>AuthConfigs = [], UseKeychain = False\<rparr>,
     cv_TrustRoots = [example_root ''alice'', example_root ''bob'']\<rparr>"

definition example_image :: Image where
  "example_image = \<lparr>original = ''img'', img_ref = \<lparr>ref_Context = \<lparr>repo_Name = ''r'', repo_RegistryStr = ''r''\<rparr>,
     ref_Identifier = ''latest'', ref_Scope = id\<rparr>, img_tag = ''latest'', img_digest = []\<rparr>"

definition options_for :: "string \<Rightarrow> string list \<Rightarrow> RuleOptions" where
  "options_for trustRoot required = zero_RuleOptions\<lparr>ro_TrustRoot := trustRoot, ro_Required := required\<rparr>"

lemma cosign_example_loaded: "CosignValidator_UnmarshalYAML example_ce (Inr example_yaml) = Inr example_cv"
  by (simp add: CosignValidator_UnmarshalYAML_def example_yaml_def example_cv_def example_ce_def load_unless_empty_def)

interpretation example_run: cosign_run example_ce rev example_cv
  by unfold_locales (simp_all add: example_cv_def)

lemma example_digest: "payload_digest example_ce s = Inr ''sha256:aa''"
proof -
  have "map_sum id (\<lambda>p. cp_Digest (cp_Image (cp_Critical p))) (Unmarshal_CosignPayload example_payload) =
      (Inr ''sha256:aa'' :: string res)" by code_simp
  then show ?thesis by (simp add: payload_digest_def example_ce_def)
qed

lemma example_signed: "signed_digests example_ce ss ds = Inr (if ss = [] then ds else List.insert ''sha256:aa'' ds)"
  by (induction ss arbitrary: ds) (auto simp: signed_digests_Cons example_digest simp del: signed_digests.simps(2))

lemmas example_run_defs = CosignValidator_ValidateImage_def setupOptions_def verifiers_def boolOrDefault_def
  trust_root_references_def GetTrustRoots_def effective_refs_def LoadVerifier_def validateWithVerifier_def
  verifier_options_def getRekorPubKey_def getCTLogPubKeys_def decide_digest_def signature_threshold_def
  options_for_def zero_RuleOptions_def example_cv_def example_root_def example_image_def HasPrefix_def
  SetSubstract_def

lemma example_ce_fields:
  "ce_GetRekorPubs example_ce = Inr ''rekor''" "ce_GetCTLogPubs example_ce = Inr ''ct''"
  "ce_PublicKeyFromKeyRef example_ce = Inr" "ce_AttachedImageRef example_ce = original"
  "ce_VerifyImageSignatures example_ce ref opts =
     (if co_SigVerifier opts = Some ''alice'' then Inr [''s1'', ''s2''] else Inl ''no signatures found'')"
  by (simp_all add: example_ce_def)

lemma example_verdicts:
  "CosignValidator_ValidateImage example_ce rev example_cv example_image (options_for ''*'' []) = Some (Inr ''sha256:aa'')"
  "CosignValidator_ValidateImage example_ce rev example_cv example_image (options_for ''alice'' []) = Some (Inr ''sha256:aa'')"
  "CosignValidator_ValidateImage example_ce rev example_cv example_image (options_for ''*'' [''alice'']) = Some (Inr ''sha256:aa'')"
  by (simp_all add: example_run_defs Let_def example_signed example_ce_fields del: signed_digests.simps)

section \<open>Properties\<close>

text \<open>
  A validator that is loaded from the configuration has at least one trust root, uses the configured Rekor host or
  the public one, and has its own log keys and certificates exactly where the configuration gives them.
\<close>
theorem CosignValidator_configured:
  assumes "CosignValidator_UnmarshalYAML ce (Inr valData) = Inr cv"
  shows "cv_TrustRoots cv \<noteq> [] \<and> cv_TrustRoots cv = cy_TrustRoots valData \<and> cv_Auth cv = cy_Auth valData \<and>
    ce_NewRekorClient ce (if cy_HostRekor valData = [] then DefaultRekorHost else cy_HostRekor valData) =
      Inr (cv_Rekor cv) \<and>
    (cv_rekorPubkey cv = None \<longleftrightarrow> cy_HostRekorPubkey valData = []) \<and>
    (cv_fulcioCert cv = None \<longleftrightarrow> cy_HostFulcioCert valData = []) \<and>
    (cv_ctLogPubkey cv = None \<longleftrightarrow> cy_HostCTLogPubkey valData = []) \<and>
    (cv_Cert cv = None \<longleftrightarrow> cy_Cert valData = [])"
  using Cosign_UnmarshalYAML_Inr[OF assms] by (metis sum.inject(2))

theorem CosignValidator_configured_witness: "cv_Rekor example_cv = DefaultRekorHost \<and> cv_rekorPubkey example_cv = None"
  using CosignValidator_configured[OF cosign_example_loaded] by (simp add: example_yaml_def example_ce_def)

text \<open>
  The validation of a loaded validator always returns, under every order in which its goroutines
  deliver their outputs: the receive loop never waits for an output that nobody sends.
\<close>
theorem CosignValidator_returns:
  assumes "CosignValidator_UnmarshalYAML ce y = Inr cv" and "fair sched"
  shows "\<exists>r. CosignValidator_ValidateImage ce sched cv img args = Some r"
proof -
  have "cv_TrustRoots cv \<noteq> []" using Cosign_UnmarshalYAML_Inr[OF assms(1)] .
  then have "cosign_run sched cv" using assms(2) by unfold_locales auto
  from cosign_run.returns[OF this] show ?thesis .
qed

theorem CosignValidator_returns_witness:
  "\<exists>r. CosignValidator_ValidateImage example_ce rev example_cv example_image (options_for ''*'' [''bob'']) = Some r"
  by (rule CosignValidator_returns[OF cosign_example_loaded]) simp

text \<open>
  C4 (safety). No digest without a signature: whatever the order of the goroutines, if the validation returns the
  digest \<open>d\<close>, then a trust root that the rule refers to verifies the image with the options of the
  rule and finds a signature with a payload for \<open>d\<close>; and every required trust root verifies
  the image (the rule options do not accept an empty name here).
\<close>
theorem CosignValidator_sound:
  assumes "cv_TrustRoots cv \<noteq> []" and "fair sched" and "[] \<notin> set (ro_Required args)"
    and "CosignValidator_ValidateImage ce sched cv img args = Some (Inr d)"
  shows "\<exists>trs. GetTrustRoots (trust_root_references cv args) (cv_TrustRoots cv) True = Inr trs \<and>
    (\<exists>tr \<in> set trs. \<exists>copts sigs. root_verifies ce cv img args tr copts sigs \<and>
       (\<exists>s \<in> set sigs. payload_digest ce s = Inr d)) \<and>
    (\<forall>r \<in> set (ro_Required args). \<exists>tr \<in> set trs. tr_Name tr = r \<and>
       (\<exists>copts sigs. root_verifies ce cv img args tr copts sigs))"
proof -
  have "cosign_run sched cv" using assms(1,2) by unfold_locales auto
  from cosign_run.signature_evidence[OF this assms(4)] obtain trs where
    trs: "GetTrustRoots (trust_root_references cv args) (cv_TrustRoots cv) True = Inr trs"
    and 1: "\<exists>tr \<in> set trs. \<exists>copts sigs. root_verifies ce cv img args tr copts sigs \<and>
      (\<exists>s \<in> set sigs. payload_digest ce s = Inr d)"
    and 2: "\<forall>r \<in> set (ro_Required args). r \<noteq> [] \<longrightarrow>
      (\<exists>tr \<in> set trs. \<exists>copts sigs. tr_Name tr = r \<and> root_verifies ce cv img args tr copts sigs)" by blast
  have "\<forall>r \<in> set (ro_Required args). \<exists>tr \<in> set trs. tr_Name tr = r \<and>
       (\<exists>copts sigs. root_verifies ce cv img args tr copts sigs)"
    using 2 assms(3) by metis
  with trs 1 show ?thesis by blast
qed

theorem CosignValidator_sound_witness:
  "\<exists>tr copts sigs. tr_Name tr = ''alice'' \<and>
     root_verifies example_ce example_cv example_image (options_for ''*'' [''alice'']) tr copts sigs"
proof -
  have "cv_TrustRoots example_cv \<noteq> []" "fair rev" "[] \<notin> set (ro_Required (options_for ''*'' [''alice'']))"
    and r: "ro_Required (options_for ''*'' [''alice'']) = [''alice'']"
    by (simp_all add: example_cv_def options_for_def)
  from CosignValidator_sound[OF this(1-3) example_verdicts(3)] show ?thesis unfolding r by fastforce
qed

text \<open>
  C8 (functional). What is decided, exactly: with one goroutine per trust root, the validation returns \<open>d\<close> iff no
  goroutine reports an error (a missing image or no Fulcio certificates), the signatures of all
  trust roots together reach the threshold, the required trust roots are among the validating
  ones, and there are signatures, all with a payload for \<open>d\<close>.
\<close>
theorem CosignValidator_accepts_iff:
  assumes "fair sched" and "cv_TrustRoots cv \<noteq> []" and "trust_root_references cv args \<noteq> [''*'']"
    and "setupOptions ce cv args img = Inr opts"
    and "verifiers ce cv (trust_root_references cv args) = Inr vs"
  shows "CosignValidator_ValidateImage ce sched cv img args = Some (Inr d) \<longleftrightarrow>
    (let outs = map (validateWithVerifier ce cv (ce_AttachedImageRef ce img) opts) vs;
         sigs = concat (map vo_checkedSignatures outs)
     in list_all no_err outs \<and> signature_threshold args (length vs) \<le> int (length sigs) \<and>
        set (ro_Required args) \<subseteq> set (map vo_validatingTrustRoot outs) \<and>
        sigs \<noteq> [] \<and> (\<forall>s \<in> set sigs. payload_digest ce s = Inr d))"
  by (rule Cosign_ValidateImage_all_read[OF assms])

theorem CosignValidator_accepts_iff_witness:
  "\<exists>opts vs. setupOptions example_ce example_cv (options_for ''*'' []) example_image = Inr opts \<and>
     (let outs = map (validateWithVerifier example_ce example_cv ''img'' opts) vs
      in list_all no_err outs \<and> concat (map vo_checkedSignatures outs) \<noteq> [])"
proof -
  let ?args = "options_for ''*'' []"
  obtain opts vs where o: "setupOptions example_ce example_cv ?args example_image = Inr opts"
    "verifiers example_ce example_cv (trust_root_references example_cv ?args) = Inr vs"
    using example_verdicts(1) unfolding Cosign_ValidateImage_Inr by blast
  have a: "fair rev" "cv_TrustRoots example_cv \<noteq> []" "trust_root_references example_cv ?args \<noteq> [''*'']"
    by (simp_all add: example_cv_def example_root_def trust_root_references_def options_for_def zero_RuleOptions_def)
  have i: "ce_AttachedImageRef example_ce example_image = ''img''" by (simp add: example_ce_def example_image_def)
  from CosignValidator_accepts_iff[OF a o] example_verdicts(1) o(1) show ?thesis
    unfolding Let_def i by metis
qed

text \<open>
  C16 (equivalence). The order in which the goroutines finish does not change whether a digest is returned, nor which,
  as long as the rule does not name a single trust root \<open>*\<close> among the required ones.
\<close>
theorem CosignValidator_order_irrelevant:
  assumes "fair sched" and "fair sched'" and "cv_TrustRoots cv \<noteq> []"
    and "trust_root_references cv args \<noteq> [''*'']"
  shows "CosignValidator_ValidateImage ce sched cv img args = Some (Inr d) \<longleftrightarrow>
    CosignValidator_ValidateImage ce sched' cv img args = Some (Inr d)"
proof (cases "\<exists>opts vs. setupOptions ce cv args img = Inr opts \<and>
    verifiers ce cv (trust_root_references cv args) = Inr vs")
  case True
  then obtain opts vs where "setupOptions ce cv args img = Inr opts"
    "verifiers ce cv (trust_root_references cv args) = Inr vs" by blast
  note o = assms(3,4) this
  show ?thesis
    unfolding Cosign_ValidateImage_all_read[OF assms(1) o] Cosign_ValidateImage_all_read[OF assms(2) o] ..
next
  case False
  then show ?thesis unfolding Cosign_ValidateImage_Inr by blast
qed

theorem CosignValidator_order_irrelevant_witness:
  "CosignValidator_ValidateImage example_ce (\<lambda>outs. outs) example_cv example_image (options_for ''*'' []) =
     Some (Inr ''sha256:aa'')"
  using CosignValidator_order_irrelevant[of rev "\<lambda>outs. outs" example_cv "options_for ''*'' []" example_ce
      example_image "''sha256:aa''"] example_verdicts(1)
  by (simp add: example_cv_def example_root_def trust_root_references_def options_for_def zero_RuleOptions_def)

text \<open>
  A rule for all trust roots (\<open>*\<close> without required ones and without a threshold) needs a verification by each of
  them, provided that no trust root contributes more than one signature and that their names are
  distinct: the threshold is then the number of trust roots.
\<close>
theorem CosignValidator_all_trust_roots:
  assumes "cv_TrustRoots cv \<noteq> []" and "fair sched" and "distinct (map tr_Name (cv_TrustRoots cv))"
    and "set (map tr_Name (cv_TrustRoots cv)) \<inter> {[], ''*''} = {}"
    and "ro_TrustRoot args = ''*''" and "ro_Required args = []" and "ro_Threshold args = 0"
    and one: "\<And>tr copts sigs. root_verifies ce cv img args tr copts sigs \<Longrightarrow> length sigs \<le> 1"
    and "CosignValidator_ValidateImage ce sched cv img args = Some (Inr d)"
    and "tr \<in> set (cv_TrustRoots cv)"
  shows "\<exists>copts sigs. root_verifies ce cv img args tr copts sigs"
proof -
  let ?refs = "trust_root_references cv args"
  have refs: "?refs = map tr_Name (cv_TrustRoots cv)"
    using assms(5,6) by (simp add: trust_root_references_def)
  then have star: "?refs \<noteq> [''*'']" using assms(4) by auto
  obtain opts vs where o: "setupOptions ce cv args img = Inr opts" "verifiers ce cv ?refs = Inr vs"
    using assms(9) unfolding Cosign_ValidateImage_Inr by blast
  obtain trs where trs: "GetTrustRoots ?refs (cv_TrustRoots cv) True = Inr trs"
    "list_all2 (\<lambda>tr v. LoadVerifier ce tr = Inr v) trs vs" using o(2) unfolding verifiers_Inr by blast
  let ?out = "validateWithVerifier ce cv (ce_AttachedImageRef ce img) opts"
  have le: "length (vo_checkedSignatures (?out v)) \<le> 1"
    and ver: "vo_checkedSignatures (?out v) \<noteq> [] \<Longrightarrow> \<exists>copts sigs. root_verifies ce cv img args t copts sigs"
    if "LoadVerifier ce t = Inr v" for t v
    using output_verified[OF o(1) that refl] one by (metis length_0_conv zero_le)+
  have "int (length vs) \<le> int (length (concat (map vo_checkedSignatures (map ?out vs))))"
    using assms(9) unfolding Cosign_ValidateImage_all_read[OF assms(2,1) star o] Let_def
    by (simp add: signature_threshold_def assms(5-7))
  then have sum: "length vs \<le> (\<Sum>v\<leftarrow>vs. length (vo_checkedSignatures (?out v)))"
    by (simp add: length_concat comp_def)
  have "trs = cv_TrustRoots cv"
    using trs(1) assms(1,4) GetTrustRoots_all_names[OF assms(3)] refs by auto
  with assms(10) obtain v where v: "v \<in> set vs" "LoadVerifier ce tr = Inr v"
    using list_all2_in1[OF trs(2)] by blast
  have "length (vo_checkedSignatures (?out v)) = 1"
    using count_all[OF _ sum v(1)] le list_all2_in2[OF trs(2)] by blast
  then have "vo_checkedSignatures (?out v) \<noteq> []" by auto
  from ver[OF v(2) this] show ?thesis .
qed

theorem CosignValidator_all_trust_roots_witness:
  "\<exists>copts sigs. root_verifies (example_ce\<lparr>ce_VerifyImageSignatures := \<lambda>ref opts. Inr [''s1'']\<rparr>) example_cv
     example_image (options_for ''*'' []) (example_root ''bob'') copts sigs"
proof -
  let ?ce = "example_ce\<lparr>ce_VerifyImageSignatures := \<lambda>ref opts. Inr [''s1'']\<rparr>"
  have "payload_digest ?ce = payload_digest example_ce" by (rule ext) (simp add: payload_digest_def)
  then have dig: "signed_digests ?ce ss ds = signed_digests example_ce ss ds" for ss ds
    by (induction ss arbitrary: ds) (simp_all add: signed_digests_Cons del: signed_digests.simps(2) split: sum.split)
  have acc: "CosignValidator_ValidateImage ?ce rev example_cv example_image (options_for ''*'' []) = Some (Inr ''sha256:aa'')"
    by (simp add: example_run_defs Let_def dig example_signed example_ce_fields del: signed_digests.simps)
  have one: "length sigs \<le> 1"
    if "root_verifies ?ce example_cv example_image (options_for ''*'' []) tr copts sigs" for tr copts sigs
    using that by (auto simp: root_verifies_def)
  show ?thesis
    by (rule CosignValidator_all_trust_roots[OF _ _ _ _ _ _ _ one acc])
      (simp_all add: example_cv_def example_root_def options_for_def zero_RuleOptions_def)
qed

text \<open>The root does not verify the image: the library finds no signature by it.\<close>

definition no_signature_of ::
  "'o cosign_ext \<Rightarrow> 'o CosignValidator \<Rightarrow> Image \<Rightarrow> RuleOptions \<Rightarrow> TrustRoot \<Rightarrow> bool" where
  "no_signature_of ce cv img args tr \<longleftrightarrow>
     (\<exists>opts v copts err. setupOptions ce cv args img = Inr opts \<and> LoadVerifier ce tr = Inr v \<and>
        verifier_options ce cv opts v = Inr copts \<and>
        ce_VerifyImageSignatures ce (ce_AttachedImageRef ce img) copts = Inl err \<and>
        \<not> HasPrefix err ''image tag not found:'')"

lemma no_signature_output:
  assumes "no_signature_of ce cv img args tr" and "setupOptions ce cv args img = Inr opts" and "LoadVerifier ce tr = Inr v"
  shows "vo_checkedSignatures (validateWithVerifier ce cv (ce_AttachedImageRef ce img) opts v) = []"
    and "no_err (validateWithVerifier ce cv (ce_AttachedImageRef ce img) opts v)"
  using assms by (auto simp: no_signature_of_def validateWithVerifier_def Let_def)

text \<open>
  C30 (safety). Signatures are counted and not trust roots: a rule for all trust roots (\<open>*\<close> without required ones)
  accepts an image that only one of the trust roots signed exactly if that root has as many
  signatures as the threshold, or, without a threshold, as there are trust roots, and all of them are for the
  digest. This holds for every validator with distinct names of the trust roots and in every order of the
  goroutines, when the keys and options of all trust roots can be loaded. The documentation asks for
  signatures of that many trust roots.
\<close>
theorem CosignValidator_counts_signatures:
  assumes "fair sched" and "distinct (map tr_Name (cv_TrustRoots cv))"
    and "set (map tr_Name (cv_TrustRoots cv)) \<inter> {[], ''*''} = {}"
    and "ro_TrustRoot args = ''*''" and "ro_Required args = []"
    and "tr \<in> set (cv_TrustRoots cv)" and tr: "root_verifies ce cv img args tr copts sigs"
    and others: "\<And>tr'. tr' \<in> set (cv_TrustRoots cv) \<Longrightarrow> tr' \<noteq> tr \<Longrightarrow> no_signature_of ce cv img args tr'"
  shows "CosignValidator_ValidateImage ce sched cv img args = Some (Inr d) \<longleftrightarrow>
    (if ro_Threshold args > 0 then ro_Threshold args else int (length (cv_TrustRoots cv))) \<le> int (length sigs) \<and>
    (\<forall>s \<in> set sigs. payload_digest ce s = Inr d)"
proof -
  let ?trs = "cv_TrustRoots cv" and ?refs = "trust_root_references cv args"
  have ne: "?trs \<noteq> []" using assms(6) by auto
  have refs: "?refs = map tr_Name ?trs"
    using assms(4,5) by (simp add: trust_root_references_def)
  then have star: "?refs \<noteq> [''*'']" using assms(3) by auto
  obtain opts v where o: "setupOptions ce cv args img = Inr opts" "LoadVerifier ce tr = Inr v"
    "verifier_options ce cv opts v = Inr copts" "ce_VerifyImageSignatures ce (ce_AttachedImageRef ce img) copts = Inr sigs"
    using tr by (auto simp: root_verifies_def)
  have "\<exists>v'. LoadVerifier ce tr' = Inr v'" if "tr' \<in> set ?trs" for tr'
    using others[OF that] o(2) by (cases "tr' = tr") (auto simp: no_signature_of_def)
  then obtain ver where ver: "\<And>tr'. tr' \<in> set ?trs \<Longrightarrow> LoadVerifier ce tr' = Inr (ver tr')" by metis
  have vs: "verifiers ce cv ?refs = Inr (map ver ?trs)"
    unfolding verifiers_Inr refs using GetTrustRoots_all_names[OF assms(2) ne assms(3)] ver
    by (auto simp: list_all2_map2 list_all2_same)
  let ?out = "\<lambda>tr'. validateWithVerifier ce cv (ce_AttachedImageRef ce img) opts (ver tr')"
  have out: "vo_checkedSignatures (?out tr) = sigs" "no_err (?out tr)"
    using validateWithVerifier_Inr[OF o(3,4)] ver[OF assms(6)] o(2) by auto
  have rest: "vo_checkedSignatures (?out tr') = []" "no_err (?out tr')" if "tr' \<in> set ?trs" "tr' \<noteq> tr" for tr'
    using no_signature_output[OF others[OF that] o(1) ver[OF that(1)]] .
  obtain us ws where split: "?trs = us @ tr # ws" "tr \<notin> set us" "tr \<notin> set ws"
  proof -
    obtain us ws where "?trs = us @ tr # ws" using split_list[OF assms(6)] by blast
    moreover have "distinct ?trs" using assms(2) by (simp add: distinct_map)
    ultimately show thesis using that by simp
  qed
  have empty: "concat (map (vo_checkedSignatures \<circ> ?out) us) = []" "concat (map (vo_checkedSignatures \<circ> ?out) ws) = []"
    using rest(1) split by auto
  have sigs: "concat (map vo_checkedSignatures (map ?out ?trs)) = sigs"
    by (simp only: split(1) map_append list.map map_map concat_append concat.simps empty comp_apply out(1) append_Nil append_Nil2)
  have ok: "list_all no_err (map ?out ?trs)"
    unfolding list_all_iff using out(2) rest(2) by auto
  have "(if 0 < ro_Threshold args then ro_Threshold args else int (length ?trs)) \<le> int (length sigs) \<Longrightarrow> sigs \<noteq> []"
    using ne by (auto split: if_split_asm)
  then show ?thesis
    unfolding Cosign_ValidateImage_all_read[OF assms(1) ne star o(1) vs] Let_def
    using sigs ok by (auto simp: comp_def signature_threshold_def assms(4,5))
qed

theorem CosignValidator_counts_signatures_witness:
  "CosignValidator_ValidateImage example_ce rev example_cv example_image (options_for ''*'' []) = Some (Inr ''sha256:aa'') \<and>
   map tr_Name (cv_TrustRoots example_cv) = [''alice'', ''bob''] \<and>
   no_signature_of example_ce example_cv example_image (options_for ''*'' []) (example_root ''bob'')"
proof -
  let ?args = "options_for ''*'' []"
  obtain copts where r: "root_verifies example_ce example_cv example_image ?args (example_root ''alice'') copts [''s1'', ''s2'']"
    by (simp add: root_verifies_def example_run_defs example_ce_fields Let_def)
  have bob: "no_signature_of example_ce example_cv example_image ?args (example_root ''bob'')"
    by (simp add: no_signature_of_def example_run_defs example_ce_fields Let_def)
  have names: "map tr_Name (cv_TrustRoots example_cv) = [''alice'', ''bob'']"
    by (simp add: example_cv_def example_root_def)
  have others: "no_signature_of example_ce example_cv example_image ?args tr'"
    if "tr' \<in> set (cv_TrustRoots example_cv)" "tr' \<noteq> example_root ''alice''" for tr'
    using that bob by (auto simp: example_cv_def)
  have "CosignValidator_ValidateImage example_ce rev example_cv example_image ?args = Some (Inr ''sha256:aa'')"
    using CosignValidator_counts_signatures[OF _ _ _ _ _ _ r others, of rev "''sha256:aa''"] names example_digest
    by (simp add: options_for_def zero_RuleOptions_def example_cv_def)
  with names bob show ?thesis by blast
qed

text \<open>
  C27 (safety). No verification is unconstrained: whenever the library is asked to verify an image for a trust
  root, it gets either a public key, or Fulcio root certificates and exactly one identity with both
  an issuer and a subject. Unless the rule says otherwise, the transparency log and the signed
  certificate timestamps are checked with the configured or the public log keys; the
  credentials are those of the repository of the image.
\<close>
theorem CosignValidator_constrained:
  assumes "root_verifies ce cv img args tr copts sigs"
  shows "(co_SigVerifier copts \<noteq> None \<or>
      co_RootCerts copts \<noteq> None \<and> (\<exists>i. co_Identities copts = [i] \<and>
        (id_Issuer i \<noteq> [] \<or> id_IssuerRegExp i \<noteq> []) \<and> (id_Subject i \<noteq> [] \<or> id_SubjectRegExp i \<noteq> []))) \<and>
    (co_IgnoreTlog copts \<longleftrightarrow> ro_VerifyTLog args = Some False) \<and>
    (co_IgnoreSCT copts \<longleftrightarrow> ro_VerifySCT args = Some False) \<and>
    (\<not> co_IgnoreTlog copts \<longrightarrow> (\<exists>k. getRekorPubKey ce cv = Inr k \<and> co_RekorPubKeys copts = Some k)) \<and>
    (\<not> co_IgnoreSCT copts \<longrightarrow> (\<exists>k. getCTLogPubKeys ce cv = Inr k \<and> co_CTLogPubKeys copts = Some k)) \<and>
    co_AuthConfig copts = LookUp (cv_Auth cv) (repo_Name (Context img))"
proof -
  obtain opts v where o: "setupOptions ce cv args img = Inr opts" "LoadVerifier ce tr = Inr v"
    "verifier_options ce cv opts v = Inr copts" using assms unfolding root_verifies_def by blast
  note opts = setupOptions_Inr[OF o(1)]
  show ?thesis
  proof (cases "vf_KeyVerifier v")
    case (Some k)
    then have "copts = opts\<lparr>co_SigVerifier := Some k\<rparr>" using o(3) by (simp add: verifier_options_def)
    with opts show ?thesis by simp
  next
    case None
    then obtain root inter where f: "getFulcioCerts ce cv = Inr (root, inter)"
      and c: "copts = opts\<lparr>co_RootCerts := root, co_IntermediateCerts := inter,
                co_Identities := co_Identities opts @ [vf_KeylessVerifier v]\<rparr>"
      using o(3) by (cases "getFulcioCerts ce cv") (auto simp: verifier_options_def)
    obtain r where "root = Some r" using getFulcioCerts_root[OF f] by blast
    with c opts LoadVerifier_cases[OF o(2)] None show ?thesis by auto
  qed
qed

theorem CosignValidator_constrained_witness:
  "\<exists>copts :: string CheckOpts. co_SigVerifier copts = Some ''alice'' \<and> co_RekorPubKeys copts = Some ''rekor'' \<and> \<not> co_IgnoreTlog copts"
proof -
  let ?args = "options_for ''alice'' []"
  obtain copts where r: "root_verifies example_ce example_cv example_image ?args (example_root ''alice'') copts [''s1'', ''s2'']"
    and k: "co_SigVerifier copts = Some ''alice''"
    by (simp add: root_verifies_def example_run_defs example_ce_fields Let_def)
  have "ro_VerifyTLog ?args = None" "getRekorPubKey example_ce example_cv = Inr ''rekor''"
    by (simp_all add: options_for_def zero_RuleOptions_def getRekorPubKey_def example_cv_def example_ce_fields)
  with CosignValidator_constrained[OF r] k show ?thesis by (intro exI[of _ copts]) auto
qed

end
