(* ===== verification/Notation.thy ===== *)
theory Notation
  imports Trust_Auth Validator_Iface
begin

text \<open>
  Package \<open>internal/validator/notation\<close>: the Notation validator (\<open>notation_validator.go\<close>) and its
  in-memory trust store (\<open>trust_store.go\<close>). Values of the libraries (certificates, pools,
  verifiers, repositories) are opaque, of type \<open>'o\<close>. The HTTP client of the registry is the global
  variable \<open>orasAuth.DefaultClient\<close>, which a validation changes: it is a state that is passed along.
\<close>

section \<open>Definitions\<close>

subsection \<open>trust_store.go\<close>

datatype truststore_type = TypeCA | TypeTSA

fun type_String :: "truststore_type \<Rightarrow> string" where
  "type_String TypeCA = ''ca''"
| "type_String TypeTSA = ''tsa''"

record TrustStoreKey =
  tsk_name :: string
  tsk_type :: truststore_type

record 'o InMemoryTrustStore =
  ts_trustRoots :: "TrustRoot list"
  ts_certs :: "(TrustStoreKey \<times> 'o list) list"

text \<open>The policy document and the options that are handed to the library.\<close>

record TrustPolicy =
  tp_Name :: string
  tp_RegistryScopes :: "string list"
  tp_VerificationLevel :: string
  tp_VerifyTimestamp :: string
  tp_TrustStores :: "string list"
  tp_TrustedIdentities :: "string list"

record Document =
  doc_Version :: string
  doc_TrustPolicies :: "TrustPolicy list"

record VerifyOptions =
  vo_ArtifactReference :: string
  vo_MaxSignatureAttempts :: nat

text \<open>The fields of the global client that are assigned: TLS roots and credential function.\<close>

record 'o oras_client =
  oc_RootCAs :: "'o option"
  oc_Credential :: "(string \<Rightarrow> AuthEntry) option"

record 'o notation_ext =
  no_PemDecode :: "string \<Rightarrow> string option"
  no_ParseCertificate :: "string \<Rightarrow> 'o res"
  no_CertsFromPEM :: "string \<Rightarrow> 'o option"
  no_NewVerifier :: "Document \<Rightarrow> 'o InMemoryTrustStore \<Rightarrow> 'o res"
  no_NewRemoteRepository :: "string \<Rightarrow> 'o res"
  no_Resolve :: "'o \<Rightarrow> 'o oras_client \<Rightarrow> string \<Rightarrow> string res"
  no_Verify :: "'o \<Rightarrow> 'o \<Rightarrow> 'o oras_client \<Rightarrow> VerifyOptions \<Rightarrow> string res"

definition parseCertificate :: "'o notation_ext \<Rightarrow> string \<Rightarrow> 'o res" where
  "parseCertificate ne cert =
     (case no_PemDecode ne cert of
        None \<Rightarrow> Inl ''failed to decode certificate''
      | Some bytes \<Rightarrow>
          (case no_ParseCertificate ne bytes of
             Inl err \<Rightarrow> Inl (''failed to parse certificate: '' @ err)
           | Inr certParsed \<Rightarrow> Inr certParsed))"

fun store_certs ::
  "'o notation_ext \<Rightarrow> TrustRoot list \<Rightarrow> (TrustStoreKey \<times> 'o list) list \<Rightarrow> (TrustStoreKey \<times> 'o list) list res" where
  "store_certs ne [] certs = Inr certs"
| "store_certs ne (trustRoot # trs) certs =
     (if tr_Cert trustRoot = []
      then Inl (''no certificate provided for trust root '' @ tr_Name trustRoot)
      else case parseCertificate ne (tr_Cert trustRoot) of
        Inl err \<Rightarrow> Inl (''failed to parse certificate for trust root '' @ tr_Name trustRoot @ '': '' @ err)
      | Inr cert \<Rightarrow>
          let certs = map_put \<lparr>tsk_name = tr_Name trustRoot, tsk_type = TypeCA\<rparr> [cert] certs
          in if tr_TSCert trustRoot = [] then store_certs ne trs certs
             else case parseCertificate ne (tr_TSCert trustRoot) of
               Inl err \<Rightarrow> Inl (''failed to parse timestamp certificate for trust root '' @
                            tr_Name trustRoot @ '': '' @ err)
             | Inr tsCert \<Rightarrow>
                 store_certs ne trs (map_put \<lparr>tsk_name = tr_Name trustRoot, tsk_type = TypeTSA\<rparr> [tsCert] certs))"

definition NewInMemoryTrustStore :: "'o notation_ext \<Rightarrow> TrustRoot list \<Rightarrow> 'o InMemoryTrustStore res" where
  "NewInMemoryTrustStore ne trustRoots =
     map_sum id (\<lambda>certs. \<lparr>ts_trustRoots = trustRoots, ts_certs = certs\<rparr>) (store_certs ne trustRoots [])"

text \<open>The loop over the map finds the entry of the one key with this name and type.\<close>

definition GetCertificates :: "'o InMemoryTrustStore \<Rightarrow> truststore_type \<Rightarrow> string \<Rightarrow> 'o list res" where
  "GetCertificates imts type namedStore =
     (case find (\<lambda>(tsk, certs). tsk_name tsk = namedStore \<and> tsk_type tsk = type) (ts_certs imts) of
        Some (tsk, certs) \<Rightarrow> Inr certs
      | None \<Rightarrow> Inl (''no certificates found for trustRoot '' @ namedStore))"

subsection \<open>notation_validator.go\<close>

text \<open>\<open>nt_TrustStore\<close> is the interface value, \<^const>\<open>None\<close> if it is nil.\<close>

record 'o NotationValidator =
  nt_Name :: string
  nt_Type :: string
  nt_Auth :: Auth
  nt_RootCA :: "'o option"
  nt_TrustStore :: "'o InMemoryTrustStore option"

record NotationValidatorYaml =
  ny_Name :: string
  ny_Type :: string
  ny_Auth :: Auth
  ny_Cert :: string
  ny_TrustRoots :: "TrustRoot list"

definition NotationValidator_UnmarshalYAML ::
  "'o notation_ext \<Rightarrow> NotationValidatorYaml res \<Rightarrow> 'o NotationValidator res" where
  "NotationValidator_UnmarshalYAML ne unmarshalled =
     (case unmarshalled of
        Inl err \<Rightarrow> Inl err
      | Inr valData \<Rightarrow>
          if length (ny_TrustRoots valData) < 1
          then Inl (''no trust roots provided for validator '' @ ny_Name valData)
          else case NewInMemoryTrustStore ne (ny_TrustRoots valData) of
            Inl err \<Rightarrow> Inl (''failed to create trust store: '' @ err)
          | Inr imts \<Rightarrow>
              (case (if ny_Cert valData \<noteq> []
                     then (case no_CertsFromPEM ne (ny_Cert valData) of
                             None \<Rightarrow> Inl ''failed to parse certificate'' | Some c \<Rightarrow> Inr (Some c))
                     else Inr None) of
                 Inl err \<Rightarrow> Inl err
               | Inr rootCA \<Rightarrow>
                   Inr \<lparr>nt_Name = ny_Name valData, nt_Type = ny_Type valData, nt_Auth = ny_Auth valData,
                        nt_RootCA = rootCA, nt_TrustStore = Some imts\<rparr>))"

fun trust_stores :: "TrustRoot list \<Rightarrow> string list" where
  "trust_stores [] = []"
| "trust_stores (tr # trs) =
     (type_String TypeCA @ '':'' @ tr_Name tr) #
     (if tr_TSCert tr \<noteq> [] then [type_String TypeTSA @ '':'' @ tr_Name tr] else []) @ trust_stores trs"

definition setUpTrustPolicy ::
  "'o NotationValidator \<Rightarrow> Image \<Rightarrow> RuleOptions \<Rightarrow> Document res go" where
  "setUpTrustPolicy nv img args =
     (case nt_TrustStore nv of
        None \<Rightarrow> Panic ''interface conversion''
      | Some imts \<Rightarrow> Ret
          (case GetTrustRoots [ro_TrustRoot args] (ts_trustRoots imts) True of
             Inl err \<Rightarrow> Inl (''failed to get trust roots: '' @ err)
           | Inr trs \<Rightarrow>
               Inr \<lparr>doc_Version = ''1.0'', doc_TrustPolicies =
                 [\<lparr>tp_Name = ''default'', tp_RegistryScopes = [repo_Name (Context img)],
                   tp_VerificationLevel = StringDefault (ro_VerificationLevel args) ''strict'',
                   tp_VerifyTimestamp = StringDefault (ro_VerifyTimestamp args) ''always'',
                   tp_TrustStores = trust_stores trs, tp_TrustedIdentities = [''*'']\<rparr>]\<rparr>))"

text \<open>The assignments to the fields of the global client.\<close>

definition configure_client ::
  "'o NotationValidator \<Rightarrow> Image \<Rightarrow> 'o oras_client \<Rightarrow> 'o oras_client" where
  "configure_client nv img client =
     (let client = (case nt_RootCA nv of
            None \<Rightarrow> client | Some ca \<Rightarrow> client\<lparr>oc_RootCAs := Some ca\<rparr>);
          authn = LookUp (nt_Auth nv) (repo_Name (Context img))
      in if ae_Username authn \<noteq> [] \<and> ae_Password authn \<noteq> []
         then client\<lparr>oc_Credential := Some (\<lambda>registry.
                if registry = repo_RegistryStr (Context img) then authn else zero_AuthEntry)\<rparr>
         else client)"

text \<open>
  The result: the image as the validation leaves it, the digest or an error, and the global client.
\<close>

definition NotationValidator_ValidateImage ::
  "'o notation_ext \<Rightarrow> 'o NotationValidator \<Rightarrow> 'o oras_client \<Rightarrow> Image \<Rightarrow> RuleOptions \<Rightarrow>
     ((Image \<times> string res) \<times> 'o oras_client) go" where
  "NotationValidator_ValidateImage ne nv client img args =
     go_bind (setUpTrustPolicy nv img args) (\<lambda>policy.
       case policy of
         Inl err \<Rightarrow> Ret ((img, Inl (''failed to set up trust policy: '' @ err)), client)
       | Inr trustPolicy \<Rightarrow>
      (case nt_TrustStore nv of
         None \<Rightarrow> Panic ''nil pointer dereference''
       | Some imts \<Rightarrow>
      (case no_NewVerifier ne trustPolicy imts of
         Inl err \<Rightarrow> Ret ((img, Inl (''failed to create verifier: '' @ err)), client)
       | Inr verifier \<Rightarrow>
      (case no_NewRemoteRepository ne (repo_Name (Context img)) of
         Inl err \<Rightarrow> Ret ((img, Inl (''failed to create remote repository: '' @ err)), client)
       | Inr remoteRepo \<Rightarrow>
           let client = configure_client nv img client
           in case (if Digest img = []
                    then map_sum id (SetDigest img) (no_Resolve ne remoteRepo client (Name img))
                    else Inr img) of
             Inl err \<Rightarrow> Ret ((img, Inl (''failed to resolve image tag: '' @ err)), client)
           | Inr img \<Rightarrow>
               let verifyOptions = \<lparr>vo_ArtifactReference = repo_Name (Context img) @ ''@'' @ Digest img,
                                    vo_MaxSignatureAttempts = 10\<rparr>
               in Ret ((img, case no_Verify ne verifier remoteRepo client verifyOptions of
                               Inl err \<Rightarrow> Inl (''failed to verify image: '' @ err)
                             | Inr digest \<Rightarrow> Inr digest), client)))))"

text \<open>The method of the interface, for a state of the global client.\<close>

definition notation_method ::
  "'o notation_ext \<Rightarrow> 'o NotationValidator \<Rightarrow> 'o oras_client \<Rightarrow> validate" where
  "notation_method ne nv client img args =
     go_bind (NotationValidator_ValidateImage ne nv client img args) (\<lambda>(result, client'). Ret result)"

section \<open>Lemmas\<close>

subsection \<open>The trust store\<close>

abbreviation tsk :: "string \<Rightarrow> truststore_type \<Rightarrow> TrustStoreKey" where
  "tsk n t \<equiv> \<lparr>tsk_name = n, tsk_type = t\<rparr>"

fun cert_text :: "truststore_type \<Rightarrow> TrustRoot \<Rightarrow> string" where
  "cert_text TypeCA tr = tr_Cert tr"
| "cert_text TypeTSA tr = tr_TSCert tr"

text \<open>A certificate list comes from a trust root of the name that it is stored under.\<close>

definition certs_from :: "'o notation_ext \<Rightarrow> TrustRoot list \<Rightarrow> string \<Rightarrow> truststore_type \<Rightarrow> 'o list \<Rightarrow> bool" where
  "certs_from ne trs n t cs \<longleftrightarrow>
     (\<exists>tr \<in> set trs. tr_Name tr = n \<and> cert_text t tr \<noteq> [] \<and>
        (\<exists>c. cs = [c] \<and> parseCertificate ne (cert_text t tr) = Inr c))"

lemma store_certs_step:
  assumes "store_certs ne (tr # trs) certs = Inr certs'"
  obtains c certs1 where "tr_Cert tr \<noteq> []" "parseCertificate ne (tr_Cert tr) = Inr c"
    and "store_certs ne trs certs1 = Inr certs'"
    and "tr_TSCert tr = [] \<and> certs1 = map_put (tsk (tr_Name tr) TypeCA) [c] certs \<or>
      tr_TSCert tr \<noteq> [] \<and> (\<exists>c'. parseCertificate ne (tr_TSCert tr) = Inr c' \<and>
        certs1 = map_put (tsk (tr_Name tr) TypeTSA) [c'] (map_put (tsk (tr_Name tr) TypeCA) [c] certs))"
  using assms by (auto simp: Let_def split: if_split_asm sum.split_asm)

lemma store_certs_origin:
  "store_certs ne trs certs = Inr certs' \<Longrightarrow> map_of certs' (tsk n t) = Some cs \<Longrightarrow>
   map_of certs (tsk n t) = Some cs \<or> certs_from ne trs n t cs"
proof (induction trs arbitrary: certs)
  case (Cons tr trs)
  from Cons.prems(1) obtain c certs1 where s: "tr_Cert tr \<noteq> []" "parseCertificate ne (tr_Cert tr) = Inr c"
    "store_certs ne trs certs1 = Inr certs'"
    and c: "tr_TSCert tr = [] \<and> certs1 = map_put (tsk (tr_Name tr) TypeCA) [c] certs \<or>
      tr_TSCert tr \<noteq> [] \<and> (\<exists>c'. parseCertificate ne (tr_TSCert tr) = Inr c' \<and>
        certs1 = map_put (tsk (tr_Name tr) TypeTSA) [c'] (map_put (tsk (tr_Name tr) TypeCA) [c] certs))"
    by (rule store_certs_step)
  have more: "certs_from ne (tr # trs) n t cs" if "certs_from ne trs n t cs"
    using that by (auto simp: certs_from_def)
  have new: "map_of certs1 (tsk n t) = Some cs \<Longrightarrow> map_of certs (tsk n t) = Some cs \<or> certs_from ne (tr # trs) n t cs"
    using c s by (cases t) (auto simp: certs_from_def split: if_split_asm)
  from Cons.IH[OF s(3) Cons.prems(2)] more new show ?case by blast
qed simp

lemma store_certs_keeps:
  "store_certs ne trs certs = Inr certs' \<Longrightarrow> map_of certs k \<noteq> None \<Longrightarrow> map_of certs' k \<noteq> None"
proof (induction trs arbitrary: certs)
  case (Cons tr trs)
  from Cons.prems(1) show ?case
  proof (rule store_certs_step)
    fix c certs1
    assume s: "store_certs ne trs certs1 = Inr certs'"
      and c: "tr_TSCert tr = [] \<and> certs1 = map_put (tsk (tr_Name tr) TypeCA) [c] certs \<or>
        tr_TSCert tr \<noteq> [] \<and> (\<exists>c'. parseCertificate ne (tr_TSCert tr) = Inr c' \<and>
          certs1 = map_put (tsk (tr_Name tr) TypeTSA) [c'] (map_put (tsk (tr_Name tr) TypeCA) [c] certs))"
    have "map_of certs1 k \<noteq> None" using c Cons.prems(2) by auto
    from Cons.IH[OF s this] show ?thesis .
  qed
qed simp

lemma store_certs_present:
  "store_certs ne trs certs = Inr certs' \<Longrightarrow> tr \<in> set trs \<Longrightarrow> cert_text t tr \<noteq> [] \<Longrightarrow>
   map_of certs' (tsk (tr_Name tr) t) \<noteq> None"
proof (induction trs arbitrary: certs)
  case (Cons tr' trs)
  from Cons.prems(1) obtain c certs1 where s: "store_certs ne trs certs1 = Inr certs'"
    and c: "tr_TSCert tr' = [] \<and> certs1 = map_put (tsk (tr_Name tr') TypeCA) [c] certs \<or>
      tr_TSCert tr' \<noteq> [] \<and> (\<exists>c'. parseCertificate ne (tr_TSCert tr') = Inr c' \<and>
        certs1 = map_put (tsk (tr_Name tr') TypeTSA) [c'] (map_put (tsk (tr_Name tr') TypeCA) [c] certs))"
    by (rule store_certs_step)
  show ?case
  proof (cases "tr = tr'")
    case True
    then have "map_of certs1 (tsk (tr_Name tr) t) \<noteq> None" using c Cons.prems(3) by (cases t) auto
    from store_certs_keeps[OF s this] show ?thesis .
  next
    case False
    with Cons.prems(2) have "tr \<in> set trs" by simp
    from Cons.IH[OF s this Cons.prems(3)] show ?thesis .
  qed
qed simp

lemma store_certs_all: "store_certs ne trs certs = Inr certs' \<Longrightarrow> tr \<in> set trs \<Longrightarrow> tr_Cert tr \<noteq> []"
proof (induction trs arbitrary: certs)
  case (Cons tr' trs)
  from Cons.prems(1) obtain certs1 where "tr_Cert tr' \<noteq> []" "store_certs ne trs certs1 = Inr certs'"
    by (rule store_certs_step)
  with Cons.IH Cons.prems(2) show ?case by auto
qed simp

lemma GetCertificates_map_of:
  "GetCertificates imts t n = (case map_of (ts_certs imts) (tsk n t) of
     Some cs \<Rightarrow> Inr cs | None \<Rightarrow> Inl (''no certificates found for trustRoot '' @ n))"
proof -
  have "map_option snd (find (\<lambda>(k, certs). tsk_name k = n \<and> tsk_type k = t) xs) = map_of xs (tsk n t)" for xs :: "(TrustStoreKey \<times> 'a list) list"
  proof (induction xs)
    case (Cons x xs)
    obtain k cs where "x = (k, cs)" by (cases x)
    with Cons show ?case by (cases k) auto
  qed simp
  from this[of "ts_certs imts", symmetric] show ?thesis
    by (auto simp: GetCertificates_def split: option.split)
qed

lemma trust_stores_mem:
  "ts \<in> set (trust_stores trs) \<Longrightarrow>
     \<exists>tr \<in> set trs. \<exists>t. ts = type_String t @ '':'' @ tr_Name tr \<and> (t = TypeTSA \<longrightarrow> tr_TSCert tr \<noteq> [])"
proof (induction trs)
  case (Cons tr trs)
  then consider "ts = type_String TypeCA @ '':'' @ tr_Name tr"
    | "ts = type_String TypeTSA @ '':'' @ tr_Name tr" "tr_TSCert tr \<noteq> []" | "ts \<in> set (trust_stores trs)"
    by (auto split: if_split_asm simp del: type_String.simps)
  then show ?case
  proof cases
    case 1
    then show ?thesis by (intro bexI[of _ tr] exI[of _ TypeCA]) simp_all
  next
    case 2
    then show ?thesis by (intro bexI[of _ tr] exI[of _ TypeTSA]) simp_all
  next
    case 3
    from Cons.IH[OF this] show ?thesis by auto
  qed
qed simp

lemma trust_store_provided:
  assumes "NewInMemoryTrustStore ne trs = Inr imts" and "set sel \<subseteq> set trs" and "ts \<in> set (trust_stores sel)"
  shows "\<exists>t n cs. ts = type_String t @ '':'' @ n \<and> GetCertificates imts t n = Inr cs \<and>
    certs_from ne trs n t cs \<and> n \<in> tr_Name ` set sel"
proof -
  obtain certs where st: "store_certs ne trs [] = Inr certs" and im: "ts_certs imts = certs"
    using assms(1) by (auto simp: NewInMemoryTrustStore_def map_sum_def split: sum.split_asm)
  obtain tr t where tr: "tr \<in> set sel" "ts = type_String t @ '':'' @ tr_Name tr" "t = TypeTSA \<longrightarrow> tr_TSCert tr \<noteq> []"
    using trust_stores_mem[OF assms(3)] by blast
  then have mem: "tr \<in> set trs" using assms(2) by blast
  have "cert_text t tr \<noteq> []" using store_certs_all[OF st mem] tr(3) by (cases t) auto
  from store_certs_present[OF st mem this] obtain cs where cs: "map_of certs (tsk (tr_Name tr) t) = Some cs" by blast
  with store_certs_origin[OF st this] tr(1,2) show ?thesis
    unfolding GetCertificates_map_of im by fastforce
qed

subsection \<open>The validation\<close>

lemma Notation_ValidateImage_Inr:
  assumes "NotationValidator_ValidateImage ne nv client img args = Ret ((img', Inr d), client')"
  obtains imts doc verifier repo where "nt_TrustStore nv = Some imts"
    and "setUpTrustPolicy nv img args = Ret (Inr doc)" and "no_NewVerifier ne doc imts = Inr verifier"
    and "no_NewRemoteRepository ne (repo_Name (Context img)) = Inr repo"
    and "client' = configure_client nv img client"
    and "Digest img \<noteq> [] \<and> img' = img \<or>
      Digest img = [] \<and> (\<exists>r. no_Resolve ne repo client' (Name img) = Inr r \<and> img' = SetDigest img r)"
    and "no_Verify ne verifier repo client'
      \<lparr>vo_ArtifactReference = repo_Name (Context img') @ ''@'' @ Digest img', vo_MaxSignatureAttempts = 10\<rparr> = Inr d"
proof -
  note V = assms[unfolded NotationValidator_ValidateImage_def Let_def]
  obtain policy where p: "setUpTrustPolicy nv img args = Ret policy"
    using V by (cases "setUpTrustPolicy nv img args") simp_all
  obtain doc where doc: "policy = Inr doc" using V p by (cases policy) simp_all
  obtain imts where ts: "nt_TrustStore nv = Some imts" using V p doc by (cases "nt_TrustStore nv") simp_all
  obtain verifier where v: "no_NewVerifier ne doc imts = Inr verifier"
    using V p doc ts by (cases "no_NewVerifier ne doc imts") simp_all
  obtain repo where r: "no_NewRemoteRepository ne (repo_Name (Context img)) = Inr repo"
    using V p doc ts v by (cases "no_NewRemoteRepository ne (repo_Name (Context img))") simp_all
  note V' = V[unfolded p doc go_bind.simps sum.case ts option.case v r]
  let ?c = "configure_client nv img client"
  let ?res = "if Digest img = [] then map_sum id (SetDigest img) (no_Resolve ne repo ?c (Name img)) else Inr img"
  obtain i where i: "?res = Inr i" using V' by (cases ?res) simp_all
  have eq: "i = img'" "client' = ?c" using V'[unfolded i] by simp_all
  have ver: "no_Verify ne verifier repo ?c
      \<lparr>vo_ArtifactReference = repo_Name (Context i) @ ''@'' @ Digest i, vo_MaxSignatureAttempts = 10\<rparr> = Inr d"
    using V'[unfolded i] by (simp split: sum.split_asm)
  have "Digest img \<noteq> [] \<and> img' = img \<or>
      Digest img = [] \<and> (\<exists>r. no_Resolve ne repo ?c (Name img) = Inr r \<and> img' = SetDigest img r)"
    using i unfolding eq by (cases "no_Resolve ne repo ?c (Name img)") (auto split: if_split_asm)
  with that ts p doc v r ver show ?thesis unfolding eq by blast
qed

lemma Notation_ValidateImage_returns:
  assumes "nt_TrustStore nv \<noteq> None"
  shows "\<exists>img' r client'. NotationValidator_ValidateImage ne nv client img args = Ret ((img', r), client') \<and>
    original img' = original img \<and> img_ref img' = img_ref img \<and> img_tag img' = img_tag img"
proof -
  obtain imts where t: "nt_TrustStore nv = Some imts" using assms by blast
  have sd: "original (SetDigest img r) = original img" "img_ref (SetDigest img r) = img_ref img"
    "img_tag (SetDigest img r) = img_tag img" for r by (simp_all add: SetDigest_def Let_def)
  show ?thesis
    unfolding NotationValidator_ValidateImage_def setUpTrustPolicy_def t Let_def
    by (auto simp: sd map_sum_def split: sum.split)
qed

lemma Notation_UnmarshalYAML_Inr:
  assumes "NotationValidator_UnmarshalYAML ne y = Inr nv"
  obtains valData imts where "y = Inr valData" and "ny_TrustRoots valData \<noteq> []"
    and "NewInMemoryTrustStore ne (ny_TrustRoots valData) = Inr imts" and "nt_TrustStore nv = Some imts"
    and "nt_Auth nv = ny_Auth valData"
  using assms unfolding NotationValidator_UnmarshalYAML_def
  by (auto simp: Suc_le_eq split: sum.split_asm if_split_asm option.split_asm)

lemma store_trustRoots: "NewInMemoryTrustStore ne trs = Inr imts \<Longrightarrow> ts_trustRoots imts = trs"
  by (auto simp: NewInMemoryTrustStore_def map_sum_def split: sum.split_asm)

lemma setUpTrustPolicy_Inr:
  assumes "setUpTrustPolicy nv img args = Ret (Inr doc)" and "nt_TrustStore nv = Some imts"
  obtains trs where "GetTrustRoots [ro_TrustRoot args] (ts_trustRoots imts) True = Inr trs"
    and "doc_TrustPolicies doc = [\<lparr>tp_Name = ''default'', tp_RegistryScopes = [repo_Name (Context img)],
       tp_VerificationLevel = (if ro_VerificationLevel args = [] then ''strict'' else ro_VerificationLevel args),
       tp_VerifyTimestamp = (if ro_VerifyTimestamp args = [] then ''always'' else ro_VerifyTimestamp args),
       tp_TrustStores = trust_stores trs, tp_TrustedIdentities = [''*'']\<rparr>]"
  using assms by (auto simp: setUpTrustPolicy_def StringDefault_def split: sum.split_asm)

interpretation notation_image: keeps_image "notation_method ne nv client" for ne :: "'o notation_ext" and nv client
proof
  fix img opts img' r
  assume "notation_method ne nv client img opts = Ret (img', r)"
  then show "original img' = original img \<and> img_ref img' = img_ref img \<and> img_tag img' = img_tag img"
    using Notation_ValidateImage_returns[of nv ne client img opts]
    by (cases "nt_TrustStore nv") (auto simp: notation_method_def NotationValidator_ValidateImage_def setUpTrustPolicy_def)
qed

text \<open>A loaded validator fulfils the contract of the interface, for every state of the global client.\<close>

locale notation_loaded =
  fixes ne :: "'o notation_ext" and nv :: "'o NotationValidator" and client :: "'o oras_client"
    and unmarshalled :: "NotationValidatorYaml res"
  assumes loaded: "NotationValidator_UnmarshalYAML ne unmarshalled = Inr nv"
begin

lemma has_store: "nt_TrustStore nv \<noteq> None"
  using Notation_UnmarshalYAML_Inr[OF loaded] by (metis option.simps(3))

end

sublocale notation_loaded \<subseteq> iface: validator_method "notation_method ne nv client"
proof
  show "\<exists>img' r. notation_method ne nv client img opts = Ret (img', r)" for img opts
    using Notation_ValidateImage_returns[OF has_store, of ne client img opts] by (auto simp: notation_method_def)
qed

section \<open>An example\<close>

definition example_ne :: "string notation_ext" where
  "example_ne = \<lparr>no_PemDecode = Some, no_ParseCertificate = Inr, no_CertsFromPEM = Some,
     no_NewVerifier = (\<lambda>doc imts. Inr ''verifier''), no_NewRemoteRepository = Inr,
     no_Resolve = (\<lambda>repo client ref. Inr ''sha256:aa''),
     no_Verify = (\<lambda>verifier repo client opts. Inr ''sha256:aa'')\<rparr>"

definition example_notation :: "Auth \<Rightarrow> NotationValidatorYaml" where
  "example_notation a = \<lparr>ny_Name = ''default'', ny_Type = ''notation'', ny_Auth = a, ny_Cert = [],
     ny_TrustRoots = [\<lparr>tr_Name = ''alice'', tr_Key = [], tr_Cert = ''pem'', tr_TSCert = [],
       tr_Keyless = \<lparr>kl_Issuer = [], kl_Subject = [], kl_IssuerRegex = [], kl_SubjectRegex = []\<rparr>\<rparr>]\<rparr>"

definition notation_img :: Image where
  "notation_img = \<lparr>original = ''img'', img_ref = \<lparr>ref_Context = \<lparr>repo_Name = ''reg/img'', repo_RegistryStr = ''reg''\<rparr>,
     ref_Identifier = ''latest'', ref_Scope = id\<rparr>, img_tag = ''latest'', img_digest = []\<rparr>"

abbreviation no_auth :: Auth where "no_auth \<equiv> \<lparr>AuthConfigs = [], UseKeychain = False\<rparr>"
abbreviation user_auth :: Auth where
  "user_auth \<equiv> \<lparr>AuthConfigs = [(''reg'', \<lparr>ae_Username = ''u'', ae_Password = ''p''\<rparr>)], UseKeychain = False\<rparr>"
abbreviation default_options :: RuleOptions where "default_options \<equiv> zero_RuleOptions\<lparr>ro_TrustRoot := ''alice''\<rparr>"
abbreviation fresh_client :: "string oras_client" where
  "fresh_client \<equiv> \<lparr>oc_RootCAs = None, oc_Credential = None\<rparr>"

definition example_validator :: "Auth \<Rightarrow> string NotationValidator" where
  "example_validator a = \<lparr>nt_Name = ''default'', nt_Type = ''notation'', nt_Auth = a, nt_RootCA = None,
     nt_TrustStore = Some \<lparr>ts_trustRoots = ny_TrustRoots (example_notation a),
       ts_certs = [(tsk ''alice'' TypeCA, [''pem''])]\<rparr>\<rparr>"

lemma notation_example_loaded: "NotationValidator_UnmarshalYAML example_ne (Inr (example_notation a)) = Inr (example_validator a)"
  by (simp add: NotationValidator_UnmarshalYAML_def NewInMemoryTrustStore_def example_notation_def
      example_validator_def parseCertificate_def example_ne_def)

lemma example_validation:
  "\<exists>img'. NotationValidator_ValidateImage example_ne (example_validator a) c notation_img default_options =
     Ret ((img', Inr ''sha256:aa''), configure_client (example_validator a) notation_img c)"
  by (simp add: NotationValidator_ValidateImage_def setUpTrustPolicy_def example_validator_def
      example_notation_def GetTrustRoots_def effective_refs_def zero_RuleOptions_def Let_def example_ne_def)

interpretation example_notation: notation_loaded example_ne "example_validator a" fresh_client "Inr (example_notation a)" for a
  by unfold_locales (rule notation_example_loaded)

section \<open>Properties\<close>

text \<open>
  C6 (safety). No digest without a verification by Notation: if the validation of a loaded validator returns the
  digest \<open>d\<close>, the library verified the reference of the image's repository with its
  digest (the given one, or the one that the tag resolves to) under a policy that lists the trust stores of
  exactly the trust roots of the rule, strictly unless the rule sets another level; and each
  of these stores is provided with the certificate of a configured trust root of that name.
\<close>
theorem NotationValidator_sound:
  assumes "NotationValidator_UnmarshalYAML ne (Inr valData) = Inr nv"
    and "NotationValidator_ValidateImage ne nv client img args = Ret ((img', Inr d), client')"
  shows "\<exists>imts trs doc policy verifier repo.
    GetTrustRoots [ro_TrustRoot args] (ny_TrustRoots valData) True = Inr trs \<and>
    doc_TrustPolicies doc = [policy] \<and> tp_TrustStores policy = trust_stores trs \<and>
    tp_RegistryScopes policy = [repo_Name (Context img)] \<and>
    tp_VerificationLevel policy = (if ro_VerificationLevel args = [] then ''strict'' else ro_VerificationLevel args) \<and>
    (\<forall>ts \<in> set (trust_stores trs). \<exists>t n cs. ts = type_String t @ '':'' @ n \<and> n \<in> tr_Name ` set trs \<and>
       GetCertificates imts t n = Inr cs \<and> certs_from ne (ny_TrustRoots valData) n t cs) \<and>
    no_NewVerifier ne doc imts = Inr verifier \<and>
    (Digest img \<noteq> [] \<longrightarrow> Digest img' = Digest img) \<and>
    no_Verify ne verifier repo client'
      \<lparr>vo_ArtifactReference = repo_Name (Context img) @ ''@'' @ Digest img', vo_MaxSignatureAttempts = 10\<rparr> = Inr d"
proof -
  obtain imts where i: "NewInMemoryTrustStore ne (ny_TrustRoots valData) = Inr imts" "nt_TrustStore nv = Some imts"
    using Notation_UnmarshalYAML_Inr[OF assms(1)] by (metis sum.inject(2))
  obtain doc verifier repo where v: "setUpTrustPolicy nv img args = Ret (Inr doc)"
    "no_NewVerifier ne doc imts = Inr verifier"
    and img': "Digest img \<noteq> [] \<and> img' = img \<or> Digest img = [] \<and> (\<exists>r. img' = SetDigest img r)"
    and ver: "no_Verify ne verifier repo client'
      \<lparr>vo_ArtifactReference = repo_Name (Context img') @ ''@'' @ Digest img', vo_MaxSignatureAttempts = 10\<rparr> = Inr d"
    by (rule Notation_ValidateImage_Inr[OF assms(2)]) (use i(2) in auto)
  have ctx: "Context img' = Context img" using img' by (auto simp: Context_def SetDigest_def Let_def)
  obtain trs where trs: "GetTrustRoots [ro_TrustRoot args] (ny_TrustRoots valData) True = Inr trs"
    and pol: "doc_TrustPolicies doc = [\<lparr>tp_Name = ''default'', tp_RegistryScopes = [repo_Name (Context img)],
       tp_VerificationLevel = (if ro_VerificationLevel args = [] then ''strict'' else ro_VerificationLevel args),
       tp_VerifyTimestamp = (if ro_VerifyTimestamp args = [] then ''always'' else ro_VerifyTimestamp args),
       tp_TrustStores = trust_stores trs, tp_TrustedIdentities = [''*'']\<rparr>]" (is "_ = [?p]")
    by (rule setUpTrustPolicy_Inr[OF v(1) i(2)]) (auto simp: store_trustRoots[OF i(1)])
  have "\<forall>ts \<in> set (trust_stores trs). \<exists>t n cs. ts = type_String t @ '':'' @ n \<and> n \<in> tr_Name ` set trs \<and>
       GetCertificates imts t n = Inr cs \<and> certs_from ne (ny_TrustRoots valData) n t cs"
    using trust_store_provided[OF i(1) GetTrustRoots_subset[OF trs]] by metis
  with trs v(2) ver img' show ?thesis unfolding ctx
    by (intro exI[of _ imts] exI[of _ trs] exI[of _ doc] exI[of _ ?p] exI[of _ verifier] exI[of _ repo])
      (auto simp: pol)
qed

theorem NotationValidator_sound_witness:
  "\<exists>imts :: string InMemoryTrustStore. GetCertificates imts TypeCA ''alice'' \<noteq> Inl ''no certificates found for trustRoot alice''"
proof -
  obtain img' where v: "NotationValidator_ValidateImage example_ne (example_validator no_auth) fresh_client notation_img default_options =
     Ret ((img', Inr ''sha256:aa''), configure_client (example_validator no_auth) notation_img fresh_client)"
    using example_validation by blast
  have t: "GetTrustRoots [ro_TrustRoot default_options] (ny_TrustRoots (example_notation no_auth)) True =
      Inr (ny_TrustRoots (example_notation no_auth))" and
    s: "trust_stores (ny_TrustRoots (example_notation no_auth)) = [''ca:alice'']"
    by (simp_all add: example_notation_def GetTrustRoots_def effective_refs_def zero_RuleOptions_def)
  from NotationValidator_sound[OF notation_example_loaded v] obtain imts :: "string InMemoryTrustStore" where
    "\<exists>t n cs. ''ca:alice'' = type_String t @ '':'' @ n \<and> GetCertificates imts t n = Inr cs"
    unfolding t by (auto simp: s)
  then obtain t n cs where g: "''ca:alice'' = type_String t @ '':'' @ n" "GetCertificates imts t n = Inr cs" by blast
  then have "t = TypeCA" "n = ''alice''" by (cases t; simp)+
  with g(2) show ?thesis by (intro exI[of _ imts]) simp
qed

text \<open>
  A loaded Notation validator fulfils the contract of the validator interface for every state of the
  global client: it returns, and it changes nothing of the image but its digest.
\<close>
theorem NotationValidator_contract:
  assumes "NotationValidator_UnmarshalYAML ne y = Inr nv"
  shows "\<exists>img' r. notation_method ne nv client img args = Ret (img', r) \<and> OriginalString img' = OriginalString img \<and>
    Context img' = Context img \<and> Tag img' = Tag img \<and>
    (Digest img \<noteq> [] \<and> (\<exists>d. r = Inr d) \<longrightarrow> Digest img' = Digest img)"
proof -
  have "nt_TrustStore nv \<noteq> None" using Notation_UnmarshalYAML_Inr[OF assms] by (metis option.simps(3))
  from Notation_ValidateImage_returns[OF this] obtain img' r client'
    where v: "NotationValidator_ValidateImage ne nv client img args = Ret ((img', r), client')"
      "original img' = original img" "img_ref img' = img_ref img" "img_tag img' = img_tag img" by metis
  have "Digest img \<noteq> [] \<and> (\<exists>d. r = Inr d) \<longrightarrow> Digest img' = Digest img"
    using Notation_ValidateImage_Inr v(1) by metis
  with v show ?thesis by (simp add: notation_method_def OriginalString_def Context_def Tag_def)
qed

theorem NotationValidator_contract_witness:
  "\<exists>img' r. notation_method example_ne (example_validator no_auth) fresh_client notation_img default_options = Ret (img', r)"
  using NotationValidator_contract[OF notation_example_loaded] by metis

text \<open>
  C32 (safety). Credentials leak through the global client: after a successful validation by a validator \<open>a\<close> that
  has credentials for its image, a validator \<open>b\<close> without credentials and certificate (for its image) verifies
  with the credential function and the TLS roots that \<open>a\<close> left behind, which
  still answers requests for the registry of \<open>a\<close>'s image with \<open>a\<close>'s credentials.
\<close>
theorem NotationValidator_credentials_leak:
  assumes "NotationValidator_ValidateImage ne a client img1 args1 = Ret ((img1', Inr d1), client1)"
    and "ae_Username (LookUp (nt_Auth a) (repo_Name (Context img1))) \<noteq> []"
    and "ae_Password (LookUp (nt_Auth a) (repo_Name (Context img1))) \<noteq> []"
    and "NotationValidator_ValidateImage ne b client1 img2 args2 = Ret ((img2', Inr d2), client2)"
    and "nt_RootCA b = None" and "LookUp (nt_Auth b) (repo_Name (Context img2)) = zero_AuthEntry"
  shows "oc_RootCAs client2 = oc_RootCAs client1 \<and>
    (\<exists>credential. oc_Credential client2 = Some credential \<and>
       credential (repo_RegistryStr (Context img1)) = LookUp (nt_Auth a) (repo_Name (Context img1))) \<and>
    (\<exists>verifier repo opts. no_Verify ne verifier repo client2 opts = Inr d2)"
proof -
  have c1: "client1 = configure_client a img1 client" using Notation_ValidateImage_Inr[OF assms(1)] by metis
  have c2: "client2 = configure_client b img2 client1" using Notation_ValidateImage_Inr[OF assms(4)] by metis
  have "\<exists>verifier repo opts. no_Verify ne verifier repo client2 opts = Inr d2"
    using Notation_ValidateImage_Inr[OF assms(4)] by metis
  moreover have "client2 = client1"
    using assms(5,6) by (simp add: c2 configure_client_def zero_AuthEntry_def)
  moreover have "\<exists>credential. oc_Credential client1 = Some credential \<and>
       credential (repo_RegistryStr (Context img1)) = LookUp (nt_Auth a) (repo_Name (Context img1))"
    using assms(2,3) by (simp add: c1 configure_client_def Let_def)
  ultimately show ?thesis by simp
qed

theorem NotationValidator_credentials_leak_witness:
  "\<exists>client2 credential. oc_Credential (client2 :: string oras_client) = Some credential \<and>
     credential ''reg'' = \<lparr>ae_Username = ''u'', ae_Password = ''p''\<rparr>"
proof -
  let ?c1 = "configure_client (example_validator user_auth) notation_img fresh_client"
  obtain i1 where v1: "NotationValidator_ValidateImage example_ne (example_validator user_auth) fresh_client notation_img default_options =
     Ret ((i1, Inr ''sha256:aa''), ?c1)" using example_validation by blast
  obtain i2 where v2: "NotationValidator_ValidateImage example_ne (example_validator no_auth) ?c1 notation_img default_options =
     Ret ((i2, Inr ''sha256:aa''), configure_client (example_validator no_auth) notation_img ?c1)" using example_validation by blast
  have l: "LookUp (nt_Auth (example_validator user_auth)) (repo_Name (Context notation_img)) = \<lparr>ae_Username = ''u'', ae_Password = ''p''\<rparr>"
    and n: "LookUp (nt_Auth (example_validator no_auth)) (repo_Name (Context notation_img)) = zero_AuthEntry"
    and r: "nt_RootCA (example_validator no_auth) = None" and g: "repo_RegistryStr (Context notation_img) = ''reg''"
    by (simp_all add: example_validator_def LookUp_def notation_img_def Context_def HasPrefix_def longer_hit_def)
  from NotationValidator_credentials_leak[OF v1 _ _ v2 r n] show ?thesis
    unfolding l g by auto
qed

end
