(* ===== verification/Notary_Server.thy ===== *)
theory Notary_Server
  imports Trust_Auth Image_Ref
begin

text \<open>
  Package \<open>internal/validator/notaryv1/notaryserver\<close>: the client of a Notary server (\<open>client.go\<close>,
  \<open>simple_cred_store.go\<close>) and the trust data of an image (\<open>repo.go\<close>), which is downloaded by one
  goroutine per role and then validated. A schedule gives the order in which the goroutines end and the
  moment of a cancellation of their context. Values of the TUF, HTTP and crypto libraries are opaque, of
  type \<open>'o\<close>; of the parsed trust data the model holds the parts that the code reads.
\<close>

section \<open>Definitions\<close>

subsection \<open>Trust data and libraries\<close>

type_synonym hashes = "(string \<times> string) list"

text \<open>
  \<open>sr_obj\<close>, \<open>st_obj\<close> and \<open>sm_obj\<close> stand for the objects themselves where they are passed to the TUF
  library; \<open>st_Roles\<close> are the names of the delegations, \<open>st_Targets\<close> the hashes of each target.
\<close>

record 'o SignedRoot =
  sr_obj :: 'o
  sr_Signatures :: "'o list"

record 'o SignedTargets =
  st_obj :: 'o
  st_Roles :: "string list"
  st_Targets :: "(string \<times> hashes) list"

record 'o SignedMeta =
  sm_obj :: 'o
  sm_Meta :: "(string \<times> hashes) list"

record 'o TrustData =
  td_Role :: string
  td_Data :: "'o option"
  td_Raw :: string
  td_Err :: "string option"

text \<open>A response: status code, status line, the body or an error of reading it.\<close>

record http_reply =
  hr_StatusCode :: int
  hr_Status :: string
  hr_Body :: "string res"

record 'o notary_ext =
  nx_newRegistry :: "string \<Rightarrow> string option"
  nx_newRepository :: "string \<Rightarrow> string option"
  nx_ParseRequestURI :: "string \<Rightarrow> string option"
  nx_NewRequest :: "string \<Rightarrow> string option"
  nx_CertsFromPEM :: "string \<Rightarrow> 'o option"
  nx_Transport :: "'o option \<Rightarrow> 'o"
  nx_Ping :: "'o \<Rightarrow> string \<Rightarrow> (int \<times> 'o) res"
  nx_AddResponse :: "'o \<Rightarrow> 'o res"
  nx_AuthTransport :: "'o \<Rightarrow> string \<times> string \<Rightarrow> string \<Rightarrow> string \<Rightarrow> 'o \<Rightarrow> 'o"
  nx_PlainTransport :: "'o \<Rightarrow> 'o"
  nx_Refreshes :: "'o \<Rightarrow> string \<Rightarrow> bool"
  nx_Do :: "'o \<Rightarrow> string \<Rightarrow> http_reply res"
  nx_Unmarshal_Signed :: "string \<Rightarrow> 'o res"
  nx_RootFromSigned :: "'o option \<Rightarrow> 'o SignedRoot res"
  nx_TargetsFromSigned :: "'o option \<Rightarrow> string \<Rightarrow> 'o SignedTargets res"
  nx_SnapshotFromSigned :: "'o option \<Rightarrow> 'o SignedMeta res"
  nx_TimestampFromSigned :: "'o option \<Rightarrow> 'o SignedMeta res"
  nx_ToSigned :: "'o \<Rightarrow> 'o res"
  nx_Unmarshal_map :: "'o \<Rightarrow> 'o res"
  nx_MarshalCanonical :: "'o \<Rightarrow> string res"
  nx_VerifySignature :: "string \<Rightarrow> 'o \<Rightarrow> 'o \<Rightarrow> string option \<times> bool"
  nx_KeyID :: "'o \<Rightarrow> string"
  nx_BuildBaseRole :: "'o \<Rightarrow> string \<Rightarrow> 'o res"
  nx_BuildDelegationRole :: "'o \<Rightarrow> string \<Rightarrow> 'o res"
  nx_VerifySignatures :: "'o \<Rightarrow> 'o \<Rightarrow> string option"
  nx_VerifyExpiry :: "'o \<Rightarrow> string \<Rightarrow> string option"
  nx_CheckHashes :: "string \<Rightarrow> string \<Rightarrow> hashes \<Rightarrow> string option"
  nx_PemDecode :: "string \<Rightarrow> (string \<times> string) option"
  nx_ParsePKIXPublicKey :: "string \<Rightarrow> string res"
  nx_NewPublicKey :: "string \<Rightarrow> string \<Rightarrow> 'o"
  nx_Quote :: "string \<Rightarrow> string"

text \<open>The role names of TUF, in the order of \<open>data.BaseRoles\<close>.\<close>

abbreviation RootRole :: string where "RootRole \<equiv> ''root''"
abbreviation TargetsRole :: string where "TargetsRole \<equiv> ''targets''"
abbreviation SnapshotRole :: string where "SnapshotRole \<equiv> ''snapshot''"
abbreviation TimestampRole :: string where "TimestampRole \<equiv> ''timestamp''"

definition BaseRoles :: "string list" where
  "BaseRoles = [RootRole, TargetsRole, SnapshotRole, TimestampRole]"

text \<open>Dereferencing a pointer.\<close>

definition deref :: "'a option \<Rightarrow> 'a go" where
  "deref p = (case p of None \<Rightarrow> Panic ''nil pointer dereference'' | Some x \<Rightarrow> Ret x)"

subsection \<open>simple_cred_store.go\<close>

record simpleCredentialStore =
  scs_Username :: string
  scs_Password :: string
  scs_IdentityToken :: string

definition Basic :: "simpleCredentialStore \<Rightarrow> string \<times> string" where
  "Basic scs = (scs_Username scs, scs_Password scs)"

definition RefreshToken :: "simpleCredentialStore \<Rightarrow> string" where
  "RefreshToken scs = scs_IdentityToken scs"

definition SetRefreshToken :: "simpleCredentialStore \<Rightarrow> unit go" where
  "SetRefreshToken scs = Panic ''function SetRefreshToken is not implemented''"

subsection \<open>client.go\<close>

text \<open>
  The round tripper of a client. The authorizer of the registry library holds the credential store, reads the user, the
  password and the refresh token from it and, when a token server hands out a refresh token for a
  request, gives it to the store (\<open>nx_Refreshes\<close> tells whether it does).
\<close>

record 'o transport =
  tp_obj :: 'o
  tp_creds :: "simpleCredentialStore option"

record 'o NotaryClient =
  nc_client :: "'o transport"
  nc_host :: string
  nc_repo :: string

definition client_Do :: "'o notary_ext \<Rightarrow> 'o transport \<Rightarrow> string \<Rightarrow> http_reply res go" where
  "client_Do nx client url =
     (case tp_creds client of
        None \<Rightarrow> Ret (nx_Do nx (tp_obj client) url)
      | Some creds \<Rightarrow>
          if nx_Refreshes nx (tp_obj client) url
          then go_bind (SetRefreshToken creds) (\<lambda>u. Ret (nx_Do nx (tp_obj client) url))
          else Ret (nx_Do nx (tp_obj client) url))"

definition tlsConfig :: "'o notary_ext \<Rightarrow> string \<Rightarrow> 'o option res" where
  "tlsConfig nx cert =
     (if cert \<noteq> [] then
        (case nx_CertsFromPEM nx cert of
           None \<Rightarrow> Inl ''failed to parse root certificate'' | Some roots \<Rightarrow> Inr (Some roots))
      else Inr None)"

definition baseTransport :: "'o notary_ext \<Rightarrow> string \<Rightarrow> 'o res" where
  "baseTransport nx cert =
     (case tlsConfig nx cert of
        Inl err \<Rightarrow> Inl (''error setting up TLS config: '' @ err)
      | Inr cfg \<Rightarrow> Inr (nx_Transport nx cfg))"

text \<open>
  The result of parsing the host is used without looking at the error: it is a nil pointer then.
\<close>

definition buildAuthTransport ::
  "'o notary_ext \<Rightarrow> 'o \<Rightarrow> string \<Rightarrow> Auth \<Rightarrow> string \<Rightarrow> 'o \<Rightarrow> 'o transport go" where
  "buildAuthTransport nx base host authConf img challengeManager =
     (let rr = (case NewRegistryRepo (nx_newRegistry nx) (nx_newRepository nx) host of
                  Inl err \<Rightarrow> None | Inr rr \<Rightarrow> Some rr)
      in go_bind (deref rr) (\<lambda>rr.
           let authCreds = LookUp authConf (RegistryRepo_String rr);
               creds = \<lparr>scs_Username = ae_Username authCreds, scs_Password = ae_Password authCreds,
                        scs_IdentityToken = []\<rparr>
           in Ret \<lparr>tp_obj = nx_AuthTransport nx base (Basic creds) (RefreshToken creds) img challengeManager,
                   tp_creds = Some creds\<rparr>))"

definition NewNotaryClient ::
  "'o notary_ext \<Rightarrow> string \<Rightarrow> string \<Rightarrow> Auth \<Rightarrow> Image \<Rightarrow> 'o NotaryClient res go" where
  "NewNotaryClient nx host cert authCreds imageRef =
     (let notaryRef = NotaryReference imageRef;
          client = (\<lambda>roundTripper. \<lparr>nc_client = roundTripper, nc_host = host, nc_repo = notaryRef\<rparr>)
      in case nx_NewRequest nx (host @ ''/v2/'') of
        Some err \<Rightarrow> Ret (Inl (''error creating ping request: '' @ err))
      | None \<Rightarrow>
     (case baseTransport nx cert of
        Inl err \<Rightarrow> Ret (Inl (''unable configuring base transport settings for http client '' @ err))
      | Inr clientTransport \<Rightarrow>
     (case nx_Ping nx clientTransport (host @ ''/v2/'') of
        Inl err \<Rightarrow> Ret (Inl (''error pinging notary server: '' @ err))
      | Inr (status, resp) \<Rightarrow>
          if status = 401
          then (case nx_AddResponse nx resp of
                  Inl err \<Rightarrow> Ret (Inl (''error adding challenge response: '' @ err))
                | Inr challengeManager \<Rightarrow>
                    go_bind (buildAuthTransport nx clientTransport host authCreds notaryRef challengeManager)
                      (\<lambda>roundTripper. Ret (Inr (client roundTripper))))
          else Ret (Inr (client \<lparr>tp_obj = nx_PlainTransport nx clientTransport, tp_creds = None\<rparr>)))))"

text \<open>The local variables \<open>signedData\<close>, \<open>rawData\<close> and \<open>errOut\<close> as the body of the goroutine for a role leaves them.\<close>

definition trust_url :: "'o NotaryClient \<Rightarrow> string \<Rightarrow> string" where
  "trust_url nc role = nc_host nc @ ''/v2/'' @ nc_repo nc @ ''/_trust/tuf/'' @ role @ ''.json''"

definition fetch_body ::
  "'o notary_ext \<Rightarrow> 'o NotaryClient \<Rightarrow> string \<Rightarrow> ('o option \<times> string \<times> string option) go" where
  "fetch_body nx nc role =
     (case nx_NewRequest nx (trust_url nc role) of
        Some err \<Rightarrow> Ret (None, [], Some (''error creating request for acquiring trust data '' @ role @ '': '' @ err))
      | None \<Rightarrow>
          go_bind (client_Do nx (nc_client nc) (trust_url nc role)) (\<lambda>resp. Ret (case resp of
            Inl err \<Rightarrow> (None, [], Some (''error doing request trust data '' @ role @ '': '' @ err))
          | Inr resp \<Rightarrow>
              if hr_StatusCode resp \<noteq> 200
              then (None, [], Some (''error acquiring trust data '' @ role @ '': '' @ hr_Status resp))
              else (case hr_Body resp of
                 Inl err \<Rightarrow> (None, [], Some (''error reading trust data '' @ role @ '': '' @ err))
               | Inr raw \<Rightarrow>
                   (case nx_Unmarshal_Signed nx raw of
                      Inl err \<Rightarrow> (None, raw, Some (''error unmarshalling trust data '' @ role @ '': '' @ err))
                    | Inr signed \<Rightarrow> (Some signed, raw, None))))))"

text \<open>
  The goroutine sends the trust data, unless its context is cancelled when its deferred function runs.
  A panic ends the process; what the deferred function still sends then is not looked at.
\<close>

definition FetchTrustData ::
  "'o notary_ext \<Rightarrow> 'o NotaryClient \<Rightarrow> string \<Rightarrow> bool \<Rightarrow> 'o TrustData option go" where
  "FetchTrustData nx nc role cancelled =
     go_bind (fetch_body nx nc role) (\<lambda>(signedData, rawData, errOut). Ret
       (if cancelled then None
        else Some \<lparr>td_Role = role, td_Data = signedData, td_Raw = rawData, td_Err = errOut\<rparr>))"

subsection \<open>repo.go\<close>

text \<open>A nil entry of the map of targets is \<^const>\<open>None\<close>.\<close>

record 'o Repo =
  rp_Root :: "'o SignedRoot option"
  rp_Targets :: "(string \<times> 'o SignedTargets option) list"
  rp_Snapshot :: "'o SignedMeta option"
  rp_Timestamp :: "'o SignedMeta option"
  rp_notCheckedChecksums :: "(string \<times> string) list"

definition empty_Repo :: "'o Repo" where
  "empty_Repo = \<lparr>rp_Root = None, rp_Targets = [], rp_Snapshot = None, rp_Timestamp = None,
     rp_notCheckedChecksums = []\<rparr>"

definition target_of :: "'o Repo \<Rightarrow> string \<Rightarrow> 'o SignedTargets go" where
  "target_of r role = deref (case map_of (rp_Targets r) role of None \<Rightarrow> None | Some t \<Rightarrow> t)"

definition from_res :: "'a res \<Rightarrow> 'a option \<times> string option" where
  "from_res x = (case x of Inl err \<Rightarrow> (None, Some err) | Inr a \<Rightarrow> (Some a, None))"

text \<open>The \<open>switch\<close> over the role of received trust data.\<close>

definition store_base :: "'o notary_ext \<Rightarrow> 'o TrustData \<Rightarrow> 'o Repo \<Rightarrow> 'o Repo \<times> string option" where
  "store_base nx td r =
     (let role = td_Role td in
      if role = RootRole then
        (let (x, err) = from_res (nx_RootFromSigned nx (td_Data td)) in (r\<lparr>rp_Root := x\<rparr>, err))
      else if role = TargetsRole then
        (let (x, err) = from_res (nx_TargetsFromSigned nx (td_Data td) TargetsRole)
         in (r\<lparr>rp_Targets := map_put TargetsRole x (rp_Targets r)\<rparr>, err))
      else if role = SnapshotRole then
        (let (x, err) = from_res (nx_SnapshotFromSigned nx (td_Data td)) in (r\<lparr>rp_Snapshot := x\<rparr>, err))
      else if role = TimestampRole then
        (let (x, err) = from_res (nx_TimestampFromSigned nx (td_Data td)) in (r\<lparr>rp_Timestamp := x\<rparr>, err))
      else (r, None))"

text \<open>
  The goroutines of a download: \<open>sd_order\<close> is the order in which they end, and \<open>sd_cancel\<close> a cancellation of the
  context, \<open>Some (c, k)\<close> if \<open>c\<close> goroutines reach their deferred function before it, and the receive
  loop sees it when it looks at the context before its receive number \<open>k\<close> (counted from 0).
\<close>

record schedule =
  sd_order :: "string list \<Rightarrow> string list"
  sd_cancel :: "(nat \<times> nat) option"

text \<open>
  What a receive loop gets to see: trust data in the channel, the end of the process by the panic of
  a goroutine, the cancellation. A panic after the loop has stopped does not change its result.
\<close>

datatype 'o fetch_event = Cancelled | Received "'o TrustData" | Died string

fun arrivals ::
  "'o notary_ext \<Rightarrow> 'o NotaryClient \<Rightarrow> (nat \<times> nat) option \<Rightarrow> nat \<Rightarrow> string list \<Rightarrow> 'o fetch_event list" where
  "arrivals nx nc cancel i [] = []"
| "arrivals nx nc cancel i (role # roles) =
     (case FetchTrustData nx nc role (case cancel of None \<Rightarrow> False | Some (c, k) \<Rightarrow> c \<le> i) of
        Panic p \<Rightarrow> Died p # arrivals nx nc cancel (Suc i) roles
      | Ret None \<Rightarrow> arrivals nx nc cancel (Suc i) roles
      | Ret (Some td) \<Rightarrow> Received td # arrivals nx nc cancel (Suc i) roles)"

text \<open>The cancellation is seen only between two receives: a loop that waits for trust data does not look.\<close>

fun see_cancel :: "nat \<Rightarrow> 'o fetch_event list \<Rightarrow> 'o fetch_event list" where
  "see_cancel 0 es = [Cancelled]"
| "see_cancel (Suc k) [] = []"
| "see_cancel (Suc k) (Received td # es) = Received td # see_cancel k es"
| "see_cancel (Suc k) (e # es) = e # see_cancel (Suc k) es"

definition deliver ::
  "'o notary_ext \<Rightarrow> 'o NotaryClient \<Rightarrow> schedule \<Rightarrow> string list \<Rightarrow> 'o fetch_event list" where
  "deliver nx nc sd roles =
     (let es = arrivals nx nc (sd_cancel sd) 0 (sd_order sd roles)
      in case sd_cancel sd of None \<Rightarrow> es | Some (c, k) \<Rightarrow> see_cancel k es)"

text \<open>\<^term>\<open>Ret None\<close> means that the loop waits forever: a receive is not interrupted by the context.\<close>

fun receive_base ::
  "'o notary_ext \<Rightarrow> nat \<Rightarrow> 'o fetch_event list \<Rightarrow> 'o Repo \<Rightarrow> ('o Repo \<times> string option) option go" where
  "receive_base nx 0 events r = Ret (Some (r, None))"
| "receive_base nx (Suc n) [] r = Ret None"
| "receive_base nx (Suc n) (Cancelled # events) r = Ret (Some (r, Some ''context cancelled''))"
| "receive_base nx (Suc n) (Died p # events) r = Panic p"
| "receive_base nx (Suc n) (Received td # events) r =
     (case td_Err td of
        Some err \<Rightarrow> Ret (Some (r, Some (''error acquiring trust data '' @ td_Role td @ '': '' @ err)))
      | None \<Rightarrow>
          (case store_base nx td r of
             (r, Some err) \<Rightarrow> Ret (Some (r, Some (''error parsing trust data for '' @ td_Role td @ '': '' @ err)))
           | (r, None) \<Rightarrow>
               receive_base nx n events
                 (r\<lparr>rp_notCheckedChecksums := map_put (td_Role td) (td_Raw td) (rp_notCheckedChecksums r)\<rparr>)))"

definition DownloadBaseTrustData ::
  "'o notary_ext \<Rightarrow> schedule \<Rightarrow> 'o NotaryClient \<Rightarrow> 'o Repo \<Rightarrow> ('o Repo \<times> string option) option go" where
  "DownloadBaseTrustData nx sd nc r =
     receive_base nx (length BaseRoles) (deliver nx nc sd BaseRoles)
       (r\<lparr>rp_Targets := [], rp_notCheckedChecksums := []\<rparr>)"

text \<open>The loop over the signatures for one key: whether one is valid, and the last error.\<close>

fun try_signatures ::
  "'o notary_ext \<Rightarrow> string \<Rightarrow> 'o \<Rightarrow> 'o list \<Rightarrow> string option \<Rightarrow> bool \<times> string option" where
  "try_signatures nx msg key [] err = (False, err)"
| "try_signatures nx msg key (sig # sigs) err =
     (let (err, valid) = nx_VerifySignature nx msg sig key
      in if err = None \<and> valid then (True, err) else try_signatures nx msg key sigs err)"

definition fmt_error :: "string option \<Rightarrow> string" where
  "fmt_error err = (case err of None \<Rightarrow> ''%!s(<nil>)'' | Some e \<Rightarrow> e)"

fun verify_keys :: "'o notary_ext \<Rightarrow> string \<Rightarrow> 'o list \<Rightarrow> 'o list \<Rightarrow> string option \<Rightarrow> string option" where
  "verify_keys nx msg sigs [] err = None"
| "verify_keys nx msg sigs (key # keys) err =
     (let (verified, err) = try_signatures nx msg key sigs err
      in if \<not> verified
         then Some (''error validating root signature with key '' @ nx_KeyID nx key @ '': '' @ fmt_error err)
         else verify_keys nx msg sigs keys err)"

definition validateRoot :: "'o notary_ext \<Rightarrow> 'o Repo \<Rightarrow> 'o list \<Rightarrow> string option go" where
  "validateRoot nx r keys =
     go_bind (deref (rp_Root r)) (\<lambda>root. Ret
       (case nx_ToSigned nx (sr_obj root) of
          Inl err \<Rightarrow> Some (''serialization error for root: '' @ err)
        | Inr signedRoot \<Rightarrow>
       (case nx_Unmarshal_map nx signedRoot of
          Inl err \<Rightarrow> Some (''error unmarshalling root: '' @ err)
        | Inr decoded \<Rightarrow>
       (case nx_MarshalCanonical nx decoded of
          Inl err \<Rightarrow> Some (''error marshalling root: '' @ err)
        | Inr msg \<Rightarrow>
            if length (sr_Signatures root) < 1 then Some ''no signatures found for root''
            else case verify_keys nx msg (sr_Signatures root) keys None of
              Some err \<Rightarrow> Some err
            | None \<Rightarrow>
                if nx_VerifyExpiry nx (sr_obj root) RootRole \<noteq> None then Some ''root trust data expired''
                else None))))"

text \<open>The signed object of a role other than root.\<close>

definition role_object :: "'o Repo \<Rightarrow> string \<Rightarrow> 'o go" where
  "role_object r role =
     (if role = TargetsRole then go_bind (target_of r TargetsRole) (\<lambda>t. Ret (st_obj t))
      else if role = SnapshotRole then go_bind (deref (rp_Snapshot r)) (\<lambda>s. Ret (sm_obj s))
      else go_bind (deref (rp_Timestamp r)) (\<lambda>s. Ret (sm_obj s)))"

definition validate_role :: "'o notary_ext \<Rightarrow> 'o Repo \<Rightarrow> string \<Rightarrow> string option go" where
  "validate_role nx r role =
     go_bind (role_object r role) (\<lambda>obj.
       case nx_ToSigned nx obj of
         Inl err \<Rightarrow> Ret (Some (''serialization error for '' @ role @ '': '' @ err))
       | Inr signedObj \<Rightarrow>
           go_bind (deref (rp_Root r)) (\<lambda>root. Ret
             (case nx_BuildBaseRole nx (sr_obj root) role of
                Inl err \<Rightarrow> Some (''error building base role '' @ role @ '': '' @ err)
              | Inr verifyRole \<Rightarrow>
                  if nx_VerifySignatures nx signedObj verifyRole \<noteq> None
                  then Some (''error validating '' @ role @ '' signatures'')
                  else if nx_VerifyExpiry nx obj role \<noteq> None then Some (role @ '' trust data expired'')
                  else None)))"

text \<open>A loop that stops at the first error.\<close>

fun first_error :: "('a \<Rightarrow> string option go) \<Rightarrow> 'a list \<Rightarrow> string option go" where
  "first_error f [] = Ret None"
| "first_error f (x # xs) =
     go_bind (f x) (\<lambda>err. case err of Some e \<Rightarrow> Ret (Some e) | None \<Rightarrow> first_error f xs)"

definition validateRestOfBase :: "'o notary_ext \<Rightarrow> 'o Repo \<Rightarrow> string option go" where
  "validateRestOfBase nx r =
     first_error (\<lambda>role. if role = RootRole then Ret None else validate_role nx r role) BaseRoles"

definition meta_hashes :: "'o SignedMeta \<Rightarrow> string \<Rightarrow> hashes" where
  "meta_hashes s role = (case map_of (sm_Meta s) role of None \<Rightarrow> [] | Some h \<Rightarrow> h)"

definition check_role :: "'o notary_ext \<Rightarrow> 'o Repo \<Rightarrow> string \<Rightarrow> string option go" where
  "check_role nx r role =
     (if role = TimestampRole then Ret None
      else go_bind (deref (if role = SnapshotRole then rp_Timestamp r else rp_Snapshot r)) (\<lambda>s. Ret
        (case map_of (rp_notCheckedChecksums r) role of
           None \<Rightarrow> Some (''no checksums found for '' @ role)
         | Some payload \<Rightarrow>
             (case nx_CheckHashes nx payload role (meta_hashes s role) of
                Some err \<Rightarrow> Some (''error validating '' @ role @ '' checksums: '' @ err)
              | None \<Rightarrow> None))))"

definition validateBaseChecksums :: "'o notary_ext \<Rightarrow> 'o Repo \<Rightarrow> string option go" where
  "validateBaseChecksums nx r = first_error (check_role nx r) BaseRoles"

text \<open>The error of a step gets a prefix; without an error the next step follows.\<close>

definition then_step :: "string option go \<Rightarrow> string \<Rightarrow> string option go \<Rightarrow> string option go" where
  "then_step a what b =
     go_bind a (\<lambda>err. case err of Some e \<Rightarrow> Ret (Some (what @ e)) | None \<Rightarrow> b)"

definition ValidateBaseTrustData :: "'o notary_ext \<Rightarrow> 'o Repo \<Rightarrow> 'o list \<Rightarrow> string option go" where
  "ValidateBaseTrustData nx r keys =
     then_step (validateRoot nx r keys) ''error validating root: ''
       (then_step (validateRestOfBase nx r) ''error validating base trust data: ''
         (then_step (validateBaseChecksums nx r) ''error validating base trust data checksums: '' (Ret None)))"

text \<open>Delegations.\<close>

definition HasDelegations :: "'o Repo \<Rightarrow> bool go" where
  "HasDelegations r = go_bind (target_of r TargetsRole) (\<lambda>t. Ret (length (st_Roles t) > 0))"

fun HasDelegationHashes :: "'o Repo \<Rightarrow> string list \<Rightarrow> bool go" where
  "HasDelegationHashes r [] = Ret True"
| "HasDelegationHashes r (d # ds) =
     go_bind (deref (rp_Snapshot r)) (\<lambda>s.
       if map_of (sm_Meta s) d = None then Ret False else HasDelegationHashes r ds)"

fun receive_delegations ::
  "'o notary_ext \<Rightarrow> nat \<Rightarrow> 'o fetch_event list \<Rightarrow> 'o Repo \<Rightarrow> ('o Repo \<times> string option) option go" where
  "receive_delegations nx 0 events r = Ret (Some (r, None))"
| "receive_delegations nx (Suc n) [] r = Ret None"
| "receive_delegations nx (Suc n) (Cancelled # events) r = Ret (Some (r, Some ''context cancelled''))"
| "receive_delegations nx (Suc n) (Died p # events) r = Panic p"
| "receive_delegations nx (Suc n) (Received td # events) r =
     (case td_Err td of
        Some err \<Rightarrow> Ret (Some (r, Some (''error downloading delegation '' @ td_Role td @ '': '' @ err)))
      | None \<Rightarrow>
          let (x, errOut) = from_res (nx_TargetsFromSigned nx (td_Data td) (td_Role td));
              r = r\<lparr>rp_Targets := map_put (td_Role td) x (rp_Targets r)\<rparr>
          in if errOut \<noteq> None then Ret (Some (r, Some (''error parsing delegation '' @ td_Role td)))
             else receive_delegations nx n events
                    (r\<lparr>rp_notCheckedChecksums := map_put (td_Role td) (td_Raw td) (rp_notCheckedChecksums r)\<rparr>))"

definition validate_delegation :: "'o notary_ext \<Rightarrow> 'o Repo \<Rightarrow> string \<Rightarrow> string option go" where
  "validate_delegation nx r delegation =
     (case map_of (rp_Targets r) delegation of
        None \<Rightarrow> Ret (Some (''delegation '' @ delegation @ '' not found''))
      | Some delegationTarget \<Rightarrow>
     go_bind (target_of r TargetsRole) (\<lambda>targets.
       case nx_BuildDelegationRole nx (st_obj targets) delegation of
         Inl err \<Rightarrow> Ret (Some (''error building delegation role '' @ delegation @ '': '' @ err))
       | Inr delegationRole \<Rightarrow>
     go_bind (deref delegationTarget) (\<lambda>target.
       case nx_ToSigned nx (st_obj target) of
         Inl err \<Rightarrow> Ret (Some (''serialization error from signedTarget to signed for delegation '' @
                          delegation @ '': '' @ err))
       | Inr signedObj \<Rightarrow>
           if nx_VerifySignatures nx signedObj delegationRole \<noteq> None
           then Ret (Some (''error validating delegation '' @ delegation @ '' signatures''))
           else if nx_VerifyExpiry nx (st_obj target) delegation \<noteq> None
           then Ret (Some (delegation @ '' trust data expired''))
           else go_bind (deref (rp_Snapshot r)) (\<lambda>snapshot. Ret
             (case map_of (rp_notCheckedChecksums r) delegation of
                None \<Rightarrow> Some (''no checksums found for '' @ delegation)
              | Some payload \<Rightarrow>
                  (case nx_CheckHashes nx payload delegation (meta_hashes snapshot delegation) of
                     Some err \<Rightarrow> Some (''error validating '' @ delegation @ '' checksums: '' @ err)
                   | None \<Rightarrow> None))))))"

definition validateDelegations :: "'o notary_ext \<Rightarrow> 'o Repo \<Rightarrow> string list \<Rightarrow> string option go" where
  "validateDelegations nx r delegations = first_error (validate_delegation nx r) delegations"

text \<open>
  A delegation that the targets role does not name ends the call at once; the goroutines that have been
  started for the delegations before it are not waited for.
\<close>

definition DownloadAndValidateDelegations ::
  "'o notary_ext \<Rightarrow> schedule \<Rightarrow> 'o NotaryClient \<Rightarrow> 'o Repo \<Rightarrow> string list \<Rightarrow> ('o Repo \<times> string option) option go" where
  "DownloadAndValidateDelegations nx sd nc r delegations =
     go_bind (target_of r TargetsRole) (\<lambda>targets.
       case find (\<lambda>d. d \<notin> set (st_Roles targets)) delegations of
         Some d \<Rightarrow> Ret (Some (r, Some (''delegation '' @ d @ '' not found'')))
       | None \<Rightarrow>
           go_bind (receive_delegations nx (length delegations) (deliver nx nc sd delegations) r) (\<lambda>result.
             case result of
               None \<Rightarrow> Ret None
             | Some (r, Some err) \<Rightarrow> Ret (Some (r, Some err))
             | Some (r, None) \<Rightarrow>
                 go_bind (validateDelegations nx r delegations) (\<lambda>err. Ret (Some (r, err)))))"

section \<open>Lemmas\<close>

lemma deref_simps [simp]:
  "deref None = Panic ''nil pointer dereference''" "deref (Some x) = Ret x" "deref p = Ret x \<longleftrightarrow> p = Some x"
  by (auto simp: deref_def split: option.split)

lemma target_of_iff: "target_of r role = Ret t \<longleftrightarrow> map_of (rp_Targets r) role = Some (Some t)"
  by (auto simp: target_of_def split: option.split)

lemma first_error_None [simp]: "first_error f xs = Ret None \<longleftrightarrow> (\<forall>x \<in> set xs. f x = Ret None)"
  by (induction xs) (auto split: option.splits)

lemma first_error_returns: "(\<And>x. x \<in> set xs \<Longrightarrow> \<exists>e. f x = Ret e) \<Longrightarrow> \<exists>e. first_error f xs = Ret e"
proof (induction xs)
  case (Cons x xs)
  obtain e where "f x = Ret e" using Cons.prems by auto
  moreover obtain e' where "first_error f xs = Ret e'" using Cons by auto
  ultimately show ?case by (cases e) auto
qed simp

lemma then_step_None [simp]: "then_step a w b = Ret None \<longleftrightarrow> a = Ret None \<and> b = Ret None"
  by (auto simp: then_step_def split: option.splits)

lemma then_step_returns: "a = Ret e \<Longrightarrow> (\<exists>e'. b = Ret e') \<Longrightarrow> \<exists>e'. then_step a w b = Ret e'"
  by (cases e) (auto simp: then_step_def)

subsection \<open>Signatures and checksums\<close>

lemma try_signatures_valid:
  "fst (try_signatures nx msg key sigs err) \<longleftrightarrow> (\<exists>sig \<in> set sigs. nx_VerifySignature nx msg sig key = (None, True))"
  by (induction sigs arbitrary: err) (auto simp: Let_def split: prod.splits)

lemma verify_keys_None:
  "verify_keys nx msg sigs keys err = None \<longleftrightarrow>
     (\<forall>key \<in> set keys. \<exists>sig \<in> set sigs. nx_VerifySignature nx msg sig key = (None, True))"
proof (induction keys arbitrary: err)
  case (Cons key keys)
  obtain v err' where t: "try_signatures nx msg key sigs err = (v, err')" by (cases "try_signatures nx msg key sigs err")
  then show ?case using Cons.IH[of err'] try_signatures_valid[of nx msg key sigs err] by (auto simp: Let_def)
qed simp

text \<open>The trust data of the base roles is authentic for the given root keys.\<close>

definition root_valid :: "'o notary_ext \<Rightarrow> 'o Repo \<Rightarrow> 'o list \<Rightarrow> bool" where
  "root_valid nx r keys \<longleftrightarrow>
     (\<exists>root sgn dec msg. rp_Root r = Some root \<and> nx_ToSigned nx (sr_obj root) = Inr sgn \<and>
        nx_Unmarshal_map nx sgn = Inr dec \<and> nx_MarshalCanonical nx dec = Inr msg \<and> sr_Signatures root \<noteq> [] \<and>
        (\<forall>key \<in> set keys. \<exists>sig \<in> set (sr_Signatures root). nx_VerifySignature nx msg sig key = (None, True)) \<and>
        nx_VerifyExpiry nx (sr_obj root) RootRole = None)"

definition role_valid :: "'o notary_ext \<Rightarrow> 'o Repo \<Rightarrow> string \<Rightarrow> bool" where
  "role_valid nx r role \<longleftrightarrow>
     (\<exists>root obj sgn base. rp_Root r = Some root \<and> role_object r role = Ret obj \<and> nx_ToSigned nx obj = Inr sgn \<and>
        nx_BuildBaseRole nx (sr_obj root) role = Inr base \<and> nx_VerifySignatures nx sgn base = None \<and>
        nx_VerifyExpiry nx obj role = None)"

definition checksum_valid :: "'o notary_ext \<Rightarrow> 'o Repo \<Rightarrow> string \<Rightarrow> 'o SignedMeta option \<Rightarrow> bool" where
  "checksum_valid nx r role meta \<longleftrightarrow>
     (\<exists>s payload. meta = Some s \<and> map_of (rp_notCheckedChecksums r) role = Some payload \<and>
        nx_CheckHashes nx payload role (meta_hashes s role) = None)"

definition base_valid :: "'o notary_ext \<Rightarrow> 'o Repo \<Rightarrow> 'o list \<Rightarrow> bool" where
  "base_valid nx r keys \<longleftrightarrow>
     root_valid nx r keys \<and> (\<forall>role \<in> {TargetsRole, SnapshotRole, TimestampRole}. role_valid nx r role) \<and>
     checksum_valid nx r RootRole (rp_Snapshot r) \<and> checksum_valid nx r TargetsRole (rp_Snapshot r) \<and>
     checksum_valid nx r SnapshotRole (rp_Timestamp r)"

lemma validateRoot_None: "validateRoot nx r keys = Ret None \<longleftrightarrow> root_valid nx r keys"
proof (cases "rp_Root r")
  case root: (Some root)
  show ?thesis
  proof (cases "nx_ToSigned nx (sr_obj root)")
    case sgn: (Inr sgn)
    show ?thesis
    proof (cases "nx_Unmarshal_map nx sgn")
      case dec: (Inr dec)
      show ?thesis
      proof (cases "nx_MarshalCanonical nx dec")
        case (Inr msg)
        then show ?thesis using root sgn dec verify_keys_None[of nx msg "sr_Signatures root" keys None]
          by (auto simp: validateRoot_def root_valid_def Suc_le_eq split: option.splits)
      qed (simp add: validateRoot_def root_valid_def root sgn dec)
    qed (simp add: validateRoot_def root_valid_def root sgn)
  qed (simp add: validateRoot_def root_valid_def root)
qed (simp add: validateRoot_def root_valid_def)

lemma validate_role_None: "validate_role nx r role = Ret None \<longleftrightarrow> role_valid nx r role"
proof (cases "role_object r role")
  case obj: (Ret obj)
  show ?thesis
  proof (cases "nx_ToSigned nx obj")
    case sgn: (Inr sgn)
    show ?thesis
    proof (cases "rp_Root r")
      case (Some root)
      then show ?thesis using obj sgn
        by (cases "nx_BuildBaseRole nx (sr_obj root) role") (simp_all add: validate_role_def role_valid_def)
    qed (simp add: validate_role_def role_valid_def obj sgn)
  qed (simp add: validate_role_def role_valid_def obj)
qed (simp add: validate_role_def role_valid_def)

lemma check_role_None:
  "role \<noteq> TimestampRole \<Longrightarrow> check_role nx r role = Ret None \<longleftrightarrow>
     checksum_valid nx r role (if role = SnapshotRole then rp_Timestamp r else rp_Snapshot r)"
  by (auto simp: check_role_def checksum_valid_def split: option.splits if_splits)

lemma length_BaseRoles: "length BaseRoles = 4"
  by (simp add: BaseRoles_def)

lemma ball_BaseRoles:
  "(\<forall>role \<in> set BaseRoles. P role) \<longleftrightarrow> P RootRole \<and> P TargetsRole \<and> P SnapshotRole \<and> P TimestampRole"
  by (simp add: BaseRoles_def)

lemma ValidateBaseTrustData_None: "ValidateBaseTrustData nx r keys = Ret None \<longleftrightarrow> base_valid nx r keys"
proof -
  have "check_role nx r TimestampRole = Ret None" by (simp add: check_role_def)
  then show ?thesis
    unfolding ValidateBaseTrustData_def validateRestOfBase_def validateBaseChecksums_def then_step_None
      first_error_None ball_BaseRoles validateRoot_None
    by (simp add: base_valid_def validate_role_None check_role_None)
qed

text \<open>A delegation is authentic for the keys that the targets role assigns to it.\<close>

definition delegation_valid :: "'o notary_ext \<Rightarrow> 'o Repo \<Rightarrow> string \<Rightarrow> bool" where
  "delegation_valid nx r d \<longleftrightarrow>
     (\<exists>targets target role sgn. target_of r TargetsRole = Ret targets \<and> target_of r d = Ret target \<and>
        nx_BuildDelegationRole nx (st_obj targets) d = Inr role \<and> nx_ToSigned nx (st_obj target) = Inr sgn \<and>
        nx_VerifySignatures nx sgn role = None \<and> nx_VerifyExpiry nx (st_obj target) d = None \<and>
        checksum_valid nx r d (rp_Snapshot r))"

lemma validate_delegation_None: "validate_delegation nx r d = Ret None \<Longrightarrow> delegation_valid nx r d"
proof -
  assume v: "validate_delegation nx r d = Ret None"
  obtain t where t: "map_of (rp_Targets r) d = Some t"
    using v by (cases "map_of (rp_Targets r) d") (simp_all add: validate_delegation_def)
  note v = v[unfolded validate_delegation_def t option.case]
  obtain targets where targets: "target_of r TargetsRole = Ret targets"
    using v by (cases "target_of r TargetsRole") simp_all
  obtain role where role: "nx_BuildDelegationRole nx (st_obj targets) d = Inr role"
    using v targets by (cases "nx_BuildDelegationRole nx (st_obj targets) d") simp_all
  obtain target where target: "t = Some target" using v targets role by (cases t) simp_all
  obtain sgn where sgn: "nx_ToSigned nx (st_obj target) = Inr sgn"
    using v targets role target by (cases "nx_ToSigned nx (st_obj target)") simp_all
  have ok: "nx_VerifySignatures nx sgn role = None" "nx_VerifyExpiry nx (st_obj target) d = None"
    using v targets role target sgn by (simp_all split: if_split_asm)
  obtain s where s: "rp_Snapshot r = Some s" using v targets role target sgn ok by (cases "rp_Snapshot r") simp_all
  have "checksum_valid nx r d (rp_Snapshot r)"
    using v targets role target sgn ok s by (auto simp: checksum_valid_def split: option.split_asm)
  with targets role sgn ok t target show ?thesis
    unfolding delegation_valid_def target_of_iff by blast
qed

subsection \<open>The receive loops\<close>

text \<open>The trust data among the events.\<close>

fun received :: "'o fetch_event list \<Rightarrow> 'o TrustData list" where
  "received [] = []"
| "received (Received td # es) = td # received es"
| "received (e # es) = received es"

text \<open>Every goroutine ends once; and the same without a cancellation.\<close>

definition honest :: "schedule \<Rightarrow> bool" where
  "honest sd \<longleftrightarrow> (\<forall>roles. mset (sd_order sd roles) = mset roles)"

definition complete :: "schedule \<Rightarrow> bool" where
  "complete sd \<longleftrightarrow> honest sd \<and> sd_cancel sd = None"

definition in_order :: schedule where
  "in_order = \<lparr>sd_order = id, sd_cancel = None\<rparr>"

lemma in_order_complete [simp]: "complete in_order" "honest in_order"
  by (simp_all add: complete_def honest_def in_order_def)

lemma complete_honest: "complete sd \<Longrightarrow> honest sd"
  by (simp add: complete_def)

lemma received_map [simp]: "received (map Received outs @ rest) = outs @ received rest"
  by (induction outs) auto

lemma received_see_cancel: "received (see_cancel k es) = take k (received es)"
  by (induction k es rule: see_cancel.induct) auto

text \<open>The token server hands out a refresh token for the fetch of a role: what a fetch panics on.\<close>

definition refreshed :: "'o notary_ext \<Rightarrow> 'o NotaryClient \<Rightarrow> string \<Rightarrow> bool" where
  "refreshed nx nc role \<longleftrightarrow>
     nx_NewRequest nx (trust_url nc role) = None \<and> tp_creds (nc_client nc) \<noteq> None \<and>
     nx_Refreshes nx (tp_obj (nc_client nc)) (trust_url nc role)"

lemma FetchTrustData_panics: "panics (FetchTrustData nx nc role cancelled) \<longleftrightarrow> refreshed nx nc role"
  by (auto simp: FetchTrustData_def fetch_body_def client_Do_def SetRefreshToken_def refreshed_def
      split: option.split prod.split)

lemma FetchTrustData_Ret:
  assumes "FetchTrustData nx nc role cancelled = Ret x"
  shows "x = None \<longleftrightarrow> cancelled" and "x = Some td \<Longrightarrow> td_Role td = role"
  using assms by (auto simp: FetchTrustData_def split: if_split_asm prod.split_asm)

lemma arrivals_Roles: "mset (map td_Role (received (arrivals nx nc cancel i roles))) \<subseteq># mset roles"
proof (induction roles arbitrary: i)
  case (Cons role roles)
  let ?f = "FetchTrustData nx nc role (case cancel of None \<Rightarrow> False | Some (c, k) \<Rightarrow> c \<le> i)"
  have sub: "mset (map td_Role (received (arrivals nx nc cancel (Suc i) roles))) \<subseteq># add_mset role (mset roles)"
    using Cons.IH by (rule subset_mset.order_trans) simp
  show ?case
  proof (cases ?f)
    case (Ret x)
    show ?thesis
    proof (cases x)
      case (Some td)
      have "td_Role td = role" by (rule FetchTrustData_Ret(2)[OF Ret Some])
      then show ?thesis using Cons.IH[of "Suc i"] Ret Some by simp
    qed (use sub Ret in simp)
  qed (use sub in simp)
qed simp

lemma deliver_Roles:
  assumes "honest sd"
  shows "mset (map td_Role (received (deliver nx nc sd roles))) \<subseteq># mset roles"
proof -
  let ?es = "arrivals nx nc (sd_cancel sd) 0 (sd_order sd roles)"
  have all: "mset (map td_Role (received ?es)) \<subseteq># mset roles"
    using arrivals_Roles[of nx nc "sd_cancel sd" 0 "sd_order sd roles"] assms by (simp add: honest_def)
  have "mset (map td_Role (take k (received ?es))) \<subseteq># mset (map td_Role (received ?es))" for k
    by (metis append_take_drop_id map_append mset_append mset_subset_eq_add_left)
  then have "mset (map td_Role (take k (received ?es))) \<subseteq># mset roles" for k
    using all by (rule subset_mset.order_trans)
  with all show ?thesis by (cases "sd_cancel sd") (auto simp: deliver_def Let_def received_see_cancel)
qed

lemma deliver_Died:
  assumes "honest sd" and "Died p \<in> set (deliver nx nc sd roles)"
  shows "\<exists>role \<in> set roles. refreshed nx nc role"
proof -
  have see: "Died p \<in> set (see_cancel k es) \<Longrightarrow> Died p \<in> set es" for k and es :: "'a fetch_event list"
    by (induction k es rule: see_cancel.induct) auto
  have arr: "Died p \<in> set (arrivals nx nc cancel i rs) \<Longrightarrow> \<exists>role \<in> set rs. refreshed nx nc role" for cancel i rs
  proof (induction rs arbitrary: i)
    case (Cons role rs)
    let ?f = "FetchTrustData nx nc role (case cancel of None \<Rightarrow> False | Some (c, k) \<Rightarrow> c \<le> i)"
    show ?case
    proof (cases ?f)
      case (Panic q)
      then have "panics ?f" by simp
      then have "refreshed nx nc role" by (simp only: FetchTrustData_panics)
      then show ?thesis by simp
    qed (use Cons in \<open>auto split: option.split_asm\<close>)
  qed simp
  have "set (sd_order sd roles) = set roles" using assms(1) by (metis honest_def set_mset_mset)
  with assms(2) see arr show ?thesis
    by (fastforce simp: deliver_def Let_def split: option.split_asm)
qed

text \<open>Without a cancellation, a loop that takes no more than there are goroutines finds an event.\<close>

lemma complete_deliver: "complete sd \<Longrightarrow> deliver nx nc sd roles = arrivals nx nc None 0 (sd_order sd roles)"
  by (simp add: complete_def deliver_def)

lemma complete_length: "complete sd \<Longrightarrow> length (sd_order sd roles) = length roles"
  by (metis complete_def honest_def size_mset)

lemma arrivals_Cons:
  "\<exists>e. arrivals nx nc None i (role # roles) = e # arrivals nx nc None (Suc i) roles \<and> e \<noteq> Cancelled"
  using FetchTrustData_Ret(1)[of nx nc role False] by (auto split: go.split option.split)

fun has_role :: "'o Repo \<Rightarrow> string \<Rightarrow> bool" where
  "has_role r role =
     (if role = RootRole then rp_Root r \<noteq> None
      else if role = SnapshotRole then rp_Snapshot r \<noteq> None
      else if role = TimestampRole then rp_Timestamp r \<noteq> None
      else (\<exists>t. map_of (rp_Targets r) role = Some (Some t)))"

lemma from_res_None: "from_res x = (y, None) \<longleftrightarrow> (\<exists>a. x = Inr a \<and> y = Some a)"
  by (cases x) (auto simp: from_res_def)

lemma store_base_None:
  assumes "store_base nx td r = (r', None)"
  shows "td_Role td = RootRole \<and> (\<exists>x. r' = r\<lparr>rp_Root := Some x\<rparr>) \<or>
    td_Role td = TargetsRole \<and> (\<exists>x. r' = r\<lparr>rp_Targets := map_put TargetsRole (Some x) (rp_Targets r)\<rparr>) \<or>
    td_Role td = SnapshotRole \<and> (\<exists>x. r' = r\<lparr>rp_Snapshot := Some x\<rparr>) \<or>
    td_Role td = TimestampRole \<and> (\<exists>x. r' = r\<lparr>rp_Timestamp := Some x\<rparr>) \<or>
    td_Role td \<notin> set BaseRoles \<and> r' = r"
  using assms unfolding store_base_def Let_def BaseRoles_def
  by (auto simp: from_res_None split: if_split_asm prod.split_asm)

lemma store_base_has:
  assumes "store_base nx td r = (r', None)"
  shows "has_role r role \<Longrightarrow> has_role r' role" and "td_Role td \<in> set BaseRoles \<Longrightarrow> has_role r' (td_Role td)"
  using store_base_None[OF assms] by (elim disjE; force split: if_split_asm)+

lemma has_role_checksums [simp]: "has_role (r\<lparr>rp_notCheckedChecksums := c\<rparr>) role = has_role r role"
  by simp

lemma receive_base_None:
  assumes "receive_base nx n es r = Ret (Some (r', None))"
  obtains outs rest where "es = map Received outs @ rest" and "length outs = n"
    and "\<And>td. td \<in> set outs \<Longrightarrow> td_Role td \<in> set BaseRoles \<Longrightarrow> has_role r' (td_Role td)"
    and "\<And>role. has_role r role \<Longrightarrow> has_role r' role"
proof -
  have "\<exists>outs rest. es = map Received outs @ rest \<and> length outs = n \<and>
      (\<forall>td \<in> set outs. td_Role td \<in> set BaseRoles \<longrightarrow> has_role r' (td_Role td)) \<and>
      (\<forall>role. has_role r role \<longrightarrow> has_role r' role)"
    using assms
  proof (induction nx n es r rule: receive_base.induct)
    case (5 nx n td es r)
    obtain r1 err where st: "store_base nx td r = (r1, err)" by (cases "store_base nx td r")
    have e: "td_Err td = None" "err = None" using 5(2) st by (auto split: option.split_asm)
    let ?r = "r1\<lparr>rp_notCheckedChecksums := map_put (td_Role td) (td_Raw td) (rp_notCheckedChecksums r1)\<rparr>"
    have "receive_base nx n es ?r = Ret (Some (r', None))" using 5(2) st e by simp
    from 5(1)[OF e(1) st[symmetric] e(2) this] obtain outs rest where
      o: "es = map Received outs @ rest" "length outs = n"
      "\<forall>td \<in> set outs. td_Role td \<in> set BaseRoles \<longrightarrow> has_role r' (td_Role td)"
      "\<forall>role. has_role ?r role \<longrightarrow> has_role r' role" by blast
    note h = store_base_has[OF st[unfolded e(2)]]
    have "Received td # es = map Received (td # outs) @ rest \<and> length (td # outs) = Suc n \<and>
      (\<forall>t \<in> set (td # outs). td_Role t \<in> set BaseRoles \<longrightarrow> has_role r' (td_Role t)) \<and>
      (\<forall>role. has_role r role \<longrightarrow> has_role r' role)"
      using o h unfolding has_role_checksums by (simp del: has_role.simps)
    then show ?case by blast
  qed auto
  with that show ?thesis by blast
qed

text \<open>A loop that has read as many outputs as there are goroutines has read those of all roles.\<close>

lemma honest_all_roles:
  assumes "honest sd" and "deliver nx nc sd roles = map Received outs @ rest" and "length outs = length roles"
  shows "set (map td_Role outs) = set roles"
proof -
  have "mset (map td_Role (outs @ received rest)) \<subseteq># mset roles"
    using deliver_Roles[OF assms(1), of nx nc roles] unfolding assms(2) by simp
  then have sub: "mset (map td_Role outs) \<subseteq># mset roles"
    by (metis map_append mset_append mset_subset_eq_add_left subset_mset.order_trans)
  have "size (mset roles) = size (mset (map td_Role outs))" using assms(3) by simp
  then have "mset (map td_Role outs) = mset roles"
    using mset_subset_size[of "mset (map td_Role outs)" "mset roles"] sub by (auto simp: subset_mset.less_le)
  then show ?thesis by (rule mset_eq_setD)
qed

lemma DownloadBaseTrustData_has:
  assumes "honest sd" and "DownloadBaseTrustData nx sd nc r = Ret (Some (r', None))"
  shows "\<forall>role \<in> set BaseRoles. has_role r' role"
proof
  fix role assume "role \<in> set BaseRoles"
  from assms(2)[unfolded DownloadBaseTrustData_def] show "has_role r' role"
  proof (rule receive_base_None)
    fix outs rest
    assume o: "deliver nx nc sd BaseRoles = map Received outs @ rest" "length outs = length BaseRoles"
      and has: "\<And>td. td \<in> set outs \<Longrightarrow> td_Role td \<in> set BaseRoles \<Longrightarrow> has_role r' (td_Role td)"
    from honest_all_roles[OF assms(1) o] \<open>role \<in> set BaseRoles\<close> obtain td where "td \<in> set outs" "td_Role td = role"
      by (metis ex_map_conv imageE set_map)
    with has \<open>role \<in> set BaseRoles\<close> show ?thesis by blast
  qed
qed

lemma receive_base_returns:
  "n \<le> length roles \<Longrightarrow> receive_base nx n (arrivals nx nc None i roles) r \<noteq> Ret None"
proof (induction n arbitrary: roles i r)
  case (Suc n)
  then obtain role roles' where o: "roles = role # roles'" "n \<le> length roles'" by (cases roles) auto
  obtain e where e: "arrivals nx nc None i roles = e # arrivals nx nc None (Suc i) roles'" "e \<noteq> Cancelled"
    using arrivals_Cons[of nx nc i role roles'] unfolding o(1) by blast
  show ?case
  proof (cases e)
    case (Received td)
    obtain r1 err where "store_base nx td r = (r1, err)" by (cases "store_base nx td r")
    then show ?thesis using Suc.IH[OF o(2)] e Received by (cases "td_Err td"; cases err) simp_all
  qed (use e in simp_all)
qed simp

lemma DownloadBaseTrustData_returns:
  assumes "complete sd"
  shows "DownloadBaseTrustData nx sd nc r \<noteq> Ret None"
  unfolding DownloadBaseTrustData_def complete_deliver[OF assms]
  by (rule receive_base_returns) (simp add: complete_length[OF assms])

lemma receive_base_Panic: "receive_base nx n es r = Panic p \<Longrightarrow> Died p \<in> set es"
  by (induction nx n es r rule: receive_base.induct) (auto split: option.split_asm prod.split_asm)

lemma DownloadBaseTrustData_panics:
  assumes "honest sd" and "panics (DownloadBaseTrustData nx sd nc r)"
  shows "\<exists>role \<in> set BaseRoles. refreshed nx nc role"
proof -
  obtain p where "DownloadBaseTrustData nx sd nc r = Panic p"
    using assms(2) by (cases "DownloadBaseTrustData nx sd nc r") auto
  then show ?thesis unfolding DownloadBaseTrustData_def by (blast intro: deliver_Died[OF assms(1)] dest: receive_base_Panic)
qed

lemma ValidateBaseTrustData_returns:
  assumes "\<forall>role \<in> set BaseRoles. has_role r role"
  shows "\<exists>e. ValidateBaseTrustData nx r keys = Ret e"
proof -
  obtain root t s ts where r: "rp_Root r = Some root" "target_of r TargetsRole = Ret t"
    "rp_Snapshot r = Some s" "rp_Timestamp r = Some ts"
    using assms unfolding ball_BaseRoles by (auto simp: target_of_iff)
  have "\<exists>e. validate_role nx r role = Ret e" if "role \<noteq> RootRole" for role
  proof -
    obtain obj where "role_object r role = Ret obj"
      using r by (cases "role = TargetsRole"; cases "role = SnapshotRole") (simp_all add: role_object_def)
    then show ?thesis using r(1) by (cases "nx_ToSigned nx obj") (simp_all add: validate_role_def)
  qed
  then have rest: "\<exists>e. validateRestOfBase nx r = Ret e"
    unfolding validateRestOfBase_def by (intro first_error_returns) auto
  have check: "\<exists>e. validateBaseChecksums nx r = Ret e"
    unfolding validateBaseChecksums_def by (intro first_error_returns) (simp add: check_role_def r)
  obtain e1 where e1: "validateRoot nx r keys = Ret e1" using r(1) by (simp add: validateRoot_def)
  obtain e2 e3 where e: "validateRestOfBase nx r = Ret e2" "validateBaseChecksums nx r = Ret e3"
    using rest check by blast
  have "\<exists>e'. Ret None = Ret e'" by simp
  from then_step_returns[OF e1 then_step_returns[OF e(1) then_step_returns[OF e(2) this]]] show ?thesis
    unfolding ValidateBaseTrustData_def .
qed

subsection \<open>Delegations\<close>

lemma receive_delegations_keeps:
  "receive_delegations nx n es r = Ret (Some (r', e)) \<Longrightarrow>
   rp_Root r' = rp_Root r \<and> rp_Snapshot r' = rp_Snapshot r \<and> rp_Timestamp r' = rp_Timestamp r \<and>
   (role \<notin> td_Role ` set (received es) \<longrightarrow> map_of (rp_Targets r') role = map_of (rp_Targets r) role)"
proof (induction nx n es r rule: receive_delegations.induct)
  case (5 nx n td es r)
  obtain x err where x: "from_res (nx_TargetsFromSigned nx (td_Data td) (td_Role td)) = (x, err)"
    by (cases "from_res (nx_TargetsFromSigned nx (td_Data td) (td_Role td))")
  show ?case
  proof (cases "td_Err td = None \<and> err = None")
    case True
    from 5(1)[OF _ x[symmetric] refl] True 5(2) x show ?thesis by (auto simp: Let_def)
  next
    case False
    with 5(2) x show ?thesis by (auto simp: Let_def split: option.split_asm)
  qed
qed auto

abbreviation has_target :: "'o Repo \<Rightarrow> string \<Rightarrow> bool" where
  "has_target r role \<equiv> \<exists>t. map_of (rp_Targets r) role = Some (Some t)"

lemma receive_delegations_None:
  assumes "receive_delegations nx n es r = Ret (Some (r', None))"
  shows "\<exists>outs rest. es = map Received outs @ rest \<and> length outs = n \<and>
    (\<forall>td \<in> set outs. has_target r' (td_Role td)) \<and> (\<forall>role. has_target r role \<longrightarrow> has_target r' role)"
  using assms
proof (induction nx n es r rule: receive_delegations.induct)
  case (5 nx n td es r)
  obtain x err where x: "from_res (nx_TargetsFromSigned nx (td_Data td) (td_Role td)) = (x, err)"
    by (cases "from_res (nx_TargetsFromSigned nx (td_Data td) (td_Role td))")
  have e: "td_Err td = None" "err = None" using 5(2) x by (auto simp: Let_def split: option.split_asm if_split_asm)
  then obtain t where t: "x = Some t" using x by (auto simp: from_res_None)
  let ?r = "r\<lparr>rp_Targets := map_put (td_Role td) x (rp_Targets r),
    rp_notCheckedChecksums := map_put (td_Role td) (td_Raw td) (rp_notCheckedChecksums r)\<rparr>"
  have "receive_delegations nx n es ?r = Ret (Some (r', None))" using 5(2) x e by simp
  with 5(1)[OF e(1) x[symmetric] refl] e obtain outs rest where
    o: "es = map Received outs @ rest" "length outs = n" "\<forall>td \<in> set outs. has_target r' (td_Role td)"
    "\<forall>role. has_target ?r role \<longrightarrow> has_target r' role" by auto
  have "Received td # es = map Received (td # outs) @ rest \<and> length (td # outs) = Suc n \<and>
    (\<forall>t \<in> set (td # outs). has_target r' (td_Role t)) \<and> (\<forall>role. has_target r role \<longrightarrow> has_target r' role)"
    using o t by (auto split: if_split_asm)
  then show ?case by blast
qed auto

lemma receive_delegations_returns:
  "n \<le> length roles \<Longrightarrow> receive_delegations nx n (arrivals nx nc None i roles) r \<noteq> Ret None"
proof (induction n arbitrary: roles i r)
  case (Suc n)
  then obtain role roles' where o: "roles = role # roles'" "n \<le> length roles'" by (cases roles) auto
  obtain e where e: "arrivals nx nc None i roles = e # arrivals nx nc None (Suc i) roles'" "e \<noteq> Cancelled"
    using arrivals_Cons[of nx nc i role roles'] unfolding o(1) by blast
  show ?case
  proof (cases e)
    case (Received td)
    obtain x err where "from_res (nx_TargetsFromSigned nx (td_Data td) (td_Role td)) = (x, err)"
      by (cases "from_res (nx_TargetsFromSigned nx (td_Data td) (td_Role td))")
    then show ?thesis using Suc.IH[OF o(2)] e Received by (cases "td_Err td"; cases err) (simp_all add: Let_def)
  qed (use e in simp_all)
qed simp

lemma receive_delegations_Panic: "receive_delegations nx n es r = Panic p \<Longrightarrow> Died p \<in> set es"
  by (induction nx n es r rule: receive_delegations.induct)
    (auto simp: Let_def split: option.split_asm prod.split_asm if_split_asm)

lemma validate_delegation_returns:
  assumes "target_of r TargetsRole = Ret targets" and "rp_Snapshot r = Some s" and "has_target r d"
  shows "\<exists>e. validate_delegation nx r d = Ret e"
proof -
  obtain t where t: "map_of (rp_Targets r) d = Some (Some t)" using assms(3) by blast
  show ?thesis
    by (cases "nx_BuildDelegationRole nx (st_obj targets) d"; cases "nx_ToSigned nx (st_obj t)")
      (simp_all add: validate_delegation_def t assms(1,2))
qed

text \<open>What a call of \<open>DownloadAndValidateDelegations\<close> returns, and what it leaves of the repository.\<close>

lemma DownloadAndValidateDelegations_spec:
  assumes "honest sd" and "target_of r TargetsRole = Ret targets" and "rp_Snapshot r = Some s"
    and "TargetsRole \<notin> set ds"
  shows "(panics (DownloadAndValidateDelegations nx sd nc r ds) \<longrightarrow> (\<exists>d \<in> set ds. refreshed nx nc d)) \<and>
    (complete sd \<longrightarrow> DownloadAndValidateDelegations nx sd nc r ds \<noteq> Ret None) \<and>
    (\<forall>r' e. DownloadAndValidateDelegations nx sd nc r ds = Ret (Some (r', e)) \<longrightarrow>
      rp_Root r' = rp_Root r \<and> rp_Snapshot r' = rp_Snapshot r \<and> target_of r' TargetsRole = Ret targets \<and>
      (e = None \<longrightarrow> (\<forall>d \<in> set ds. d \<in> set (st_Roles targets) \<and> delegation_valid nx r' d)))"
    (is "?P (DownloadAndValidateDelegations nx sd nc r ds)")
proof (cases "find (\<lambda>d. d \<notin> set (st_Roles targets)) ds")
  case (Some d)
  then show ?thesis using assms by (simp add: DownloadAndValidateDelegations_def)
next
  case None
  then have roles: "\<forall>d \<in> set ds. d \<in> set (st_Roles targets)" by (simp add: find_None_iff)
  let ?recv = "receive_delegations nx (length ds) (deliver nx nc sd ds) r"
  have start: "DownloadAndValidateDelegations nx sd nc r ds = go_bind ?recv (\<lambda>result.
      case result of None \<Rightarrow> Ret None | Some (r, Some err) \<Rightarrow> Ret (Some (r, Some err))
       | Some (r, None) \<Rightarrow> go_bind (validateDelegations nx r ds) (\<lambda>err. Ret (Some (r, err))))"
    using assms(2) None by (simp add: DownloadAndValidateDelegations_def)
  have sent: "td_Role ` set (received (deliver nx nc sd ds)) \<subseteq> set ds"
    using set_mset_mono[OF deliver_Roles[OF assms(1), of nx nc ds]] by simp
  have keep: "rp_Root r' = rp_Root r \<and> rp_Snapshot r' = rp_Snapshot r \<and> target_of r' TargetsRole = Ret targets"
    if "?recv = Ret (Some (r', e))" for r' e
    using receive_delegations_keeps[OF that, of TargetsRole] sent assms(2,4) by (auto simp: target_of_def)
  show ?thesis
  proof (cases ?recv)
    case (Panic p)
    from deliver_Died[OF assms(1) receive_delegations_Panic[OF this]] Panic start show ?thesis by simp
  next
    case (Ret y)
    have answers: "y \<noteq> None" if c: "complete sd"
      using receive_delegations_returns[of "length ds" "sd_order sd ds" nx nc 0 r] Ret
      by (simp add: complete_deliver[OF c] complete_length[OF c])
    show ?thesis
    proof (cases y)
      case None
      with start Ret answers show ?thesis by auto
    next
      case (Some x)
      obtain r' e where x: "x = (r', e)" by (cases x)
      note k = keep[OF Ret[unfolded Some x]]
      show ?thesis
      proof (cases e)
        case (Some m)
        with start Ret \<open>y = Some x\<close> x k show ?thesis by simp
      next
        case None
        obtain outs rest where o: "deliver nx nc sd ds = map Received outs @ rest"
          "length outs = length ds" "\<forall>td \<in> set outs. has_target r' (td_Role td)"
          using receive_delegations_None[OF Ret[unfolded Some x None]] by blast
        have has: "has_target r' d" if d: "d \<in> set ds" for d
        proof -
          have "d \<in> set (map td_Role outs)" using honest_all_roles[OF assms(1) o(1,2)] d by simp
          then obtain td where "td \<in> set outs" "td_Role td = d" by auto
          with o(3) show ?thesis by auto
        qed
        have snap: "rp_Snapshot r' = Some s" using k assms(3) by simp
        have "\<exists>err. validateDelegations nx r' ds = Ret err"
          unfolding validateDelegations_def
        proof (rule first_error_returns)
          fix d assume "d \<in> set ds"
          from validate_delegation_returns[OF _ snap has[OF this]] k
          show "\<exists>err. validate_delegation nx r' d = Ret err" by simp
        qed
        then obtain err where err: "validateDelegations nx r' ds = Ret err" by blast
        then have "err = None \<Longrightarrow> \<forall>d \<in> set ds. d \<in> set (st_Roles targets) \<and> delegation_valid nx r' d"
          using roles by (auto simp: validateDelegations_def dest!: validate_delegation_None)
        moreover have "DownloadAndValidateDelegations nx sd nc r ds = Ret (Some (r', err))"
          using start Ret Some x None err by simp
        ultimately show ?thesis using k by simp
      qed
    qed
  qed
qed

subsection \<open>What the server makes of a download\<close>

text \<open>The server delivers the trust data of a role, and the library parses it.\<close>

definition good :: "'o notary_ext \<Rightarrow> 'o TrustData \<Rightarrow> bool" where
  "good nx td \<longleftrightarrow> td_Err td = None \<and> (\<forall>r. snd (store_base nx td r) = None)"

definition served :: "'o notary_ext \<Rightarrow> 'o NotaryClient \<Rightarrow> string \<Rightarrow> bool" where
  "served nx nc role \<longleftrightarrow> (\<exists>td. FetchTrustData nx nc role False = Ret (Some td) \<and> good nx td)"

lemma FetchTrustData_served:
  assumes "served nx nc role"
  obtains td where "good nx td" and "\<And>cancelled. FetchTrustData nx nc role cancelled = Ret (if cancelled then None else Some td)"
proof -
  obtain td where td: "FetchTrustData nx nc role False = Ret (Some td)" "good nx td"
    using assms by (auto simp: served_def)
  then have "FetchTrustData nx nc role cancelled = Ret (if cancelled then None else Some td)" for cancelled
    by (auto simp: FetchTrustData_def split: prod.split_asm)
  with td(2) that show ?thesis by blast
qed

lemma arrivals_served:
  assumes "\<forall>role \<in> set roles. served nx nc role"
  shows "\<exists>outs. arrivals nx nc cancel i roles = map Received outs \<and> (\<forall>td \<in> set outs. good nx td) \<and>
    length outs = (case cancel of None \<Rightarrow> length roles | Some (c, k) \<Rightarrow> min (length roles) (c - i))"
  using assms
proof (induction roles arbitrary: i)
  case Nil
  show ?case by (auto split: option.split)
next
  case (Cons role roles)
  obtain outs where o: "arrivals nx nc cancel (Suc i) roles = map Received outs" "\<forall>td \<in> set outs. good nx td"
    "length outs = (case cancel of None \<Rightarrow> length roles | Some (c, k) \<Rightarrow> min (length roles) (c - Suc i))"
    using Cons.IH[of "Suc i"] Cons.prems by auto
  obtain td where td: "good nx td"
    "\<And>cancelled. FetchTrustData nx nc role cancelled = Ret (if cancelled then None else Some td)"
    using Cons.prems FetchTrustData_served by (metis list.set_intros(1))
  show ?case
  proof (cases "case cancel of None \<Rightarrow> False | Some (c, k) \<Rightarrow> c \<le> i")
    case True
    then show ?thesis using o by (intro exI[of _ outs]) (auto simp: td(2) split: option.split_asm)
  next
    case False
    then have "length (td # outs) =
        (case cancel of None \<Rightarrow> length (role # roles) | Some (c, k) \<Rightarrow> min (length (role # roles)) (c - i))"
      using o(3) by (auto split: option.split option.split_asm)
    then show ?thesis using o(1,2) td(1) False by (intro exI[of _ "td # outs"]) (simp add: td(2))
  qed
qed

lemma see_cancel_Received:
  "see_cancel k (map Received outs) = map Received (take k outs) @ (if k \<le> length outs then [Cancelled] else [])"
proof (induction outs arbitrary: k)
  case (Cons td outs)
  then show ?case by (cases k) simp_all
next
  case Nil
  show ?case by (cases k) simp_all
qed

lemma receive_base_blocks:
  "\<forall>td \<in> set outs. good nx td \<Longrightarrow>
   receive_base nx n (map Received outs @ rest) r = Ret None \<longleftrightarrow> length outs < n \<and> receive_base nx (n - length outs) rest empty_Repo = Ret None"
  if rest: "rest = [] \<or> rest = [Cancelled]"
proof (induction outs arbitrary: n r)
  case Nil
  then show ?case using rest by (cases n) auto
next
  case (Cons td outs)
  then obtain r1 where "store_base nx td r = (r1, None)" "td_Err td = None"
    by (metis good_def list.set_intros(1) prod.collapse)
  with Cons show ?case by (cases n) simp_all
qed

text \<open>
  With a server that delivers, the download blocks exactly if fewer goroutines than there are roles send
  before a cancellation that the loop does not see in time.
\<close>

lemma DownloadBaseTrustData_blocks:
  assumes "honest sd" and "\<forall>role \<in> set BaseRoles. served nx nc role"
  shows "DownloadBaseTrustData nx sd nc r = Ret None \<longleftrightarrow>
    (\<exists>c k. sd_cancel sd = Some (c, k) \<and> c < k \<and> c < length BaseRoles)"
proof -
  have roles: "set (sd_order sd BaseRoles) = set BaseRoles" "length (sd_order sd BaseRoles) = length BaseRoles"
    using assms(1) by (metis honest_def set_mset_mset) (metis assms(1) honest_def size_mset)
  obtain outs where o: "arrivals nx nc (sd_cancel sd) 0 (sd_order sd BaseRoles) = map Received outs" "\<forall>td \<in> set outs. good nx td"
    "length outs = (case sd_cancel sd of None \<Rightarrow> length BaseRoles | Some (c, k) \<Rightarrow> min (length BaseRoles) (c - 0))"
    using arrivals_served[of "sd_order sd BaseRoles" nx nc "sd_cancel sd" 0] assms(2) unfolding roles by blast
  show ?thesis
  proof (cases "sd_cancel sd")
    case None
    have "receive_base nx (length BaseRoles) (map Received outs @ []) r' \<noteq> Ret None" for r'
      using o(3) None by (subst receive_base_blocks) (use o(2) in auto)
    then show ?thesis using None o(1) by (simp add: DownloadBaseTrustData_def deliver_def)
  next
    case (Some ck)
    obtain c k where ck: "ck = (c, k)" by (cases ck)
    have len: "length outs = min (length BaseRoles) c" using o(3) Some ck by simp
    have es: "deliver nx nc sd BaseRoles = map Received (take k outs) @ (if k \<le> length outs then [Cancelled] else [])"
      using Some ck o(1) by (simp add: deliver_def see_cancel_Received)
    have "receive_base nx (length BaseRoles) (deliver nx nc sd BaseRoles) r' = Ret None \<longleftrightarrow> c < k \<and> c < length BaseRoles" for r'
    proof (cases "k \<le> length outs")
      case True
      have "receive_base nx (Suc n) [Cancelled] x \<noteq> Ret None" for n x by simp
      then have "receive_base nx (length BaseRoles - length (take k outs)) [Cancelled] empty_Repo \<noteq> Ret None"
        by (cases "length BaseRoles - length (take k outs)") simp_all
      then have "receive_base nx (length BaseRoles) (deliver nx nc sd BaseRoles) r' \<noteq> Ret None"
        using True unfolding es by (subst if_P) (simp, subst receive_base_blocks, use o(2) in \<open>auto dest: in_set_takeD\<close>)
      then show ?thesis using True len by auto
    next
      case False
      have "receive_base nx (length BaseRoles) (map Received outs @ []) r' = Ret None \<longleftrightarrow> length outs < length BaseRoles"
      proof (subst receive_base_blocks)
        have "receive_base nx (length BaseRoles - length outs) [] empty_Repo = Ret None" if "length outs < length BaseRoles"
          using that by (cases "length BaseRoles - length outs") simp_all
        then show "length outs < length BaseRoles \<and>
            receive_base nx (length BaseRoles - length outs) [] empty_Repo = Ret None \<longleftrightarrow> length outs < length BaseRoles"
          by blast
      qed (use o(2) in auto)
      then show ?thesis using False len unfolding es by auto
    qed
    then show ?thesis using Some ck by (simp add: DownloadBaseTrustData_def)
  qed
qed

text \<open>The server does not have the file of a delegation.\<close>

definition withheld :: "'o notary_ext \<Rightarrow> 'o NotaryClient \<Rightarrow> string \<Rightarrow> bool" where
  "withheld nx nc d \<longleftrightarrow>
     nx_NewRequest nx (trust_url nc d) = None \<and>
     (\<exists>resp. client_Do nx (nc_client nc) (trust_url nc d) = Ret (Inr resp) \<and> hr_StatusCode resp \<noteq> 200)"

definition delegation_served :: "'o notary_ext \<Rightarrow> 'o NotaryClient \<Rightarrow> string \<Rightarrow> bool" where
  "delegation_served nx nc d \<longleftrightarrow>
     (\<exists>td t. FetchTrustData nx nc d False = Ret (Some td) \<and> td_Err td = None \<and>
        nx_TargetsFromSigned nx (td_Data td) d = Inr t)"

lemma arrivals_withheld:
  assumes "\<forall>d \<in> set ds. withheld nx nc d \<or> delegation_served nx nc d" and "\<exists>d \<in> set ds. withheld nx nc d"
  shows "\<exists>r' err. receive_delegations nx (length ds) (arrivals nx nc None i ds) r = Ret (Some (r', Some err)) \<and>
    Contains err ''error acquiring trust data''"
  using assms
proof (induction ds arbitrary: i r)
  case (Cons d ds)
  show ?case
  proof (cases "withheld nx nc d")
    case True
    then obtain resp where "nx_NewRequest nx (trust_url nc d) = None"
      "client_Do nx (nc_client nc) (trust_url nc d) = Ret (Inr resp)" "hr_StatusCode resp \<noteq> 200"
      by (auto simp: withheld_def)
    then have f: "FetchTrustData nx nc d False = Ret (Some \<lparr>td_Role = d, td_Data = None, td_Raw = [],
        td_Err = Some (''error acquiring trust data '' @ d @ '': '' @ hr_Status resp)\<rparr>)"
      by (simp add: FetchTrustData_def fetch_body_def)
    let ?err = "''error downloading delegation '' @ d @ '': '' @ ''error acquiring trust data '' @ d @ '': '' @ hr_Status resp"
    have "receive_delegations nx (length (d # ds)) (arrivals nx nc None i (d # ds)) r = Ret (Some (r, Some ?err))"
      by (simp add: f)
    moreover have "Contains ?err ''error acquiring trust data''"
      unfolding Contains_iff by (rule exI[of _ "''error downloading delegation '' @ d @ '': ''"],
        rule exI[of _ "'' '' @ d @ '': '' @ hr_Status resp"]) simp
    ultimately show ?thesis by blast
  next
    case False
    with Cons.prems obtain td t where td: "FetchTrustData nx nc d False = Ret (Some td)" "td_Err td = None"
      "nx_TargetsFromSigned nx (td_Data td) d = Inr t" by (auto simp: delegation_served_def)
    have role: "td_Role td = d" by (rule FetchTrustData_Ret(2)[OF td(1) refl])
    have "\<exists>d \<in> set ds. withheld nx nc d" using Cons.prems(2) False by simp
    with Cons.IH Cons.prems(1) td role show ?thesis by (simp add: from_res_def Let_def)
  qed
qed simp

lemma DownloadAndValidateDelegations_withheld:
  assumes "complete sd" and "target_of r TargetsRole = Ret targets" and "set ds \<subseteq> set (st_Roles targets)"
    and "\<forall>d \<in> set ds. withheld nx nc d \<or> delegation_served nx nc d" and "\<exists>d \<in> set ds. withheld nx nc d"
  shows "\<exists>r' err. DownloadAndValidateDelegations nx sd nc r ds = Ret (Some (r', Some err)) \<and>
    Contains err ''error acquiring trust data''"
proof -
  have order: "set (sd_order sd ds) = set ds"
    using assms(1) by (metis complete_def honest_def set_mset_mset)
  have "find (\<lambda>d. d \<notin> set (st_Roles targets)) ds = None" using assms(3) by (auto simp: find_None_iff)
  then have "DownloadAndValidateDelegations nx sd nc r ds =
      go_bind (receive_delegations nx (length (sd_order sd ds)) (arrivals nx nc None 0 (sd_order sd ds)) r) (\<lambda>result.
      case result of None \<Rightarrow> Ret None | Some (r, Some err) \<Rightarrow> Ret (Some (r, Some err))
       | Some (r, None) \<Rightarrow> go_bind (validateDelegations nx r ds) (\<lambda>err. Ret (Some (r, err))))"
    using assms(2) by (simp add: DownloadAndValidateDelegations_def complete_deliver[OF assms(1)] complete_length[OF assms(1)])
  moreover obtain r' err where
    "receive_delegations nx (length (sd_order sd ds)) (arrivals nx nc None 0 (sd_order sd ds)) r = Ret (Some (r', Some err))"
    "Contains err ''error acquiring trust data''"
    using arrivals_withheld[of "sd_order sd ds" nx nc 0 r] assms(4,5) unfolding order by blast
  ultimately show ?thesis by (intro exI[of _ r'] exI[of _ err]) simp
qed

end
