(* ===== verification/NotaryV1.thy ===== *)
theory NotaryV1
  imports Notary_Server Validator_Iface
begin

text \<open>
  Package \<open>internal/validator/notaryv1\<close>: the Notary v1 validator (\<open>notaryv1_validator.go\<close>).
  The two schedules say in which order the goroutines for the base roles and for the delegations end,
  and when a cancellation is seen.
\<close>

section \<open>Definitions\<close>

record NotaryV1Validator =
  nv_Name :: string
  nv_Type :: string
  nv_Host :: string
  nv_Cert :: string
  nv_Auth :: Auth
  nv_TrustRoots :: "TrustRoot list"

abbreviation DefaultNotaryHost :: string where
  "DefaultNotaryHost \<equiv> ''notary.docker.io''"

text \<open>The host of the configuration: with a scheme, and a default.\<close>

definition notary_host :: "'o notary_ext \<Rightarrow> string \<Rightarrow> string res" where
  "notary_host nx host =
     (if host \<noteq> [] then
        (let host = (if \<not> HasPrefixes (ToLower host) [''http://'', ''https://''] then ''https://'' @ host else host)
         in case nx_ParseRequestURI nx host of
              Some err \<Rightarrow> Inl (''invalid url for notary host: '' @ err)
            | None \<Rightarrow> Inr host)
      else Inr (''https://'' @ DefaultNotaryHost))"

text \<open>A single entry without a registry is moved to the registry of the host.\<close>

definition rekey_auth :: "'o notary_ext \<Rightarrow> string \<Rightarrow> Auth \<Rightarrow> Auth res" where
  "rekey_auth nx host a =
     (if length (AuthConfigs a) = 1 then
        (case map_of (AuthConfigs a) EmptyAuthRegistry of
           None \<Rightarrow> Inr a
         | Some v \<Rightarrow>
             (case NewRegistryRepo (nx_newRegistry nx) (nx_newRepository nx) host of
                Inl err \<Rightarrow> Inl (''unable to parse registry '' @ host @ '': '' @ err)
              | Inr rr \<Rightarrow>
                  Inr (a\<lparr>AuthConfigs := map_put (RegistryRepo_String rr) v
                           (filter (\<lambda>(k, v). k \<noteq> EmptyAuthRegistry) (AuthConfigs a))\<rparr>)))
      else Inr a)"

definition NotaryV1Validator_UnmarshalYAML ::
  "'o notary_ext \<Rightarrow> NotaryV1Validator res \<Rightarrow> NotaryV1Validator res" where
  "NotaryV1Validator_UnmarshalYAML nx unmarshalled =
     (case unmarshalled of
        Inl err \<Rightarrow> Inl err
      | Inr valData \<Rightarrow>
          if length (nv_TrustRoots valData) < 1
          then Inl (''no trust roots provided for validator '' @ nv_Name valData)
          else case notary_host nx (nv_Host valData) of
            Inl err \<Rightarrow> Inl err
          | Inr host \<Rightarrow>
         (case rekey_auth nx host (nv_Auth valData) of
            Inl err \<Rightarrow> Inl err
          | Inr a \<Rightarrow>
              if nv_Cert valData \<noteq> [] \<and> nx_CertsFromPEM nx (nv_Cert valData) = None
              then Inl (''invalid certificate for validator '' @ nv_Name valData)
              else Inr (valData\<lparr>nv_Host := host, nv_Auth := a\<rparr>)))"

text \<open>The public keys of the trust roots that a reference names.\<close>

definition root_key :: "'o notary_ext \<Rightarrow> string \<Rightarrow> TrustRoot \<Rightarrow> 'o res" where
  "root_key nx name tr =
     (case nx_PemDecode nx (tr_Key tr) of
        None \<Rightarrow> Inl (''error decoding public key '' @ tr_Name tr @
                     '': wrong format, provide a PEM encoded public key'')
      | Some (bytes, rest) \<Rightarrow>
     (case nx_ParsePKIXPublicKey nx bytes of
        Inl err \<Rightarrow> Inl (''error parsing public key '' @ tr_Name tr @ '': '' @ err)
      | Inr keyType \<Rightarrow>
          if length rest \<noteq> 0
          then Inl (''key material for key '' @ tr_Name tr @ '' of validator '' @ name @
                    '' contains extraneous characters'')
          else Inr (nx_NewPublicKey nx
                 (if keyType = ''*rsa.PublicKey'' then ''rsa''
                  else if keyType = ''*ecdsa.PublicKey'' then ''ecdsa'' else ''unknown'') bytes)))"

fun root_keys :: "'o notary_ext \<Rightarrow> string \<Rightarrow> TrustRoot list \<Rightarrow> 'o list res" where
  "root_keys nx name [] = Inr []"
| "root_keys nx name (tr # trs) =
     (case root_key nx name tr of
        Inl err \<Rightarrow> Inl err
      | Inr k \<Rightarrow> map_sum id (\<lambda>ks. k # ks) (root_keys nx name trs))"

definition trustRootKeys :: "'o notary_ext \<Rightarrow> NotaryV1Validator \<Rightarrow> string \<Rightarrow> 'o list res" where
  "trustRootKeys nx nv keyRef =
     (case GetTrustRoots [keyRef] (nv_TrustRoots nv) True of
        Inl err \<Rightarrow> Inl (''error getting keys for validator '' @ nv_Name nv @ '': '' @ err)
      | Inr trs \<Rightarrow> root_keys nx (nv_Name nv) trs)"

definition toDelegationString :: "string \<Rightarrow> string" where
  "toDelegationString delegation =
     (if HasPrefix delegation ''targets/'' then delegation else ''targets/'' @ delegation)"

definition hex_digit :: "nat \<Rightarrow> char" where
  "hex_digit x = (if x < 10 then char_of (48 + x) else char_of (87 + x))"

text \<open>\<open>hex.EncodeToString\<close> of the hash, behind the name of the algorithm.\<close>

definition target_digest :: "hashes \<Rightarrow> string" where
  "target_digest h =
     ''sha256:'' @ concat (map (\<lambda>c. [hex_digit (of_char c div 16), hex_digit (of_char c mod 16)])
       (case map_of h ''sha256'' of None \<Rightarrow> [] | Some b \<Rightarrow> b))"

definition searchTargetsForTag :: "'o SignedTargets \<Rightarrow> string \<Rightarrow> string res" where
  "searchTargetsForTag targetFile tag =
     (case map_of (st_Targets targetFile) tag of
        Some h \<Rightarrow> Inr (target_digest h)
      | None \<Rightarrow> Inl (''no tag '' @ [CHR 0x27] @ tag @ [CHR 0x27] @ '' found in targets''))"

definition searchTargetsForDigest :: "'o SignedTargets \<Rightarrow> string \<Rightarrow> string res" where
  "searchTargetsForDigest targetFile digest =
     (case find (\<lambda>(name, h). target_digest h = digest) (st_Targets targetFile) of
        Some (name, h) \<Rightarrow> Inr (target_digest h)
      | None \<Rightarrow> Inl (''no digest '' @ [CHR 0x27] @ digest @ [CHR 0x27] @ '' found in targets''))"

subsection \<open>ValidateImage\<close>

text \<open>
  The roles in whose targets the digest is looked up, with the repository after the download of
  delegations. If the files of delegations are missing and the snapshot does not list all of them,
  the targets role is used instead.
\<close>

definition choose_targets ::
  "'o notary_ext \<Rightarrow> schedule \<Rightarrow> NotaryV1Validator \<Rightarrow> RuleOptions \<Rightarrow>
     'o NotaryClient \<Rightarrow> 'o Repo \<Rightarrow> ('o Repo \<times> string list) res option go" where
  "choose_targets nx sd nv args nc repo =
     go_bind (HasDelegations repo) (\<lambda>has.
       if length (ro_Delegations args) < 1 \<and> \<not> has then Ret (Some (Inr (repo, [TargetsRole])))
       else if \<not> has
       then Ret (Some (Inl (''no delegations found for validator '' @ nv_Name nv @
                 '', but following were required: '' @ fmt_slice (ro_Required args))))
       else
         let targets = (if length (ro_Delegations args) > 0 then Map (ro_Delegations args) toDelegationString
                        else [toDelegationString ''releases''])
         in go_bind (DownloadAndValidateDelegations nx sd nc repo targets) (\<lambda>result.
              case result of
                None \<Rightarrow> Ret None
              | Some (repo, None) \<Rightarrow> Ret (Some (Inr (repo, targets)))
              | Some (repo, Some err) \<Rightarrow>
                  let failed = Some (Inl (''error during download and validation of delegations for targets: '' @
                                          fmt_slice (map (nx_Quote nx) targets)))
                  in if Contains err ''error acquiring trust data''
                     then go_bind (HasDelegationHashes repo targets) (\<lambda>listed.
                            if \<not> listed then Ret (Some (Inr (repo, [TargetsRole]))) else Ret failed)
                     else Ret failed))"

text \<open>The loop over the chosen roles, with the keys of the map \<open>digests\<close>.\<close>

definition search_role :: "'o SignedTargets \<Rightarrow> Image \<Rightarrow> string res" where
  "search_role signedTarget img =
     (if Tag img \<noteq> [] then
        (case searchTargetsForTag signedTarget (Tag img) of
           Inl err \<Rightarrow> Inl (''validated targets don'' @ [CHR 0x27] @ ''t contain reference: '' @ err)
         | Inr digest \<Rightarrow>
             if Digest img \<noteq> [] \<and> Digest img \<noteq> digest
             then Inl (''digest '' @ digest @ '' resolved for tag '' @ Tag img @ '' doesn'' @ [CHR 0x27] @
                       ''t match given digest '' @ Digest img)
             else Inr digest)
      else
        (case searchTargetsForDigest signedTarget (Digest img) of
           Inl err \<Rightarrow> Inl (''validated targets don'' @ [CHR 0x27] @ ''t contain reference: '' @ err)
         | Inr digest \<Rightarrow> Inr digest))"

fun role_digests :: "'o Repo \<Rightarrow> Image \<Rightarrow> string list \<Rightarrow> string list \<Rightarrow> string list res go" where
  "role_digests repo img [] digests = Ret (Inr digests)"
| "role_digests repo img (target # targets) digests =
     go_bind (target_of repo target) (\<lambda>signedTarget.
       case search_role signedTarget img of
         Inl err \<Rightarrow> Ret (Inl err)
       | Inr digest \<Rightarrow> role_digests repo img targets (List.insert digest digests))"

text \<open>\<^const>\<open>None\<close>: a receive loop waits forever.\<close>

definition NotaryV1Validator_ValidateImage ::
  "'o notary_ext \<Rightarrow> schedule \<Rightarrow> schedule \<Rightarrow> NotaryV1Validator \<Rightarrow> Image \<Rightarrow> RuleOptions \<Rightarrow> string res option go" where
  "NotaryV1Validator_ValidateImage nx sd sd' nv img args =
     go_bind (NewNotaryClient nx (nv_Host nv) (nv_Cert nv) (nv_Auth nv) img) (\<lambda>client.
       case client of
         Inl err \<Rightarrow> Ret (Some (Inl (''error creating notary client: '' @ err)))
       | Inr nc \<Rightarrow>
      go_bind (DownloadBaseTrustData nx sd nc empty_Repo) (\<lambda>downloaded. case downloaded of
         None \<Rightarrow> Ret None
       | Some (repo, Some err) \<Rightarrow> Ret (Some (Inl (''error downloading trust data: '' @ err)))
       | Some (repo, None) \<Rightarrow>
      (case trustRootKeys nx nv (ro_TrustRoot args) of
         Inl err \<Rightarrow> Ret (Some (Inl (''error getting trust root keys for validator '' @ nv_Name nv @ '': '' @ err)))
       | Inr rootKeys \<Rightarrow>
           go_bind (ValidateBaseTrustData nx repo rootKeys) (\<lambda>err.
             case err of
               Some e \<Rightarrow> Ret (Some (Inl (''error validating trust data: '' @ e)))
             | None \<Rightarrow>
           go_bind (choose_targets nx sd' nv args nc repo) (\<lambda>chosen.
             case chosen of
               None \<Rightarrow> Ret None
             | Some (Inl e) \<Rightarrow> Ret (Some (Inl e))
             | Some (Inr (repo, targets)) \<Rightarrow>
                 go_bind (role_digests repo img targets []) (\<lambda>r. Ret (Some
                   (case r of
                      Inl e \<Rightarrow> Inl e
                    | Inr [d] \<Rightarrow> Inr d
                    | Inr digests \<Rightarrow>
                        Inl (''validator '' @ nv_Name nv @ '' found '' @ decimal (length digests) @
                             '' digests for image '' @ Identifier img @ '', expected 1'')))))))))"

text \<open>The method of the interface; it changes nothing of the image.\<close>

definition notaryv1_method ::
  "'o notary_ext \<Rightarrow> schedule \<Rightarrow> schedule \<Rightarrow> NotaryV1Validator \<Rightarrow> validate" where
  "notaryv1_method nx sd sd' nv img args =
     go_bind (NotaryV1Validator_ValidateImage nx sd sd' nv img args) (\<lambda>r.
       case r of None \<Rightarrow> Panic blocked | Some r \<Rightarrow> Ret (img, r))"

section \<open>Lemmas\<close>

definition requested :: "RuleOptions \<Rightarrow> string list" where
  "requested args =
     (if ro_Delegations args = [] then [''targets/releases''] else map toDelegationString (ro_Delegations args))"

lemma TargetsRole_not_requested: "TargetsRole \<notin> set (requested args)"
proof -
  have "toDelegationString d \<noteq> TargetsRole" for d
    by (auto simp: toDelegationString_def HasPrefix_iff)
  then show ?thesis by (auto simp: requested_def) (metis)
qed

lemma role_digests_Inr:
  assumes "role_digests repo img ts ds = Ret (Inr ds')"
  shows "set ds \<subseteq> set ds' \<and>
    (\<forall>t \<in> set ts. \<exists>st d. target_of repo t = Ret st \<and> search_role st img = Inr d \<and> d \<in> set ds') \<and>
    (ts = [] \<longrightarrow> ds' = ds)"
  using assms
proof (induction ts arbitrary: ds)
  case (Cons t ts)
  obtain st where st: "target_of repo t = Ret st" using Cons.prems by (cases "target_of repo t") simp_all
  obtain d where d: "search_role st img = Inr d" using Cons.prems st by (cases "search_role st img") simp_all
  have "role_digests repo img ts (List.insert d ds) = Ret (Inr ds')" using Cons.prems st d by simp
  from Cons.IH[OF this] st d show ?case by auto
qed simp

lemma role_digests_returns:
  "\<forall>t \<in> set ts. \<exists>st. target_of repo t = Ret st \<Longrightarrow> \<exists>r. role_digests repo img ts ds = Ret r"
proof (induction ts arbitrary: ds)
  case (Cons t ts)
  then obtain st where st: "target_of repo t = Ret st" by auto
  show ?case
  proof (cases "search_role st img")
    case (Inr d)
    from Cons.IH[of "List.insert d ds"] Cons.prems st Inr show ?thesis by auto
  qed (use st in simp)
qed simp

text \<open>The digest of a role is that of the tag, or the given one.\<close>

lemma search_role_pinned: "search_role st img = Inr d \<Longrightarrow> Digest img \<noteq> [] \<Longrightarrow> d = Digest img"
  by (auto simp: search_role_def searchTargetsForDigest_def find_Some_iff
      split: if_split_asm sum.split_asm option.split_asm)

definition recorded_digest :: "'o SignedTargets \<Rightarrow> Image \<Rightarrow> string \<Rightarrow> bool" where
  "recorded_digest st img d \<longleftrightarrow>
     (if Tag img \<noteq> [] then \<exists>h. map_of (st_Targets st) (Tag img) = Some h \<and> d = target_digest h
      else \<exists>name h. (name, h) \<in> set (st_Targets st) \<and> d = target_digest h)"

lemma search_role_recorded:
  assumes "search_role st img = Inr d"
  shows "recorded_digest st img d"
proof (cases "Tag img = []")
  case False
  then show ?thesis using assms
    by (cases "map_of (st_Targets st) (Tag img)")
      (auto simp: search_role_def searchTargetsForTag_def recorded_digest_def split: if_split_asm)
next
  case True
  then obtain n h where f: "find (\<lambda>(name, h). target_digest h = Digest img) (st_Targets st) = Some (n, h)"
    "d = target_digest h"
    using assms by (cases "find (\<lambda>(name, h). target_digest h = Digest img) (st_Targets st)")
      (auto simp: search_role_def searchTargetsForDigest_def)
  then have "(n, h) \<in> set (st_Targets st)" by (auto simp: find_Some_iff dest: sym)
  with True f(2) show ?thesis by (auto simp: recorded_digest_def)
qed

text \<open>The roles that are searched are either the requested delegations or the targets role.\<close>

definition chosen_roles :: "'o notary_ext \<Rightarrow> RuleOptions \<Rightarrow> 'o SignedTargets \<Rightarrow> 'o SignedMeta \<Rightarrow> 'o Repo \<Rightarrow> string list \<Rightarrow> bool" where
  "chosen_roles nx args targets0 s repo' targets \<longleftrightarrow>
     targets = [TargetsRole] \<and> (ro_Delegations args = [] \<and> st_Roles targets0 = [] \<or>
       st_Roles targets0 \<noteq> [] \<and> (\<exists>d \<in> set (requested args). map_of (sm_Meta s) d = None)) \<or>
     targets = requested args \<and> (\<forall>d \<in> set targets. d \<in> set (st_Roles targets0) \<and> delegation_valid nx repo' d)"

lemma HasDelegationHashes_Ret:
  "rp_Snapshot r = Some s \<Longrightarrow> HasDelegationHashes r ds = Ret (\<forall>d \<in> set ds. map_of (sm_Meta s) d \<noteq> None)"
  by (induction ds) auto

lemma HasDelegations_Ret: "target_of repo TargetsRole = Ret t \<Longrightarrow> HasDelegations repo = Ret (st_Roles t \<noteq> [])"
  by (simp add: HasDelegations_def)

text \<open>The branch of \<open>choose_targets\<close> with delegations.\<close>

lemma choose_targets_delegations:
  assumes "target_of repo TargetsRole = Ret targets0" and "st_Roles targets0 \<noteq> []"
  shows "choose_targets nx sd nv args nc repo =
    go_bind (DownloadAndValidateDelegations nx sd nc repo (requested args)) (\<lambda>result.
      let failed = Some (Inl (''error during download and validation of delegations for targets: '' @
                       fmt_slice (map (nx_Quote nx) (requested args))))
      in case result of
            None \<Rightarrow> Ret None
          | Some (repo, None) \<Rightarrow> Ret (Some (Inr (repo, requested args)))
          | Some (repo, Some err) \<Rightarrow>
              if Contains err ''error acquiring trust data''
              then go_bind (HasDelegationHashes repo (requested args)) (\<lambda>listed.
                     if \<not> listed then Ret (Some (Inr (repo, [TargetsRole]))) else Ret failed)
              else Ret failed)"
proof -
  have req: "(if length (ro_Delegations args) > 0 then Map (ro_Delegations args) toDelegationString
      else [toDelegationString ''releases'']) = requested args"
    by (simp add: requested_def toDelegationString_def)
  show ?thesis
    unfolding choose_targets_def HasDelegations_Ret[OF assms(1)] go_bind.simps req Let_def using assms(2) by simp
qed

lemma choose_targets_spec:
  assumes "honest sd" and "target_of repo TargetsRole = Ret targets0" and "rp_Snapshot repo = Some s"
  shows "(panics (choose_targets nx sd nv args nc repo) \<longrightarrow> (\<exists>d \<in> set (requested args). refreshed nx nc d)) \<and>
    (complete sd \<longrightarrow> choose_targets nx sd nv args nc repo \<noteq> Ret None) \<and>
    (\<forall>repo' targets. choose_targets nx sd nv args nc repo = Ret (Some (Inr (repo', targets))) \<longrightarrow>
       rp_Root repo' = rp_Root repo \<and> rp_Snapshot repo' = Some s \<and> target_of repo' TargetsRole = Ret targets0 \<and>
       chosen_roles nx args targets0 s repo' targets)"
proof (cases "st_Roles targets0 = []")
  case True
  then show ?thesis
    using assms by (auto simp: choose_targets_def HasDelegations_Ret[OF assms(2)] chosen_roles_def Suc_le_eq)
next
  case False
  note start = choose_targets_delegations[OF assms(2) False, of nx sd nv args nc]
  note spec = DownloadAndValidateDelegations_spec[OF assms TargetsRole_not_requested, of nx nc args]
  let ?down = "DownloadAndValidateDelegations nx sd nc repo (requested args)"
  show ?thesis
  proof (cases ?down)
    case (Panic p)
    then show ?thesis using spec start by simp
  next
    case (Ret x)
    show ?thesis
    proof (cases x)
      case None
      then show ?thesis using Ret spec start by simp
    next
      case (Some y)
      obtain r' e where y: "y = (r', e)" by (cases y)
      have k: "rp_Root r' = rp_Root repo" "rp_Snapshot r' = Some s" "target_of r' TargetsRole = Ret targets0"
        "e = None \<longrightarrow> (\<forall>d \<in> set (requested args). d \<in> set (st_Roles targets0) \<and> delegation_valid nx r' d)"
        using spec Ret Some y assms(3) by auto
      show ?thesis
      proof (cases e)
        case None
        then show ?thesis using Ret Some y k start by (simp add: chosen_roles_def)
      next
        case err: (Some m)
        then show ?thesis using Ret Some y k start False
          by (auto simp: HasDelegationHashes_Ret[OF k(2)] chosen_roles_def Let_def)
      qed
    qed
  qed
qed

lemma NotaryV1_ValidateImage_Inr:
  assumes "NotaryV1Validator_ValidateImage nx sd sd' nv img args = Ret (Some (Inr d))"
  obtains nc repo keys repo' targets where "DownloadBaseTrustData nx sd nc empty_Repo = Ret (Some (repo, None))"
    and "trustRootKeys nx nv (ro_TrustRoot args) = Inr keys" and "ValidateBaseTrustData nx repo keys = Ret None"
    and "choose_targets nx sd' nv args nc repo = Ret (Some (Inr (repo', targets)))"
    and "role_digests repo' img targets [] = Ret (Inr [d])"
proof -
  note V = assms[unfolded NotaryV1Validator_ValidateImage_def]
  obtain client where client: "NewNotaryClient nx (nv_Host nv) (nv_Cert nv) (nv_Auth nv) img = Ret client"
    using V by (cases "NewNotaryClient nx (nv_Host nv) (nv_Cert nv) (nv_Auth nv) img") simp_all
  obtain nc where nc: "client = Inr nc" using V client by (cases client) simp_all
  note V = V[unfolded client nc go_bind.simps sum.case]
  obtain x where x: "DownloadBaseTrustData nx sd nc empty_Repo = Ret x"
    using V by (cases "DownloadBaseTrustData nx sd nc empty_Repo") simp_all
  obtain repo err where down: "x = Some (repo, err)" using V x by (cases x) auto
  have err: "err = None" using V x down by (cases err) simp_all
  note V = V[unfolded x down err go_bind.simps option.case prod.case]
  note down = x[unfolded down]
  obtain keys where keys: "trustRootKeys nx nv (ro_TrustRoot args) = Inr keys"
    using V by (cases "trustRootKeys nx nv (ro_TrustRoot args)") simp_all
  note V = V[unfolded keys sum.case]
  obtain e where e: "ValidateBaseTrustData nx repo keys = Ret e"
    using V by (cases "ValidateBaseTrustData nx repo keys") simp_all
  have e': "e = None" using V e by (cases e) simp_all
  note V = V[unfolded e e' go_bind.simps option.case]
  obtain chosen where ch: "choose_targets nx sd' nv args nc repo = Ret chosen"
    using V by (cases "choose_targets nx sd' nv args nc repo") simp_all
  obtain x where x: "chosen = Some x" using V ch by (cases chosen) simp_all
  obtain y where y: "x = Inr y" using V ch x by (cases x) simp_all
  obtain repo' targets where y': "y = (repo', targets)" by (cases y)
  note V = V[unfolded ch x y y' go_bind.simps option.case sum.case prod.case]
  obtain r where r: "role_digests repo' img targets [] = Ret r"
    using V by (cases "role_digests repo' img targets []") simp_all
  obtain ds where ds: "r = Inr ds" using V r by (cases r) simp_all
  have "ds = [d]" using V r ds by (cases ds rule: remdups_adj.cases) simp_all
  then show ?thesis using that down err keys e e' ch x y y' r ds by blast
qed

lemma NotaryV1_ValidateImage_digests:
  assumes "role_digests repo' img targets [] = Ret (Inr [d])"
  shows "targets \<noteq> []" and "\<forall>t \<in> set targets. \<exists>st. target_of repo' t = Ret st \<and> search_role st img = Inr d"
  using role_digests_Inr[OF assms] by auto

text \<open>The targets and the snapshot of a completely downloaded repository.\<close>

lemma downloaded:
  assumes "honest sd" and "DownloadBaseTrustData nx sd nc empty_Repo = Ret (Some (repo, None))"
  obtains targets0 s where "target_of repo TargetsRole = Ret targets0" and "rp_Snapshot repo = Some s"
  using DownloadBaseTrustData_has[OF assms] unfolding ball_BaseRoles by (auto simp: target_of_iff)

text \<open>The client panics where a protected server has a host that is no registry name.\<close>

lemma NewNotaryClient_panics:
  "panics (NewNotaryClient nx host cert a img) \<longleftrightarrow>
     nx_NewRequest nx (host @ ''/v2/'') = None \<and>
     (\<exists>t resp ch. baseTransport nx cert = Inr t \<and> nx_Ping nx t (host @ ''/v2/'') = Inr (401, resp) \<and>
        nx_AddResponse nx resp = Inr ch) \<and>
     (\<exists>err. NewRegistryRepo (nx_newRegistry nx) (nx_newRepository nx) host = Inl err)"
  by (cases "NewRegistryRepo (nx_newRegistry nx) (nx_newRepository nx) host")
    (auto simp: NewNotaryClient_def buildAuthTransport_def deref_def Let_def split: option.split sum.split)

text \<open>With a client, the validation panics only for a fetch that is handed a refresh token.\<close>

lemma NotaryV1_ValidateImage_returns:
  assumes "honest sd" and "honest sd'" and "NewNotaryClient nx (nv_Host nv) (nv_Cert nv) (nv_Auth nv) img = Ret client"
  shows "(panics (NotaryV1Validator_ValidateImage nx sd sd' nv img args) \<longrightarrow>
      (\<exists>nc. client = Inr nc \<and> (\<exists>role \<in> set (BaseRoles @ requested args). refreshed nx nc role))) \<and>
    (complete sd \<and> complete sd' \<longrightarrow> NotaryV1Validator_ValidateImage nx sd sd' nv img args \<noteq> Ret None)"
proof (cases client)
  case (Inl e)
  then show ?thesis by (simp add: NotaryV1Validator_ValidateImage_def assms(3))
next
  case nc: (Inr nc)
  note V = NotaryV1Validator_ValidateImage_def assms(3) nc
  let ?base = "DownloadBaseTrustData nx sd nc empty_Repo"
  consider p where "?base = Panic p" | "?base = Ret None" | repo e where "?base = Ret (Some (repo, Some e))"
    | repo where "?base = Ret (Some (repo, None))"
    by (metis go.exhaust option.exhaust prod.exhaust)
  then show ?thesis
  proof cases
    case 1
    then have "panics ?base" by simp
    from DownloadBaseTrustData_panics[OF assms(1) this] 1 show ?thesis by (auto simp: V)
  next
    case 2
    then have "\<not> complete sd" using DownloadBaseTrustData_returns by blast
    then show ?thesis using 2 by (simp add: V)
  next
    case 3
    then show ?thesis by (simp add: V)
  next
    case 4
    show ?thesis
    proof (cases "trustRootKeys nx nv (ro_TrustRoot args)")
      case (Inl e)
      then show ?thesis using 4 by (simp add: V)
    next
      case (Inr keys)
      obtain e where e: "ValidateBaseTrustData nx repo keys = Ret e"
        using ValidateBaseTrustData_returns[OF DownloadBaseTrustData_has[OF assms(1) 4]] by blast
      show ?thesis
      proof (cases e)
        case (Some m)
        then show ?thesis using 4 Inr e by (simp add: V)
      next
        case None
        let ?choose = "choose_targets nx sd' nv args nc repo"
        let ?rest = "\<lambda>y. go_bind (role_digests (fst y) img (snd y) []) (\<lambda>r. Ret (Some
          (case r of Inl e \<Rightarrow> Inl e | Inr [d] \<Rightarrow> Inr d
           | Inr digests \<Rightarrow> Inl (''validator '' @ nv_Name nv @ '' found '' @ decimal (length digests) @
               '' digests for image '' @ Identifier img @ '', expected 1''))))"
        have run: "NotaryV1Validator_ValidateImage nx sd sd' nv img args = go_bind ?choose (\<lambda>x.
          case x of None \<Rightarrow> Ret None | Some (Inl e) \<Rightarrow> Ret (Some (Inl e)) | Some (Inr y) \<Rightarrow> ?rest y)"
          using 4 Inr e None by (simp add: V case_prod_beta cong: option.case_cong sum.case_cong)
        obtain targets0 s where t: "target_of repo TargetsRole = Ret targets0" "rp_Snapshot repo = Some s"
          using downloaded[OF assms(1) 4] .
        note spec = choose_targets_spec[OF assms(2) t, of nx nv args nc]
        show ?thesis
        proof (cases ?choose)
          case (Panic p)
          then show ?thesis using spec run nc by auto
        next
          case x: (Ret x)
          show ?thesis
          proof (cases x)
            case None
            then show ?thesis using spec run x by simp
          next
            case z: (Some z)
            show ?thesis
            proof (cases z)
              case (Inl m)
              then show ?thesis using run x z by simp
            next
              case y: (Inr y)
              have "?choose = Ret (Some (Inr (fst y, snd y)))" using x z y by simp
              then have "chosen_roles nx args targets0 s (fst y) (snd y)" "target_of (fst y) TargetsRole = Ret targets0"
                using spec by blast+
              then have "\<forall>t \<in> set (snd y). \<exists>st. target_of (fst y) t = Ret st"
                by (auto simp: chosen_roles_def delegation_valid_def)
              from role_digests_returns[OF this, of img "[]"] run x z y show ?thesis by auto
            qed
          qed
        qed
      qed
    qed
  qed
qed

text \<open>The host and the credentials of a configured validator.\<close>

lemma notary_host_scheme: "notary_host nx h = Inr host \<Longrightarrow> HasPrefixes (ToLower host) [''http://'', ''https://'']"
proof -
  have "ToLower (''https://'' @ t) = ''https://'' @ ToLower t" for t by (simp add: ToLower_def) code_simp
  then show "notary_host nx h = Inr host \<Longrightarrow> ?thesis"
    by (auto simp: notary_host_def HasPrefixes_iff Let_def split: if_split_asm option.split_asm)
qed

lemma rekey_auth_entries: "rekey_auth nx host a = Inr a' \<Longrightarrow> snd ` set (AuthConfigs a') = snd ` set (AuthConfigs a)"
proof -
  assume r: "rekey_auth nx host a = Inr a'"
  show "snd ` set (AuthConfigs a') = snd ` set (AuthConfigs a)"
  proof (cases "length (AuthConfigs a) = 1 \<and> map_of (AuthConfigs a) EmptyAuthRegistry \<noteq> None")
    case True
    then obtain v where "AuthConfigs a = [(EmptyAuthRegistry, v)]"
      by (cases "AuthConfigs a") (auto split: if_split_asm)
    with r show ?thesis by (auto simp: rekey_auth_def split: sum.split_asm)
  next
    case False
    with r show ?thesis by (auto simp: rekey_auth_def split: if_split_asm)
  qed
qed

text \<open>
  The contract of the interface: no call changes the image; and a run without a cancellation, for a host
  that is a registry name and with a token server that hands out no refresh token, returns.
\<close>

interpretation notary_image: keeps_image "notaryv1_method nx sd sd' nv"
  by unfold_locales (auto simp: notaryv1_method_def split: option.split_asm)

locale notaryv1_run =
  fixes nx :: "'o notary_ext" and sd sd' :: schedule and nv :: NotaryV1Validator and host :: RegistryRepo
  assumes delivered: "complete sd" and delivered': "complete sd'"
    and host: "NewRegistryRepo (nx_newRegistry nx) (nx_newRepository nx) (nv_Host nv) = Inr host"
    and no_refresh: "\<not> nx_Refreshes nx t url"
begin

lemma returns: "\<exists>r. NotaryV1Validator_ValidateImage nx sd sd' nv img args = Ret (Some r)"
proof -
  have "\<not> panics (NewNotaryClient nx (nv_Host nv) (nv_Cert nv) (nv_Auth nv) img)"
    by (simp add: NewNotaryClient_panics host)
  then obtain client where "NewNotaryClient nx (nv_Host nv) (nv_Cert nv) (nv_Auth nv) img = Ret client"
    by (auto simp: panics_iff)
  from NotaryV1_ValidateImage_returns[OF complete_honest[OF delivered] complete_honest[OF delivered'] this, of args]
  have "\<not> panics (NotaryV1Validator_ValidateImage nx sd sd' nv img args)"
    and "NotaryV1Validator_ValidateImage nx sd sd' nv img args \<noteq> Ret None"
    using delivered delivered' no_refresh by (auto simp: refreshed_def)
  then show ?thesis by (cases "NotaryV1Validator_ValidateImage nx sd sd' nv img args") auto
qed

end

sublocale notaryv1_run \<subseteq> iface: validator_method "notaryv1_method nx sd sd' nv"
proof
  show "\<exists>img' r. notaryv1_method nx sd sd' nv img opts = Ret (img', r)" for img opts
    using returns[of img opts] by (auto simp: notaryv1_method_def)
qed

section \<open>An example\<close>

text \<open>
  A server with one tag. It has the files of the base roles; the targets role may name delegations,
  whose files are missing, and which the snapshot does not list.
\<close>

definition example_nx :: "string list \<Rightarrow> string notary_ext" where
  "example_nx roles = \<lparr>nx_newRegistry = \<lambda>s. None, nx_newRepository = \<lambda>s. None, nx_ParseRequestURI = \<lambda>s. None,
     nx_NewRequest = \<lambda>s. None, nx_CertsFromPEM = Some, nx_Transport = \<lambda>c. ''transport'',
     nx_Ping = \<lambda>t url. Inr (200, ''pong''), nx_AddResponse = Inr, nx_AuthTransport = \<lambda>t a token repo ch. t,
     nx_PlainTransport = id, nx_Refreshes = \<lambda>t url. False,
     nx_Do = \<lambda>c url. Inr (if HasSuffix url ''/alice.json''
       then \<lparr>hr_StatusCode = 404, hr_Status = ''404 Not Found'', hr_Body = Inr []\<rparr>
       else \<lparr>hr_StatusCode = 200, hr_Status = ''200 OK'', hr_Body = Inr ''data''\<rparr>),
     nx_Unmarshal_Signed = Inr,
     nx_RootFromSigned = \<lambda>d. Inr \<lparr>sr_obj = ''root'', sr_Signatures = [''sig'']\<rparr>,
     nx_TargetsFromSigned = \<lambda>d role. Inr \<lparr>st_obj = role, st_Roles = roles,
       st_Targets = [(''latest'', [(''sha256'', [CHR 0xAB])])]\<rparr>,
     nx_SnapshotFromSigned = \<lambda>d. Inr \<lparr>sm_obj = ''snapshot'', sm_Meta = []\<rparr>,
     nx_TimestampFromSigned = \<lambda>d. Inr \<lparr>sm_obj = ''timestamp'', sm_Meta = []\<rparr>,
     nx_ToSigned = Inr, nx_Unmarshal_map = Inr, nx_MarshalCanonical = Inr,
     nx_VerifySignature = \<lambda>msg sig key. (None, True), nx_KeyID = id, nx_BuildBaseRole = \<lambda>root role. Inr role,
     nx_BuildDelegationRole = \<lambda>t d. Inr d, nx_VerifySignatures = \<lambda>s r. None, nx_VerifyExpiry = \<lambda>s r. None,
     nx_CheckHashes = \<lambda>p r h. None, nx_PemDecode = \<lambda>s. Some (s, []), nx_ParsePKIXPublicKey = Inr,
     nx_NewPublicKey = \<lambda>a b. b, nx_Quote = id\<rparr>"

definition example_nv :: NotaryV1Validator where
  "example_nv = \<lparr>nv_Name = ''default'', nv_Type = ''notaryv1'', nv_Host = ''https://notary'', nv_Cert = [],
     nv_Auth = \<lparr>AuthConfigs = [], UseKeychain = False\<rparr>,
     nv_TrustRoots = [\<lparr>tr_Name = ''default'', tr_Key = ''key'', tr_Cert = [], tr_TSCert = [],
       tr_Keyless = \<lparr>kl_Issuer = [], kl_Subject = [], kl_IssuerRegex = [], kl_SubjectRegex = []\<rparr>\<rparr>]\<rparr>"

definition nv_image :: "string \<Rightarrow> string \<Rightarrow> Image" where
  "nv_image tag digest = \<lparr>original = ''img'', img_ref = \<lparr>ref_Context = \<lparr>repo_Name = ''reg/img'', repo_RegistryStr = ''reg''\<rparr>,
     ref_Identifier = ''latest'', ref_Scope = id\<rparr>, img_tag = tag, img_digest = digest\<rparr>"

definition delegations :: "string list \<Rightarrow> RuleOptions" where
  "delegations ds = zero_RuleOptions\<lparr>ro_Delegations := ds\<rparr>"

lemma example_accepts:
  "NotaryV1Validator_ValidateImage (example_nx []) in_order in_order example_nv (nv_image ''latest'' []) (delegations []) =
     Ret (Some (Inr ''sha256:ab''))"
  by code_simp

lemma example_host: "NewRegistryRepo (nx_newRegistry (example_nx [])) (nx_newRepository (example_nx [])) (nv_Host example_nv) =
    Inr \<lparr>rr_original = ''https://notary'', rr_registry = ''notary'', rr_repo = []\<rparr>"
  by code_simp

interpretation example_notary: notaryv1_run "example_nx []" in_order in_order example_nv
  "\<lparr>rr_original = ''https://notary'', rr_registry = ''notary'', rr_repo = []\<rparr>"
  by unfold_locales (simp, rule example_host, simp add: example_nx_def)

section \<open>Properties\<close>

text \<open>
  C5 (safety). No digest without valid trust data: whatever the order of the goroutines and the moment of a cancellation, if the
  validation returns the digest \<open>d\<close>, then the downloaded root is signed by every root key of the
  rule and not expired, the targets, snapshot and timestamp are signed by the roles that this root
  defines and not expired, and root, targets and snapshot have the checksums that snapshot and
  timestamp record. The digest is recorded for the image by each of the roles that are searched:
  either the requested delegations, each defined by the targets role, signed by its keys, not expired and with the
  checksum of the snapshot; or the targets role itself, where there are no delegations or the
  snapshot does not list all requested ones.
\<close>
theorem NotaryV1_sound:
  assumes "honest sd" and "honest sd'"
    and "NotaryV1Validator_ValidateImage nx sd sd' nv img args = Ret (Some (Inr d))"
  shows "\<exists>keys repo repo' targets0 s targets.
    trustRootKeys nx nv (ro_TrustRoot args) = Inr keys \<and> base_valid nx repo keys \<and>
    rp_Root repo' = rp_Root repo \<and> rp_Snapshot repo = Some s \<and> rp_Snapshot repo' = Some s \<and>
    target_of repo TargetsRole = Ret targets0 \<and> target_of repo' TargetsRole = Ret targets0 \<and>
    targets \<noteq> [] \<and>
    (\<forall>t \<in> set targets. \<exists>st. target_of repo' t = Ret st \<and> recorded_digest st img d) \<and>
    (targets = requested args \<and>
       (\<forall>t \<in> set targets. t \<in> set (st_Roles targets0) \<and> delegation_valid nx repo' t) \<or>
     targets = [TargetsRole] \<and> (ro_Delegations args = [] \<and> st_Roles targets0 = [] \<or>
       st_Roles targets0 \<noteq> [] \<and> (\<exists>t \<in> set (requested args). map_of (sm_Meta s) t = None)))"
proof -
  obtain nc repo keys repo' targets where v: "DownloadBaseTrustData nx sd nc empty_Repo = Ret (Some (repo, None))"
    "trustRootKeys nx nv (ro_TrustRoot args) = Inr keys" "ValidateBaseTrustData nx repo keys = Ret None"
    "choose_targets nx sd' nv args nc repo = Ret (Some (Inr (repo', targets)))"
    "role_digests repo' img targets [] = Ret (Inr [d])"
    using assms(3) by (rule NotaryV1_ValidateImage_Inr)
  obtain targets0 s where t: "target_of repo TargetsRole = Ret targets0" "rp_Snapshot repo = Some s"
    using downloaded[OF assms(1) v(1)] .
  have ch: "rp_Root repo' = rp_Root repo \<and> rp_Snapshot repo' = Some s \<and> target_of repo' TargetsRole = Ret targets0"
    "chosen_roles nx args targets0 s repo' targets"
    using choose_targets_spec[OF assms(2) t, of nx nv args nc] v(4) by blast+
  have "\<forall>t \<in> set targets. \<exists>st. target_of repo' t = Ret st \<and> recorded_digest st img d"
    using NotaryV1_ValidateImage_digests(2)[OF v(5)] search_role_recorded by blast
  with ch(1) ch(2)[unfolded chosen_roles_def] t v(2) v(3)[unfolded ValidateBaseTrustData_None] NotaryV1_ValidateImage_digests(1)[OF v(5)]
  show ?thesis
    by (intro exI[of _ keys] exI[of _ repo] exI[of _ repo'] exI[of _ targets0] exI[of _ s] exI[of _ targets]) blast
qed

theorem NotaryV1_sound_witness:
  "\<exists>keys repo. trustRootKeys (example_nx []) example_nv [] = Inr keys \<and> base_valid (example_nx []) repo keys"
proof -
  have "ro_TrustRoot (delegations []) = []" by (simp add: delegations_def zero_RuleOptions_def)
  with NotaryV1_sound[OF in_order_complete(2) in_order_complete(2) example_accepts] show ?thesis by metis
qed

text \<open>
  C28 (safety). A given digest is pinned: if the image already has a digest, the validation returns this digest or
  an error, also when the trust data records another digest for its tag.
\<close>
theorem NotaryV1_pinned:
  assumes "NotaryV1Validator_ValidateImage nx sd sd' nv img args = Ret (Some (Inr d))"
    and "Digest img \<noteq> []"
  shows "d = Digest img"
proof -
  obtain nc repo keys repo' targets where "DownloadBaseTrustData nx sd nc empty_Repo = Ret (Some (repo, None))"
    and "trustRootKeys nx nv (ro_TrustRoot args) = Inr keys" and "ValidateBaseTrustData nx repo keys = Ret None"
    and "choose_targets nx sd' nv args nc repo = Ret (Some (Inr (repo', targets)))"
    and r: "role_digests repo' img targets [] = Ret (Inr [d])"
    using assms(1) by (rule NotaryV1_ValidateImage_Inr)
  from NotaryV1_ValidateImage_digests[OF r] obtain t st where "target_of repo' t = Ret st" "search_role st img = Inr d"
    by (cases targets) auto
  from search_role_pinned[OF this(2) assms(2)] show ?thesis .
qed

lemma example_pinned:
  "NotaryV1Validator_ValidateImage (example_nx []) in_order in_order example_nv
     (nv_image ''latest'' ''sha256:ab'') (delegations []) = Ret (Some (Inr ''sha256:ab''))"
  by code_simp

theorem NotaryV1_pinned_witness: "Digest (nv_image ''latest'' ''sha256:ab'') = ''sha256:ab''"
  using NotaryV1_pinned[OF example_pinned] by (simp add: nv_image_def Digest_def)

text \<open>
  C31 (safety). Required delegations can be evaded by a server that withholds a file: let the base trust data be
  downloaded and valid, let the targets role name all requested delegations, and let the server answer the
  requests for some of their files with another status than 200 (and deliver the others). Then, without a
  cancellation, the validation fails only if the snapshot lists all of them; as soon as it does not list one of
  them, the result is that of the targets role alone.
\<close>
theorem NotaryV1_delegations_fallback:
  assumes "NewNotaryClient nx (nv_Host nv) (nv_Cert nv) (nv_Auth nv) img = Ret (Inr nc)"
    and "DownloadBaseTrustData nx sd nc empty_Repo = Ret (Some (repo, None))"
    and "trustRootKeys nx nv (ro_TrustRoot args) = Inr keys" and "ValidateBaseTrustData nx repo keys = Ret None"
    and "target_of repo TargetsRole = Ret targets0" and "rp_Snapshot repo = Some s"
    and "set (requested args) \<subseteq> set (st_Roles targets0)"
    and "\<exists>d \<in> set (requested args). withheld nx nc d"
    and "\<forall>d \<in> set (requested args). withheld nx nc d \<or> delegation_served nx nc d"
    and "complete sd'"
  shows "NotaryV1Validator_ValidateImage nx sd sd' nv img args = Ret (Some
    (if \<forall>d \<in> set (requested args). map_of (sm_Meta s) d \<noteq> None
     then Inl (''error during download and validation of delegations for targets: '' @
               fmt_slice (map (nx_Quote nx) (requested args)))
     else search_role targets0 img))"
proof -
  have roles: "st_Roles targets0 \<noteq> []" using assms(7,8) by auto
  obtain repo' err where down: "DownloadAndValidateDelegations nx sd' nc repo (requested args) = Ret (Some (repo', Some err))"
    "Contains err ''error acquiring trust data''"
    using DownloadAndValidateDelegations_withheld[OF assms(10,5,7,9,8)] by blast
  have keep: "rp_Snapshot repo' = Some s" "target_of repo' TargetsRole = Ret targets0"
    using DownloadAndValidateDelegations_spec[OF complete_honest[OF assms(10)] assms(5,6) TargetsRole_not_requested, of nx nc args]
      down(1) assms(6) by auto
  let ?listed = "\<forall>d \<in> set (requested args). map_of (sm_Meta s) d \<noteq> None"
  let ?failed = "Inl (''error during download and validation of delegations for targets: '' @
                 fmt_slice (map (nx_Quote nx) (requested args)))"
  have choose: "choose_targets nx sd' nv args nc repo = Ret (Some (if ?listed then ?failed else Inr (repo', [TargetsRole])))"
    unfolding choose_targets_delegations[OF assms(5) roles] down(1)
    by (simp add: down(2) HasDelegationHashes_Ret[OF keep(1)] Let_def)
  note run = NotaryV1Validator_ValidateImage_def assms(1-4) choose
  show ?thesis
  proof (cases ?listed)
    case True
    then show ?thesis by (simp only: run if_P go_bind.simps option.case prod.case sum.case)
  next
    case False
    have "role_digests repo' img [TargetsRole] [] = Ret (map_sum id (\<lambda>d. [d]) (search_role targets0 img))"
      unfolding role_digests.simps keep(2) by (cases "search_role targets0 img") simp_all
    then show ?thesis using False
      by (cases "search_role targets0 img")
        (simp_all only: run if_not_P if_False go_bind.simps option.case prod.case sum.case map_sum.simps list.case id_apply)
  qed
qed

lemma example_client:
  "NewNotaryClient (example_nx roles) (nv_Host example_nv) (nv_Cert example_nv) (nv_Auth example_nv) (nv_image ''latest'' []) =
     Ret (Inr \<lparr>nc_client = \<lparr>tp_obj = ''transport'', tp_creds = None\<rparr>, nc_host = ''https://notary'', nc_repo = ''reg/img''\<rparr>)"
  by (simp add: NewNotaryClient_def example_nx_def example_nv_def baseTransport_def tlsConfig_def nv_image_def
      NotaryReference_def Context_def)

abbreviation example_nc :: "string NotaryClient" where
  "example_nc \<equiv> \<lparr>nc_client = \<lparr>tp_obj = ''transport'', tp_creds = None\<rparr>, nc_host = ''https://notary'', nc_repo = ''reg/img''\<rparr>"

definition fallback_targets :: "string SignedTargets" where
  "fallback_targets = \<lparr>st_obj = TargetsRole, st_Roles = [''targets/alice''],
     st_Targets = [(''latest'', [(''sha256'', [CHR 0xAB])])]\<rparr>"

definition fallback_repo :: "string Repo" where
  "fallback_repo = \<lparr>rp_Root = Some \<lparr>sr_obj = ''root'', sr_Signatures = [''sig'']\<rparr>,
     rp_Targets = [(TargetsRole, Some fallback_targets)],
     rp_Snapshot = Some \<lparr>sm_obj = ''snapshot'', sm_Meta = []\<rparr>, rp_Timestamp = Some \<lparr>sm_obj = ''timestamp'', sm_Meta = []\<rparr>,
     rp_notCheckedChecksums = map (\<lambda>role. (role, ''data'')) BaseRoles\<rparr>"

lemma example_fallback_run:
  "DownloadBaseTrustData (example_nx [''targets/alice'']) in_order example_nc empty_Repo = Ret (Some (fallback_repo, None))"
  "trustRootKeys (example_nx [''targets/alice'']) example_nv (ro_TrustRoot (delegations [''alice''])) = Inr [''key'']"
  "ValidateBaseTrustData (example_nx [''targets/alice'']) fallback_repo [''key''] = Ret None"
  "target_of fallback_repo TargetsRole = Ret fallback_targets"
  by code_simp+

theorem NotaryV1_delegations_fallback_witness:
  "NotaryV1Validator_ValidateImage (example_nx [''targets/alice'']) in_order in_order example_nv (nv_image ''latest'' [])
     (delegations [''alice'']) = Ret (Some (Inr ''sha256:ab''))"
proof -
  let ?nx = "example_nx [''targets/alice'']"
  have req: "requested (delegations [''alice'']) = [''targets/alice'']" by code_simp
  have w: "withheld ?nx example_nc ''targets/alice''"
    by (simp add: withheld_def client_Do_def example_nx_def trust_url_def HasSuffix_def)
  have snap: "rp_Snapshot fallback_repo = Some \<lparr>sm_obj = ''snapshot'', sm_Meta = []\<rparr>" by (simp add: fallback_repo_def)
  have roles: "set (requested (delegations [''alice''])) \<subseteq> set (st_Roles fallback_targets)"
    by (simp add: req fallback_targets_def)
  have found: "search_role fallback_targets (nv_image ''latest'' []) = Inr ''sha256:ab''" by code_simp
  from NotaryV1_delegations_fallback[OF example_client example_fallback_run snap roles _ _ in_order_complete(1)] w
  show ?thesis by (simp add: req found)
qed



text \<open>
  C33 (liveness). When the download of the base roles waits forever, from a server that delivers and
  with a client: exactly if the context is cancelled when fewer than the four goroutines have reached
  their deferred function and the receive loop looks at the context only for a later receive than the number of the
  trust data sent. A goroutine that sees the cancellation sends nothing, and the loop, which waits for its next
  trust data, does not look at the context any more; the validation does not return then, whatever the
  rule and the rest of the schedule.
\<close>
theorem NotaryV1_blocks:
  assumes "honest sd" and "NewNotaryClient nx (nv_Host nv) (nv_Cert nv) (nv_Auth nv) img = Ret (Inr nc)"
    and "\<forall>role \<in> set BaseRoles. served nx nc role"
  shows "(DownloadBaseTrustData nx sd nc empty_Repo = Ret None \<longleftrightarrow>
      (\<exists>c k. sd_cancel sd = Some (c, k) \<and> c < k \<and> c < 4)) \<and>
    (\<forall>c k sd' args. sd_cancel sd = Some (c, k) \<and> c < k \<and> c < 4 \<longrightarrow>
      NotaryV1Validator_ValidateImage nx sd sd' nv img args = Ret None)"
proof -
  have iff: "DownloadBaseTrustData nx sd nc empty_Repo = Ret None \<longleftrightarrow>
      (\<exists>c k. sd_cancel sd = Some (c, k) \<and> c < k \<and> c < 4)"
    unfolding DownloadBaseTrustData_blocks[OF assms(1,3)] length_BaseRoles ..
  then have "NotaryV1Validator_ValidateImage nx sd sd' nv img args = Ret None"
    if "sd_cancel sd = Some (c, k) \<and> c < k \<and> c < 4" for c k sd' args
    using that assms(2) by (simp add: NotaryV1Validator_ValidateImage_def)
  with iff show ?thesis by blast
qed

lemma example_served: "role \<in> set BaseRoles \<Longrightarrow> served (example_nx []) example_nc role"
  by (auto simp: served_def good_def FetchTrustData_def fetch_body_def client_Do_def example_nx_def trust_url_def
      HasSuffix_def store_base_def from_res_def BaseRoles_def)

theorem NotaryV1_blocks_witness:
  "NotaryV1Validator_ValidateImage (example_nx []) \<lparr>sd_order = id, sd_cancel = Some (2, 3)\<rparr> in_order example_nv
     (nv_image ''latest'' []) zero_RuleOptions = Ret None"
proof -
  have "honest \<lparr>sd_order = id, sd_cancel = Some (2, 3)\<rparr>" by (simp add: honest_def)
  from NotaryV1_blocks[OF this example_client] example_served show ?thesis by (simp add: Ball_def)
qed

text \<open>
  A configured validator has trust roots and an http or https host, and its keys for the registry
  are those of the configuration: none is lost, a single one without registry is moved to the host.
\<close>
theorem NotaryV1_configured:
  assumes "NotaryV1Validator_UnmarshalYAML nx unmarshalled = Inr nv"
  shows "\<exists>y. unmarshalled = Inr y \<and> nv_TrustRoots nv = nv_TrustRoots y \<and> nv_TrustRoots nv \<noteq> [] \<and>
    HasPrefixes (ToLower (nv_Host nv)) [''http://'', ''https://''] \<and>
    (nv_Cert nv \<noteq> [] \<longrightarrow> (\<exists>c. tlsConfig nx (nv_Cert nv) = Inr (Some c))) \<and>
    snd ` set (AuthConfigs (nv_Auth nv)) = snd ` set (AuthConfigs (nv_Auth y))"
proof -
  obtain y where y: "unmarshalled = Inr y"
    using assms by (cases unmarshalled) (simp_all add: NotaryV1Validator_UnmarshalYAML_def)
  note U = assms[unfolded NotaryV1Validator_UnmarshalYAML_def y sum.case]
  obtain host where host: "notary_host nx (nv_Host y) = Inr host"
    using U by (cases "notary_host nx (nv_Host y)") (simp_all split: if_split_asm)
  obtain a where a: "rekey_auth nx host (nv_Auth y) = Inr a"
    using U host by (cases "rekey_auth nx host (nv_Auth y)") (simp_all split: if_split_asm)
  have nv: "nv = y\<lparr>nv_Host := host, nv_Auth := a\<rparr>" "nv_TrustRoots y \<noteq> []"
    "nv_Cert y = [] \<or> nx_CertsFromPEM nx (nv_Cert y) \<noteq> None"
    using U host a by (auto split: if_split_asm)
  with notary_host_scheme[OF host] rekey_auth_entries[OF a] show ?thesis
    by (auto simp: y tlsConfig_def simp del: HasPrefixes.simps)
qed

theorem NotaryV1_configured_witness: "nv_TrustRoots example_nv \<noteq> []"
proof -
  have "NotaryV1Validator_UnmarshalYAML (example_nx []) (Inr example_nv) = Inr example_nv" by code_simp
  from NotaryV1_configured[OF this] show ?thesis by blast
qed

end
