(* ===== verification/Loaded_Validators.thy ===== *)
theory Loaded_Validators
  imports Admission_Run Cosign Notation NotaryV1
begin

text \<open>
  The validators of a configuration: \<open>unmarshal(specific)\<close> of \<open>internal/validator/validator.go\<close>, with
  the decoders and methods of the four packages of specific validators. The lemmas show that loaded
  validators fulfil the contract that the validation handler relies on, and what it means
  that one of them accepts an image.
\<close>

section \<open>Definitions\<close>

text \<open>
  The libraries of the validators and, for each call of a validator, what surrounds it: the schedules of its goroutines
  and the state in which earlier validations left the global HTTP client.
\<close>

record ('o, 'n, 't) libraries =
  lib_cosign :: "'o cosign_ext"
  lib_notary :: "'n notary_ext"
  lib_notation :: "'t notation_ext"
  sched_cosign :: "Image \<Rightarrow> RuleOptions \<Rightarrow> 'o verifierOutput list \<Rightarrow> 'o verifierOutput list"
  sched_base :: "Image \<Rightarrow> RuleOptions \<Rightarrow> schedule"
  sched_delegations :: "Image \<Rightarrow> RuleOptions \<Rightarrow> schedule"
  lib_client :: "Image \<Rightarrow> RuleOptions \<Rightarrow> 't oras_client"

text \<open>What the decoding of the YAML node yields for each of the structs it may be decoded into.\<close>

record specific_yaml =
  yaml_static :: "StaticValidator res"
  yaml_cosign :: "CosignValidatorYaml res"
  yaml_notaryv1 :: "NotaryV1Validator res"
  yaml_notation :: "NotationValidatorYaml res"

definition load_specific :: "('o, 'n, 't) libraries \<Rightarrow> specific_yaml \<Rightarrow> string \<Rightarrow> validate res go" where
  "load_specific lib y type = Ret
     (if type = StaticValidatorType then map_sum id StaticValidator_ValidateImage (yaml_static y)
      else if type = CosignValidatorType then
        map_sum id (\<lambda>cv img args. cosign_method (lib_cosign lib) (sched_cosign lib img args) cv img args)
          (CosignValidator_UnmarshalYAML (lib_cosign lib) (yaml_cosign y))
      else if type = NotaryV1ValidatorType then
        map_sum id (\<lambda>nv img args. notaryv1_method (lib_notary lib) (sched_base lib img args)
            (sched_delegations lib img args) nv img args)
          (NotaryV1Validator_UnmarshalYAML (lib_notary lib) (yaml_notaryv1 y))
      else
        map_sum id (\<lambda>nv img args. notation_method (lib_notation lib) nv (lib_client lib img args) img args)
          (NotationValidator_UnmarshalYAML (lib_notation lib) (yaml_notation y)))"

section \<open>Specification\<close>

text \<open>
  What is assumed of the scheduler in all runs: the goroutines of a validation run in some order, each once. The context of
  a Notary validation may be cancelled at any moment.
\<close>

definition orderly :: "('o, 'n, 't) libraries \<Rightarrow> bool" where
  "orderly lib \<longleftrightarrow> (\<forall>img args. fair (sched_cosign lib img args) \<and> honest (sched_base lib img args) \<and>
     honest (sched_delegations lib img args))"

text \<open>
  What a Notary v1 validator needs in addition to return at all: the contexts of its fetches are not cancelled, the
  registry hands out no refresh token, and its host is a registry name.
\<close>

definition delivering :: "('o, 'n, 't) libraries \<Rightarrow> bool" where
  "delivering lib \<longleftrightarrow> orderly lib \<and>
     (\<forall>img args. sd_cancel (sched_base lib img args) = None \<and> sd_cancel (sched_delegations lib img args) = None) \<and>
     (\<forall>t url. \<not> nx_Refreshes (lib_notary lib) t url)"

definition host_ok :: "('o, 'n, 't) libraries \<Rightarrow> specific_yaml \<Rightarrow> bool" where
  "host_ok lib y \<longleftrightarrow>
     (\<forall>nv. NotaryV1Validator_UnmarshalYAML (lib_notary lib) (yaml_notaryv1 y) = Inr nv \<longrightarrow>
        (\<exists>host. NewRegistryRepo (nx_newRegistry (lib_notary lib)) (nx_newRepository (lib_notary lib)) (nv_Host nv) =
           Inr host))"

definition loaded :: "('o, 'n, 't) libraries \<Rightarrow> specific_yaml \<Rightarrow> Validator \<Rightarrow> bool" where
  "loaded lib y v \<longleftrightarrow> (\<exists>node. Validator_UnmarshalYAML node (load_specific lib y) = Ret (Inr v))"

text \<open>Why a validator accepts an image with a digest.\<close>

definition cosign_verified ::
  "('o, 'n, 't) libraries \<Rightarrow> 'o CosignValidator \<Rightarrow> Image \<Rightarrow> RuleOptions \<Rightarrow> string \<Rightarrow> bool" where
  "cosign_verified lib cv img args d \<longleftrightarrow>
     (\<exists>trs. GetTrustRoots (trust_root_references cv args) (cv_TrustRoots cv) True = Inr trs \<and>
        (\<exists>tr \<in> set trs. \<exists>copts sigs. root_verifies (lib_cosign lib) cv img args tr copts sigs \<and>
           (\<exists>s \<in> set sigs. payload_digest (lib_cosign lib) s = Inr d)) \<and>
        (\<forall>r \<in> set (ro_Required args). r \<noteq> [] \<longrightarrow> (\<exists>tr \<in> set trs. \<exists>copts sigs.
           tr_Name tr = r \<and> root_verifies (lib_cosign lib) cv img args tr copts sigs)))"

definition notaryv1_verified ::
  "('o, 'n, 't) libraries \<Rightarrow> NotaryV1Validator \<Rightarrow> Image \<Rightarrow> RuleOptions \<Rightarrow> string \<Rightarrow> bool" where
  "notaryv1_verified lib nv img args d \<longleftrightarrow>
     (\<exists>keys repo repo' t st. trustRootKeys (lib_notary lib) nv (ro_TrustRoot args) = Inr keys \<and>
        base_valid (lib_notary lib) repo keys \<and> rp_Root repo' = rp_Root repo \<and> rp_Snapshot repo' = rp_Snapshot repo \<and>
        target_of repo' TargetsRole = target_of repo TargetsRole \<and>
        (t = TargetsRole \<or> delegation_valid (lib_notary lib) repo' t) \<and>
        target_of repo' t = Ret st \<and> recorded_digest st img d)"

definition notation_verified ::
  "('o, 'n, 't) libraries \<Rightarrow> 't NotationValidator \<Rightarrow> Image \<Rightarrow> RuleOptions \<Rightarrow> string \<Rightarrow> bool" where
  "notation_verified lib nv img args d \<longleftrightarrow>
     (\<exists>imts doc verifier repo img'. nt_TrustStore nv = Some imts \<and> setUpTrustPolicy nv img args = Ret (Inr doc) \<and>
        no_NewVerifier (lib_notation lib) doc imts = Inr verifier \<and>
        original img' = original img \<and> (Digest img \<noteq> [] \<longrightarrow> Digest img' = Digest img) \<and>
        no_Verify (lib_notation lib) verifier repo (configure_client nv img (lib_client lib img args))
          \<lparr>vo_ArtifactReference = repo_Name (Context img) @ ''@'' @ Digest img', vo_MaxSignatureAttempts = 10\<rparr> = Inr d)"

definition config_loaded :: "('o, 'n, 't) libraries \<Rightarrow> 'w Runtime \<Rightarrow> bool" where
  "config_loaded lib rt \<longleftrightarrow> (\<forall>v \<in> set (Validators (rt_Config rt)). \<exists>y. loaded lib y v)"

definition verified_by ::
  "('o, 'n, 't) libraries \<Rightarrow> specific_yaml \<Rightarrow> Validator \<Rightarrow> Image \<Rightarrow> RuleOptions \<Rightarrow> string \<Rightarrow> bool" where
  "verified_by lib y v img args d \<longleftrightarrow>
     v_Type v = StaticValidatorType \<and> (\<exists>sv. yaml_static y = Inr sv \<and> sv_Approve sv \<and> d = Digest img) \<or>
     v_Type v = CosignValidatorType \<and> (\<exists>cv. CosignValidator_UnmarshalYAML (lib_cosign lib) (yaml_cosign y) = Inr cv \<and>
       cosign_verified lib cv img args d) \<or>
     v_Type v = NotaryV1ValidatorType \<and> (\<exists>nv. NotaryV1Validator_UnmarshalYAML (lib_notary lib) (yaml_notaryv1 y) = Inr nv \<and>
       notaryv1_verified lib nv img args d) \<or>
     v_Type v = NotationValidatorType \<and> (\<exists>nv. NotationValidator_UnmarshalYAML (lib_notation lib) (yaml_notation y) = Inr nv \<and>
       notation_verified lib nv img args d)"

section \<open>Lemmas\<close>

text \<open>A loaded validator is one of the four, with the method of its type.\<close>

lemma loaded_cases:
  assumes "loaded lib y v"
  obtains sv where "v_Type v = StaticValidatorType" "yaml_static y = Inr sv"
      "SpecificValidator v = StaticValidator_ValidateImage sv"
    | cv where "v_Type v = CosignValidatorType" "CosignValidator_UnmarshalYAML (lib_cosign lib) (yaml_cosign y) = Inr cv"
      "SpecificValidator v = (\<lambda>img args. cosign_method (lib_cosign lib) (sched_cosign lib img args) cv img args)"
    | nv where "v_Type v = NotaryV1ValidatorType"
      "NotaryV1Validator_UnmarshalYAML (lib_notary lib) (yaml_notaryv1 y) = Inr nv"
      "SpecificValidator v = (\<lambda>img args. notaryv1_method (lib_notary lib) (sched_base lib img args)
         (sched_delegations lib img args) nv img args)"
    | nv where "v_Type v = NotationValidatorType"
      "NotationValidator_UnmarshalYAML (lib_notation lib) (yaml_notation y) = Inr nv"
      "SpecificValidator v = (\<lambda>img args. notation_method (lib_notation lib) nv (lib_client lib img args) img args)"
proof -
  obtain node where "Validator_UnmarshalYAML node (load_specific lib y) = Ret (Inr v)"
    using assms by (auto simp: loaded_def)
  then obtain type where type: "v_Type v = type" "load_specific lib y type = Ret (Inr (SpecificValidator v))"
      "type \<in> {StaticValidatorType, CosignValidatorType, NotaryV1ValidatorType, NotationValidatorType}"
    by (auto simp: Validator_UnmarshalYAML_def load_specific_def
        split: sum.split_asm option.split_asm yaml.split_asm if_split_asm)
  then show ?thesis
    using that by (auto simp: load_specific_def map_sum_def split: sum.split_asm)
qed

text \<open>The contracts of the three validators, as facts of their locales.\<close>

context cosign_run
begin

lemma contract: "validator_method (cosign_method ce sched cv)"
  by unfold_locales

end

context notaryv1_run
begin

lemma contract: "validator_method (notaryv1_method nx sd sd' nv)"
  by unfold_locales

end

context notation_loaded
begin

lemma contract: "validator_method (notation_method ne nv client)"
  by unfold_locales

end

lemma loaded_keeps_image:
  assumes "loaded lib y v"
  shows "keeps_image (SpecificValidator v)"
  using assms
proof (cases rule: loaded_cases)
  case (1 sv)
  then show ?thesis using static.keeps_image_axioms by simp
next
  case (2 cv)
  show ?thesis unfolding 2(3) by (rule keeps_image_of_calls) (rule cosign_image.keeps_image_axioms)
next
  case (3 nv)
  show ?thesis unfolding 3(3) by (rule keeps_image_of_calls) (rule notary_image.keeps_image_axioms)
next
  case (4 nv)
  show ?thesis unfolding 4(3) by (rule keeps_image_of_calls) (rule notation_image.keeps_image_axioms)
qed

lemma loaded_contract:
  assumes "loaded lib y v" and "orderly lib"
    and notary: "v_Type v = NotaryV1ValidatorType \<Longrightarrow> delivering lib \<and> host_ok lib y"
  shows "validator_method (SpecificValidator v)"
  using assms(1)
proof (cases rule: loaded_cases)
  case (1 sv)
  then show ?thesis using static.validator_method_axioms by simp
next
  case (2 cv)
  have "cosign_run (sched_cosign lib img args) cv" for img args
    using assms(2) Cosign_UnmarshalYAML_Inr[OF 2(2)] by unfold_locales (auto simp: orderly_def)
  from validator_method_of_calls[OF cosign_run.contract[OF this]] show ?thesis unfolding 2(3) .
next
  case (3 nv)
  obtain host where "NewRegistryRepo (nx_newRegistry (lib_notary lib)) (nx_newRepository (lib_notary lib)) (nv_Host nv) =
      Inr host" using notary[OF 3(1)] 3(2) unfolding host_ok_def by blast
  then have "notaryv1_run (lib_notary lib) (sched_base lib img args) (sched_delegations lib img args) nv host" for img args
    using notary[OF 3(1)] by unfold_locales (auto simp: delivering_def orderly_def complete_def)
  from validator_method_of_calls[OF notaryv1_run.contract[OF this]] show ?thesis unfolding 3(3) .
next
  case (4 nv)
  have "notation_loaded (lib_notation lib) nv (yaml_notation y)" using 4(2) by unfold_locales
  from validator_method_of_calls[OF notation_loaded.contract[OF this]] show ?thesis unfolding 4(3) .
qed

text \<open>What acceptance by a validator means.\<close>

lemma notaryv1_evidence:
  assumes "honest sd" and "honest sd'"
    and "NotaryV1Validator_ValidateImage (lib_notary lib) sd sd' nv img args = Ret (Some (Inr d))"
  shows "notaryv1_verified lib nv img args d"
proof -
  obtain nc repo keys repo' targets where v: "DownloadBaseTrustData (lib_notary lib) sd nc empty_Repo = Ret (Some (repo, None))"
    "trustRootKeys (lib_notary lib) nv (ro_TrustRoot args) = Inr keys" "ValidateBaseTrustData (lib_notary lib) repo keys = Ret None"
    "choose_targets (lib_notary lib) sd' nv args nc repo = Ret (Some (Inr (repo', targets)))"
    "role_digests repo' img targets [] = Ret (Inr [d])"
    using assms(3) by (rule NotaryV1_ValidateImage_Inr)
  obtain targets0 s where t: "target_of repo TargetsRole = Ret targets0" "rp_Snapshot repo = Some s"
    using downloaded[OF assms(1) v(1)] .
  have ch: "rp_Root repo' = rp_Root repo \<and> rp_Snapshot repo' = Some s \<and> target_of repo' TargetsRole = Ret targets0"
    "chosen_roles (lib_notary lib) args targets0 s repo' targets"
    using choose_targets_spec[OF assms(2) t, of "lib_notary lib" nv args nc] v(4) by blast+
  note targets = NotaryV1_ValidateImage_digests[OF v(5)]
  from hd_in_set[OF targets(1)] targets(2) obtain st where st: "target_of repo' (hd targets) = Ret st"
    "search_role st img = Inr d" by blast
  have role: "hd targets = TargetsRole \<or> delegation_valid (lib_notary lib) repo' (hd targets)"
    using ch(2) hd_in_set[OF targets(1)] unfolding chosen_roles_def by auto
  have valid: "base_valid (lib_notary lib) repo keys" using v(3) by (simp add: ValidateBaseTrustData_None)
  show ?thesis
    unfolding notaryv1_verified_def
    using v(2) valid ch(1) t role st(1) search_role_recorded[OF st(2)]
    by (intro exI[of _ keys] exI[of _ repo] exI[of _ repo'] exI[of _ "hd targets"] exI[of _ st]) simp
qed

lemma accepted_verified:
  assumes "loaded lib y v" and "orderly lib"
    and "SpecificValidator v img args = Ret (img', Inr d)"
  shows "verified_by lib y v img args d"
  using assms(1)
proof (cases rule: loaded_cases)
  case (1 sv)
  with assms(3) show ?thesis
    by (auto simp: verified_by_def StaticValidator_ValidateImage_def split: if_split_asm)
next
  case (2 cv)
  have "cosign_run (sched_cosign lib img args) cv"
    using assms(2) Cosign_UnmarshalYAML_Inr[OF 2(2)] by unfold_locales (auto simp: orderly_def)
  moreover have "CosignValidator_ValidateImage (lib_cosign lib) (sched_cosign lib img args) cv img args = Some (Inr d)"
    using assms(3) 2(3) by (simp add: cosign_method_def split: option.split_asm)
  ultimately have "cosign_verified lib cv img args d"
    unfolding cosign_verified_def by (rule cosign_run.signature_evidence) blast
  with 2 show ?thesis unfolding verified_by_def by blast
next
  case (3 nv)
  let ?run = "NotaryV1Validator_ValidateImage (lib_notary lib) (sched_base lib img args) (sched_delegations lib img args)
    nv img args"
  obtain r where r: "?run = Ret r"
    using assms(3) 3(3) by (cases ?run)
      (simp_all add: notaryv1_method_def)
  then have "r = Some (Inr d)"
    using assms(3) 3(3) by (simp add: notaryv1_method_def split: option.split_asm)
  moreover have "honest (sched_base lib img args)" "honest (sched_delegations lib img args)"
    using assms(2) unfolding orderly_def by blast+
  ultimately have "notaryv1_verified lib nv img args d" using notaryv1_evidence r by metis
  with 3 show ?thesis unfolding verified_by_def by blast
next
  case (4 nv)
  obtain client' where "NotationValidator_ValidateImage (lib_notation lib) nv (lib_client lib img args) img args =
      Ret ((img', Inr d), client')"
    using assms(3) 4(3)
    by (cases "NotationValidator_ValidateImage (lib_notation lib) nv (lib_client lib img args) img args")
      (auto simp: notation_method_def)
  then obtain imts doc verifier repo where n: "nt_TrustStore nv = Some imts"
    "setUpTrustPolicy nv img args = Ret (Inr doc)" "no_NewVerifier (lib_notation lib) doc imts = Inr verifier"
    "no_NewRemoteRepository (lib_notation lib) (repo_Name (Context img)) = Inr repo"
    "client' = configure_client nv img (lib_client lib img args)"
    "Digest img \<noteq> [] \<and> img' = img \<or>
      Digest img = [] \<and> (\<exists>r. no_Resolve (lib_notation lib) repo client' (Name img) = Inr r \<and> img' = SetDigest img r)"
    "no_Verify (lib_notation lib) verifier repo client'
        \<lparr>vo_ArtifactReference = repo_Name (Context img') @ ''@'' @ Digest img', vo_MaxSignatureAttempts = 10\<rparr> = Inr d"
    by (rule Notation_ValidateImage_Inr)
  have k: "original img' = original img" "Context img' = Context img" "Digest img \<noteq> [] \<longrightarrow> Digest img' = Digest img"
    using n(6) by (auto simp: SetDigest_def Context_def Let_def)
  have "notation_verified lib nv img args d"
    unfolding notation_verified_def using n(1-3,7) k unfolding n(5)
    by (intro exI[of _ imts] exI[of _ doc] exI[of _ verifier] exI[of _ repo] exI[of _ img']) simp
  with 4 show ?thesis unfolding verified_by_def by blast
qed

lemma config_loaded_ok: "config_loaded lib rt \<Longrightarrow> validators_ok rt"
  unfolding config_loaded_def validators_ok_def using loaded_keeps_image by blast

lemma find_validator_mem: "find_validator key vs = Inr v \<Longrightarrow> v \<in> set vs"
  by (induction key vs rule: find_validator.induct) (auto split: if_split_asm)

lemma resolved_validator: "resolved rt s img rule v \<Longrightarrow> v \<in> set (Validators (rt_Config rt))"
  by (auto simp: resolved_def Config_Validator_def Let_def dest: find_validator_mem)

text \<open>A genuine result without error: an approval, or a verification by the validator of the policy.\<close>

lemma genuine_verified:
  assumes "config_loaded lib rt" and "orderly lib" and "rt_parse rt [] = Inl e"
    and "genuine rt s out" and "no_error out" and "map fst (run_jobs s) = ValidateWorkloadObject rt new old"
  shows "approved rt new old (out_RawImage out) \<or>
    (\<exists>img rule y v d. resolved rt (out_RawImage out) img rule v \<and> loaded lib y v \<and>
       verified_by lib y v img (rule_With rule) d \<and>
       out_NewImage out \<in> {Name (SetDigest img d), Name (SetDigest img (sanitize (Digest (SetDigest img d))))})"
proof -
  obtain input w m where i: "input \<in> fst ` set (run_jobs s)" "in_Image input = out_RawImage out"
    "cache_sound rt w" "oc_Sent (ValidateImage rt False input w m) = Some out"
    using assms(4) by (auto simp: genuine_def)
  have "input \<in> set (ValidateWorkloadObject rt new old)" using i(1) assms(6) by (metis list.set_map)
  then have prev: "set (in_PreviousImages input) = images_of old"
    and par: "in_ParentImages input = ParentContainerImagesFromKubeAPI (rt_decode rt) (rt_KubeAPI rt) new"
    unfolding ValidateWorkloadObject_def Let_def by (auto simp: set_ImageSet)
  obtain img rule v where r: "resolved rt (out_RawImage out) img rule v"
    and why: "unchanged_ok rt input \<or> child_ok rt input \<or>
     (\<exists>img' d. SpecificValidator v img (rule_With rule) = Ret (img', Inr d) \<and>
        out_NewImage out \<in> {Name (SetDigest img d), Name (SetDigest img (sanitize (Digest (SetDigest img d))))})"
    using accepted_trusted[OF config_loaded_ok[OF assms(1)] assms(3) i(3,4) assms(5)] unfolding i(2) by blast
  obtain y where y: "loaded lib y v"
    using assms(1) resolved_validator[OF r] unfolding config_loaded_def by blast
  from why consider "unchanged_ok rt input \<or> child_ok rt input"
    | img' d where "SpecificValidator v img (rule_With rule) = Ret (img', Inr d)"
      "out_NewImage out \<in> {Name (SetDigest img d), Name (SetDigest img (sanitize (Digest (SetDigest img d))))}" by blast
  then show ?thesis
  proof cases
    case 1
    then show ?thesis unfolding approved_def unchanged_ok_def child_ok_def child_checked_def prev par i(2) by blast
  next
    case (2 img' d)
    from accepted_verified[OF y assms(2) 2(1)] 2(2) r y show ?thesis by blast
  qed
qed

section \<open>An example\<close>

definition example_lib :: "(string, string, string) libraries" where
  "example_lib = \<lparr>lib_cosign = example_ce, lib_notary = example_nx [], lib_notation = example_ne,
     sched_cosign = \<lambda>_ _. rev, sched_base = \<lambda>_ _. in_order, sched_delegations = \<lambda>_ _. in_order,
     lib_client = \<lambda>_ _. fresh_client\<rparr>"

definition static_yaml :: specific_yaml where
  "static_yaml = \<lparr>yaml_static = Inr \<lparr>sv_Name = ''default'', sv_Type = ''static'', sv_Approve = True\<rparr>,
     yaml_cosign = Inl [], yaml_notaryv1 = Inl [], yaml_notation = Inl []\<rparr>"

lemma example_delivering: "delivering example_lib"
  unfolding delivering_def orderly_def example_lib_def by (simp add: in_order_def honest_def example_nx_def)

lemma example_orderly: "orderly example_lib"
  using example_delivering by (simp add: delivering_def)

lemma allow_all_loaded: "loaded example_lib static_yaml allow_all"
proof -
  let ?node = "Inr [''name'' \<mapsto> YString ''default'', ''type'' \<mapsto> YString ''static'']"
  have "Validator_UnmarshalYAML ?node (load_specific example_lib static_yaml) = Ret (Inr allow_all)"
    by (simp add: Validator_UnmarshalYAML_def load_specific_def static_yaml_def allow_all_def)
  then show ?thesis unfolding loaded_def by blast
qed

lemma allow_config_loaded: "config_loaded example_lib allow_runtime"
  using allow_all_loaded unfolding config_loaded_def by (auto simp: allow_runtime_def example_runtime_def)

text \<open>A Cosign validator with one trust root, the key \<open>alice\<close> of the example in \<open>Cosign\<close>.\<close>

definition cosign_yaml :: specific_yaml where
  "cosign_yaml = \<lparr>yaml_static = Inl [],
     yaml_cosign = Inr (example_yaml\<lparr>cy_TrustRoots := [(example_root ''alice'')\<lparr>tr_Name := ''default''\<rparr>]\<rparr>),
     yaml_notaryv1 = Inl [], yaml_notation = Inl []\<rparr>"

definition one_root_cv :: "string CosignValidator" where
  "one_root_cv = example_cv\<lparr>cv_TrustRoots := [(example_root ''alice'')\<lparr>tr_Name := ''default''\<rparr>]\<rparr>"

definition cosign_one_root :: Validator where
  "cosign_one_root = \<lparr>v_Name = ''default'', v_Type = CosignValidatorType,
     SpecificValidator = (\<lambda>img args. cosign_method example_ce rev one_root_cv img args)\<rparr>"

abbreviation cosign_runtime :: "store Runtime" where
  "cosign_runtime \<equiv> example_runtime cosign_one_root"

lemma cosign_one_root_loaded: "loaded example_lib cosign_yaml cosign_one_root"
proof -
  let ?node = "Inr [''name'' \<mapsto> YString ''default'', ''type'' \<mapsto> YString ''cosign'']"
  have "CosignValidator_UnmarshalYAML example_ce (yaml_cosign cosign_yaml) = Inr one_root_cv"
    by (simp add: CosignValidator_UnmarshalYAML_def example_yaml_def example_cv_def example_ce_def load_unless_empty_def
        cosign_yaml_def one_root_cv_def)
  then have "Validator_UnmarshalYAML ?node (load_specific example_lib cosign_yaml) = Ret (Inr cosign_one_root)"
    by (simp add: Validator_UnmarshalYAML_def load_specific_def cosign_one_root_def example_lib_def)
  then show ?thesis unfolding loaded_def by blast
qed

lemma cosign_config_loaded: "config_loaded example_lib cosign_runtime"
  using cosign_one_root_loaded unfolding config_loaded_def by (auto simp: example_runtime_def)

text \<open>A Notary validator, for the server of the example in \<open>NotaryV1\<close>.\<close>

definition notary_yaml :: specific_yaml where
  "notary_yaml = \<lparr>yaml_static = Inl [], yaml_cosign = Inl [], yaml_notaryv1 = Inr example_nv, yaml_notation = Inl []\<rparr>"

definition notary_validator :: Validator where
  "notary_validator = \<lparr>v_Name = ''default'', v_Type = NotaryV1ValidatorType,
     SpecificValidator = (\<lambda>img args. notaryv1_method (example_nx []) in_order in_order example_nv img args)\<rparr>"

lemma notary_unmarshal: "NotaryV1Validator_UnmarshalYAML (example_nx []) (yaml_notaryv1 notary_yaml) = Inr example_nv"
  by code_simp

lemma notary_loaded: "loaded example_lib notary_yaml notary_validator"
proof -
  let ?node = "Inr [''name'' \<mapsto> YString ''default'', ''type'' \<mapsto> YString ''notaryv1'']"
  have "Validator_UnmarshalYAML ?node (load_specific example_lib notary_yaml) = Ret (Inr notary_validator)"
    using notary_unmarshal
    by (simp add: Validator_UnmarshalYAML_def load_specific_def notary_validator_def example_lib_def)
  then show ?thesis unfolding loaded_def by blast
qed

lemma notary_host_ok: "host_ok example_lib notary_yaml"
proof -
  have "lib_notary example_lib = example_nx []" by (simp add: example_lib_def)
  with notary_unmarshal example_host show ?thesis unfolding host_ok_def by auto
qed

lemma cosign_accepts:
  "validators_ok cosign_runtime" "v_Name cosign_one_root = ''default''"
  "SpecificValidator cosign_one_root Validation.example_image (rule_With (example_rule ''*:*'')) =
     Ret (Validation.example_image, Inr ''sha256:aa'')"
  "res_ok (New example_parse (Name (SetDigest Validation.example_image ''sha256:aa'')))"
proof -
  show "validators_ok cosign_runtime" by (rule config_loaded_ok[OF cosign_config_loaded])
  have "CosignValidator_ValidateImage example_ce rev one_root_cv Validation.example_image zero_RuleOptions = Some (Inr ''sha256:aa'')"
    by (simp add: example_run_defs Let_def example_signed example_ce_fields one_root_cv_def del: signed_digests.simps)
  then show "SpecificValidator cosign_one_root Validation.example_image (rule_With (example_rule ''*:*'')) =
      Ret (Validation.example_image, Inr ''sha256:aa'')"
    by (simp add: cosign_one_root_def cosign_method_def example_rule_def zero_Rule_def)
  show "res_ok (New example_parse (Name (SetDigest Validation.example_image ''sha256:aa'')))" by code_simp
qed (simp add: cosign_one_root_def)

lemma create_not_approved:
  "\<not> approved (example_runtime v) (aro_NewObj create_objects) (aro_OldObj create_objects) ''img''"
proof -
  have "images_of (aro_OldObj create_objects) = {}" by (simp add: create_objects_def images_of_def empty_workload_def)
  moreover have "ParentContainerImagesFromKubeAPI (rt_decode (example_runtime v)) (rt_KubeAPI (example_runtime v))
      (aro_NewObj create_objects) = Ret []"
    by (simp add: ParentContainerImagesFromKubeAPI_def create_objects_def empty_workload_def example_runtime_def)
  ultimately show ?thesis unfolding approved_def by simp
qed

section \<open>Properties\<close>

text \<open>
  C7 (refinement). Loaded validators implement the interface that the validation handler relies on. Whatever a validator
  of one of the four types returns, it changes nothing of the image but its digest, and a digest
  that it returns is verified in the sense of its type; this needs only that each goroutine of a validation runs once, in any
  order. A static, a Cosign or a Notation validator returns for every image and rule. A Notary v1
  validator may panic or wait forever; it returns for every image and rule provided that no fetch of trust data is
  cancelled, that the registry hands out no refresh token and that its configured host is a registry
  name.
\<close>
theorem loaded_validator_contract:
  assumes "loaded lib y v" and "orderly lib"
  shows "(\<forall>img' r. Validator_ValidateImage v img args = Ret (img', r) \<longrightarrow>
      OriginalString img' = OriginalString img \<and> Context img' = Context img \<and> Tag img' = Tag img \<and>
      (\<forall>d. r = Inr d \<longrightarrow> verified_by lib y v img args d)) \<and>
    (v_Type v \<in> {StaticValidatorType, CosignValidatorType, NotationValidatorType} \<or> delivering lib \<and> host_ok lib y \<longrightarrow>
      (\<exists>img' r. Validator_ValidateImage v img args = Ret (img', r)))"
proof (intro conjI impI)
  show "\<forall>img' r. Validator_ValidateImage v img args = Ret (img', r) \<longrightarrow>
      OriginalString img' = OriginalString img \<and> Context img' = Context img \<and> Tag img' = Tag img \<and>
      (\<forall>d. r = Inr d \<longrightarrow> verified_by lib y v img args d)"
    using keeps_image.frame[OF loaded_keeps_image[OF assms(1)]] accepted_verified[OF assms]
    by (auto simp: Validator_ValidateImage_def OriginalString_def Context_def Tag_def)
  assume "v_Type v \<in> {StaticValidatorType, CosignValidatorType, NotationValidatorType} \<or> delivering lib \<and> host_ok lib y"
  then have "validator_method (SpecificValidator v)" by (intro loaded_contract[OF assms]) auto
  then show "\<exists>img' r. Validator_ValidateImage v img args = Ret (img', r)"
    using validator_method.returns unfolding Validator_ValidateImage_def by blast
qed

theorem loaded_validator_contract_witness:
  "(\<exists>img' r. Validator_ValidateImage notary_validator (nv_image ''latest'' []) zero_RuleOptions = Ret (img', r)) \<and>
   (\<exists>img' r. Validator_ValidateImage cosign_one_root (nv_image ''latest'' []) zero_RuleOptions = Ret (img', r)) \<and>
   verified_by example_lib notary_yaml notary_validator (nv_image ''latest'' []) (delegations []) ''sha256:ab''"
proof (intro conjI)
  show "\<exists>img' r. Validator_ValidateImage notary_validator (nv_image ''latest'' []) zero_RuleOptions = Ret (img', r)"
    using loaded_validator_contract[OF notary_loaded example_orderly, of "nv_image ''latest'' []" zero_RuleOptions]
      example_delivering notary_host_ok by blast
  have "v_Type cosign_one_root = CosignValidatorType" by (simp add: cosign_one_root_def)
  then show "\<exists>img' r. Validator_ValidateImage cosign_one_root (nv_image ''latest'' []) zero_RuleOptions = Ret (img', r)"
    using loaded_validator_contract[OF cosign_one_root_loaded example_orderly, of "nv_image ''latest'' []" zero_RuleOptions]
    by blast
  have "Validator_ValidateImage notary_validator (nv_image ''latest'' []) (delegations []) =
      Ret (nv_image ''latest'' [], Inr ''sha256:ab'')"
    by (simp add: Validator_ValidateImage_def notary_validator_def notaryv1_method_def example_accepts)
  then show "verified_by example_lib notary_yaml notary_validator (nv_image ''latest'' []) (delegations []) ''sha256:ab''"
    using loaded_validator_contract[OF notary_loaded example_orderly, of "nv_image ''latest'' []" "delegations []"] by blast
qed

end
