(* ===== verification/Startup.thy ===== *)
theory Startup
  imports Auth_Load Loaded_Validators
begin

text \<open>
  How the program starts: the loading and validation of the two configuration files
  (\<open>internal/config/config.go\<close>, \<open>internal/alert/config.go\<close>, \<open>internal/utils/validation.go\<close>), the options of
  the Redis client (\<open>internal/caching/redis.go\<close>) and \<open>cmd/connaisseur/main.go\<close>, which builds the runtime that
  the handlers read. The file system, the YAML decoder, the check of struct tags and the
  Kubernetes client set-up are parameters (the record \<open>start_ext\<close>).
\<close>

section \<open>Definitions\<close>

text \<open>\<open>logrus.Fatal\<close> ends the process; like a panic that nothing recovers, it is no result.\<close>

abbreviation Fatal :: "string \<Rightarrow> 'a go" where
  "Fatal msg \<equiv> Panic (''exit status 1: '' @ msg)"

subsection \<open>validation.go\<close>

text \<open>What the check of the struct tags reports: wrong tags, or the translated errors of the fields.\<close>

datatype struct_check = StructValid | InvalidValidation string | FieldErrors "string list"

fun field_messages :: "string \<Rightarrow> nat \<Rightarrow> string list \<Rightarrow> string" where
  "field_messages ty i [] = []"
| "field_messages ty i (err # errs) =
     ty @ '' error '' @ decimal i @ '': '' @ err @ [char_of (10 :: nat)] @ field_messages ty (i + 1) errs"

definition Validate :: "string \<Rightarrow> struct_check \<Rightarrow> string option go" where
  "Validate ty chk =
     (case chk of
        StructValid \<Rightarrow> Ret None
      | InvalidValidation err \<Rightarrow> Panic (''validation definitions are invalid: '' @ err)
      | FieldErrors errs \<Rightarrow>
          Ret (Some (ty @ '' has '' @ decimal (length errs) @ '' errors:'' @ [char_of (10 :: nat)] @
                     field_messages ty 0 errs)))"

subsection \<open>alert/config.go\<close>

text \<open>The receivers of a YAML node are pointers, nil for a null entry; naming them dereferences.\<close>

fun name_channels :: "nat \<Rightarrow> Channel option list \<Rightarrow> Channel list go" where
  "name_channels idx [] = Ret []"
| "name_channels idx (None # chs) = Panic ''nil pointer dereference''"
| "name_channels idx (Some s # chs) =
     go_bind (name_channels (idx + 1) chs)
       (\<lambda>rest. Ret (s\<lparr>ChannelName := TemplateFile s @ ''-'' @ decimal idx\<rparr> # rest))"

definition RequestSender_UnmarshalYAML :: "Channel option list res \<Rightarrow> Channel list res go" where
  "RequestSender_UnmarshalYAML unmarshalled =
     (case unmarshalled of
        Inl err \<Rightarrow> Ret (Inl err)
      | Inr receivers \<Rightarrow> go_bind (name_channels 0 receivers) (\<lambda>senders. Ret (Inr senders)))"

subsection \<open>Parameters\<close>

record redis_options =
  rd_Addr :: string
  rd_Password :: string
  rd_RootCAs :: string

text \<open>The alerting file after decoding: the cluster, and the receivers that were decoded where the key is there.\<close>

record alert_yaml =
  ay_ClusterId :: string
  ay_AdmitRequest :: "Channel option list res option"
  ay_RejectRequest :: "Channel option list res option"

text \<open>
  The configuration file after decoding of its plain fields: for each validator the mapping and what its node
  yields for the specific structs (null entries are dropped by the decoder), and the rules.
\<close>

record validator_yaml =
  vy_Data :: "(string \<Rightarrow> yaml option) res"
  vy_Specific :: specific_yaml

record config_yaml =
  cf_Validators :: "validator_yaml list"
  cf_Rules :: "Rule list"

text \<open>What the handlers need beyond the configuration: parsers, matchers and decoders.\<close>

record ('w, 'o, 'n, 't) start_ext =
  su_cwd :: "string res"
  su_EvalSymlinks :: "string \<Rightarrow> string res"
  su_Open :: "string \<Rightarrow> string res"
  su_ReadFile :: "string \<Rightarrow> string res"
  su_DecodeConfig :: "string \<Rightarrow> config_yaml res"
  su_lib :: "('o, 'n, 't) libraries"
  su_CheckConfig :: "Config \<Rightarrow> struct_check"
  su_DecodeAlerts :: "string \<Rightarrow> alert_yaml res"
  su_CheckAlerts :: "AlertConfig \<Rightarrow> struct_check"
  su_Quote :: "string \<Rightarrow> string"
  su_CertsFromPEM :: "string \<Rightarrow> bool"
  su_NewRedisClient :: "redis_options \<Rightarrow> 'w redis_client"
  su_InClusterConfig :: "string res"
  su_NewForConfig :: "string \<Rightarrow> kube_client res"
  su_Listen :: "string option"
  su_parse :: parser
  su_glob :: glob
  su_decode :: decoder

abbreviation ConfigDir :: string where "ConfigDir \<equiv> ''/app/config''"
abbreviation AlertDir :: string where "AlertDir \<equiv> ''/app/alerts''"
abbreviation RedisCertDir :: string where "RedisCertDir \<equiv> ''/app/redis-certs''"
abbreviation DefaultRedisPort :: nat where "DefaultRedisPort \<equiv> 6379"
abbreviation HTTPTimeoutSeconds :: nat where "HTTPTimeoutSeconds \<equiv> 30"

subsection \<open>config.go\<close>

definition sanitizing_error :: "('w, 'o, 'n, 't) start_ext \<Rightarrow> string \<Rightarrow> string list \<Rightarrow> string" where
  "sanitizing_error su baseDir pathElements =
     ''error sanitizing file with baseDir '' @ baseDir @ '' and pathElements '' @
     fmt_slice (map (su_Quote su) pathElements)"

definition Config_validate :: "('w, 'o, 'n, 't) start_ext \<Rightarrow> Config \<Rightarrow> string option go" where
  "Config_validate su c = Validate ''Config'' (su_CheckConfig su c)"

text \<open>
  The decoding calls \<open>UnmarshalYAML\<close> of each validator, which loads the specific validator of its type.
  An error of one is an error of the file.
\<close>

fun decode_validators :: "('o, 'n, 't) libraries \<Rightarrow> validator_yaml list \<Rightarrow> Validator list res go" where
  "decode_validators lib [] = Ret (Inr [])"
| "decode_validators lib (y # ys) =
     go_bind (Validator_UnmarshalYAML (vy_Data y) (load_specific lib (vy_Specific y))) (\<lambda>v.
       case v of
         Inl err \<Rightarrow> Ret (Inl err)
       | Inr v \<Rightarrow> go_bind (decode_validators lib ys) (\<lambda>vs. Ret (map_sum id (\<lambda>vs. v # vs) vs)))"

definition decode_config :: "('o, 'n, 't) libraries \<Rightarrow> config_yaml \<Rightarrow> Config res go" where
  "decode_config lib cf =
     go_bind (decode_validators lib (cf_Validators cf)) (\<lambda>vs.
       Ret (map_sum id (\<lambda>vs. \<lparr>Validators = vs, Rules = cf_Rules cf\<rparr>) vs))"

text \<open>A configuration that does not validate ends the process.\<close>

definition Load :: "('w, 'o, 'n, 't) start_ext \<Rightarrow> string \<Rightarrow> string list \<Rightarrow> Config res go" where
  "Load su baseDir pathElements =
     (case SafeFileName (su_cwd su) (su_EvalSymlinks su) baseDir pathElements of
        Inl err \<Rightarrow> Ret (Inl (sanitizing_error su baseDir pathElements))
      | Inr fileName \<Rightarrow>
     (case su_Open su fileName of
        Inl err \<Rightarrow> Ret (Inl (''error loading file: '' @ err))
      | Inr configFile \<Rightarrow>
     (case su_DecodeConfig su configFile of
        Inl err \<Rightarrow> Ret (Inl (''error parsing file: '' @ err))
      | Inr cf \<Rightarrow>
          go_bind (decode_config (su_lib su) cf) (\<lambda>decoded.
            case decoded of
              Inl err \<Rightarrow> Ret (Inl (''error parsing file: '' @ err))
            | Inr conf \<Rightarrow>
                go_bind (Config_validate su conf) (\<lambda>err.
                  case err of Some e \<Rightarrow> Fatal e | None \<Rightarrow> Ret (Inr conf))))))"

subsection \<open>alert/config.go: LoadConfig\<close>

text \<open>A key that is missing leaves its receivers empty.\<close>

definition decode_receivers :: "Channel option list res option \<Rightarrow> Channel list res go" where
  "decode_receivers node = (case node of None \<Rightarrow> Ret (Inr []) | Some u \<Rightarrow> RequestSender_UnmarshalYAML u)"

definition decode_alerts :: "alert_yaml \<Rightarrow> AlertConfig res go" where
  "decode_alerts ay =
     go_bind (decode_receivers (ay_AdmitRequest ay)) (\<lambda>admit.
       case admit of
         Inl err \<Rightarrow> Ret (Inl err)
       | Inr admit \<Rightarrow>
           go_bind (decode_receivers (ay_RejectRequest ay)) (\<lambda>reject. Ret
             (case reject of
                Inl err \<Rightarrow> Inl err
              | Inr reject \<Rightarrow> Inr \<lparr>ClusterId = ay_ClusterId ay, AdmitRequests = admit, RejectRequests = reject\<rparr>)))"

text \<open>The name of the type is empty here: the checked value is a pointer.\<close>

definition AlertConfig_validate :: "('w, 'o, 'n, 't) start_ext \<Rightarrow> AlertConfig \<Rightarrow> string option go" where
  "AlertConfig_validate su a = Validate [] (su_CheckAlerts su a)"

definition LoadConfig :: "('w, 'o, 'n, 't) start_ext \<Rightarrow> string \<Rightarrow> string list \<Rightarrow> AlertConfig res go" where
  "LoadConfig su baseDir pathElements =
     (case SafeFileName (su_cwd su) (su_EvalSymlinks su) baseDir pathElements of
        Inl err \<Rightarrow> Ret (Inl (sanitizing_error su baseDir pathElements))
      | Inr fileName \<Rightarrow>
     (case su_Open su fileName of
        Inl err \<Rightarrow> Ret (Inl (''error loading file: '' @ err))
      | Inr configFile \<Rightarrow>
     (case su_DecodeAlerts su configFile of
        Inl err \<Rightarrow> Ret (Inl (''error parsing file: '' @ err))
      | Inr ay \<Rightarrow>
          go_bind (decode_alerts ay) (\<lambda>decoded.
            case decoded of
              Inl err \<Rightarrow> Ret (Inl (''error parsing file: '' @ err))
            | Inr alerting \<Rightarrow>
                go_bind (AlertConfig_validate su alerting) (\<lambda>err.
                  case err of Some e \<Rightarrow> Fatal e | None \<Rightarrow> Ret (Inr alerting))))))"

subsection \<open>redis.go: the client\<close>

definition redis_client_options :: "('w, 'o, 'n, 't) start_ext \<Rightarrow> env \<Rightarrow> redis_options go" where
  "redis_client_options su e =
     (case su_ReadFile su (RedisCertDir @ ''/tls.crt'') of
        Inl err \<Rightarrow> Fatal (''could not read redis cert: '' @ err)
      | Inr cert \<Rightarrow>
          if \<not> su_CertsFromPEM su cert then Fatal ''failed to append redis certificate''
          else Ret \<lparr>rd_Addr = Getenv e ''REDIS_HOST'' @ '':'' @ decimal DefaultRedisPort,
                    rd_Password = Getenv e ''REDIS_PASSWORD'', rd_RootCAs = cert\<rparr>)"

text \<open>\<open>NewCacher\<close> sets up a client only where the cache is on.\<close>

definition start_cache :: "('w, 'o, 'n, 't) start_ext \<Rightarrow> env \<Rightarrow> 'w Cacher go" where
  "start_cache su e =
     (if expiry_seconds e \<le> 0 then Ret EmptyCache
      else go_bind (redis_client_options su e) (\<lambda>opts. Ret (NewCacher (su_NewRedisClient su opts) e)))"

subsection \<open>main.go\<close>

text \<open>
  The Kubernetes client in the context is an interface: nil; a nil pointer to a client, which the
  failed \<open>NewForConfig\<close> leaves and which is no nil interface; or a client.
\<close>

datatype kube_value = NilInterface | NilClient | KubeClient kube_client

definition kube_api :: "('w, 'o, 'n, 't) start_ext \<Rightarrow> env \<Rightarrow> kube_value" where
  "kube_api su e =
     (if FeatureFlagOn e AutomaticChildApproval then
        (case su_InClusterConfig su of
           Inl err \<Rightarrow> NilInterface
         | Inr cfg \<Rightarrow> (case su_NewForConfig su cfg of Inl err \<Rightarrow> NilClient | Inr c \<Rightarrow> KubeClient c))
      else NilInterface)"

datatype route = HealthRoute | MutateRoute | MetricsRoute

text \<open>
  The server: its routes and what it hands to the handlers. \<open>srv_Runtime\<close> takes the Kubernetes client as
  the handlers see it; \<^const>\<open>None\<close> for a nil client, whose use panics.
\<close>

record 'w Server =
  srv_Addr :: string
  srv_Timeout :: nat
  srv_Routes :: "(string \<times> route) list"
  srv_Runtime :: "'w Runtime option"
  srv_Alerting :: AlertConfig

definition server_runtime :: "('w, 'o, 'n, 't) start_ext \<Rightarrow> env \<Rightarrow> Config \<Rightarrow> 'w Cacher \<Rightarrow> 'w Runtime option" where
  "server_runtime su e config cache =
     (let rt = (\<lambda>kube. \<lparr>rt_Env = e, rt_Config = config, rt_Cache = cache, rt_KubeAPI = kube,
                  rt_parse = su_parse su, rt_glob = su_glob su, rt_decode = su_decode su\<rparr>)
      in case kube_api su e of
           NilInterface \<Rightarrow> Some (rt None) | NilClient \<Rightarrow> None | KubeClient c \<Rightarrow> Some (rt (Some c)))"

text \<open>The server that is started; \<open>su_Listen\<close> is the error of listening, if it fails.\<close>

definition startServer :: "('w, 'o, 'n, 't) start_ext \<Rightarrow> env \<Rightarrow> Config \<Rightarrow> AlertConfig \<Rightarrow> 'w Server go" where
  "startServer su e config alerting =
     go_bind (start_cache su e) (\<lambda>cache.
       case su_Listen su of
         Some err \<Rightarrow> Fatal err
       | None \<Rightarrow> Ret
           \<lparr>srv_Addr = '':5000'', srv_Timeout = HTTPTimeoutSeconds,
            srv_Routes = [(''/health'', HealthRoute), (''/ready'', HealthRoute), (''/mutate'', MutateRoute),
                          (''/metrics'', MetricsRoute)],
            srv_Runtime = server_runtime su e config cache, srv_Alerting = alerting\<rparr>)"

definition loadConfigs :: "('w, 'o, 'n, 't) start_ext \<Rightarrow> (Config \<times> AlertConfig) go" where
  "loadConfigs su =
     go_bind (Load su ConfigDir [''/config.yaml'']) (\<lambda>config.
       case config of
         Inl err \<Rightarrow> Fatal (''error loading config: '' @ err)
       | Inr config \<Rightarrow>
           go_bind (LoadConfig su AlertDir [''/config.yaml'']) (\<lambda>alerting.
             case alerting of
               Inl err \<Rightarrow> Fatal (''error loading alerting config: '' @ err)
             | Inr alerting \<Rightarrow> Ret (config, alerting)))"

text \<open>Whether the log is pretty-printed, and its level.\<close>

definition log_settings :: "env \<Rightarrow> bool \<times> Level" where
  "log_settings e = (case ConnaisseurLogFormat e of LogFormatJson \<Rightarrow> False | LogFormatJsonPretty \<Rightarrow> True, ConnaisseurLogLevel e)"

definition main :: "('w, 'o, 'n, 't) start_ext \<Rightarrow> env \<Rightarrow> 'w Server go" where
  "main su e =
     (let e = e(''SIGSTORE_NO_CACHE'' \<mapsto> ''1'')
      in go_bind (loadConfigs su) (\<lambda>(config, alerting). startServer su e config alerting))"

section \<open>Lemmas\<close>

subsection \<open>Loading\<close>

text \<open>A file of the program lies directly below its directory.\<close>

lemma config_file_below:
  assumes "SafeFileName cwd EvalSymlinks (rooted bs) [''/config.yaml''] = Inr f" and "list_all plain bs" and "bs \<noteq> []"
    and "Abs cwd (rooted bs) = Inr (rooted bs)"
  shows "HasPrefix f (rooted bs @ ''/'')"
proof -
  have parts: "Split (CHR ''/'') ''/config.yaml'' = [[], ''config.yaml'']" by code_simp
  have "\<forall>e \<in> set [''/config.yaml'']. ''..'' \<notin> set (Split (CHR ''/'') e)" by (simp add: parts del: Split.simps)
  moreover have "[''config.yaml''] = concat (map (\<lambda>e. filter kept (Split (CHR ''/'') e)) [''/config.yaml''])"
    by (simp add: parts kept_def del: Split.simps)
  ultimately have "HasPrefix f (rooted (butlast (bs @ [''config.yaml''])) @ ''/'')"
    by (rule SafeFileName_rooted(3)[OF assms(1,4,2)])
  then show ?thesis by simp
qed

lemma Validate_None: "Validate ty chk = Ret None \<longleftrightarrow> chk = StructValid"
  by (cases chk) (simp_all add: Validate_def)

lemma Validate_Valid [simp]: "Validate ty StructValid = Ret None"
  by (simp add: Validate_def)

lemma Load_Inr:
  "Load su dir elems = Ret (Inr conf) \<longleftrightarrow>
     (\<exists>f content cf. SafeFileName (su_cwd su) (su_EvalSymlinks su) dir elems = Inr f \<and> su_Open su f = Inr content \<and>
        su_DecodeConfig su content = Inr cf \<and> decode_config (su_lib su) cf = Ret (Inr conf) \<and>
        su_CheckConfig su conf = StructValid)"
  by (auto simp: Load_def Config_validate_def Validate_None split: sum.split sum.split_asm option.split_asm)

lemma map_sum_Inr: "map_sum id f x = Inr z \<longleftrightarrow> (\<exists>y. x = Inr y \<and> z = f y)"
  by (cases x) auto

text \<open>The validators of a decoded configuration are loaded ones.\<close>

lemma decode_validators_loaded:
  "decode_validators lib ys = Ret (Inr vs) \<Longrightarrow> list_all2 (\<lambda>y v. loaded lib (vy_Specific y) v) ys vs"
proof (induction lib ys arbitrary: vs rule: decode_validators.induct)
  case (2 lib y ys)
  from 2(2) obtain v vs' where v: "Validator_UnmarshalYAML (vy_Data y) (load_specific lib (vy_Specific y)) = Ret (Inr v)"
    and vs': "decode_validators lib ys = Ret (Inr vs')" "vs = v # vs'"
    by (auto simp: map_sum_Inr split: sum.split_asm)
  have "list_all2 (\<lambda>y v. loaded lib (vy_Specific y) v) ys vs'" by (rule 2(1)[OF vs'(1)])
  with v vs'(2) show ?case unfolding loaded_def by auto
qed simp

lemma decode_config_loaded:
  assumes "decode_config lib cf = Ret (Inr conf)" and "rt_Config rt = conf"
  shows "config_loaded lib rt"
proof -
  have "decode_validators lib (cf_Validators cf) = Ret (Inr (Validators conf))"
    using assms(1) by (auto simp: decode_config_def map_sum_Inr)
  note all = list_all2_in2[OF decode_validators_loaded[OF this]]
  show ?thesis
    unfolding config_loaded_def assms(2) by (intro ballI) (drule all, elim bexE, rule exI)
qed

lemma LoadConfig_Inr:
  "LoadConfig su dir elems = Ret (Inr alerting) \<longleftrightarrow>
     (\<exists>f content ay. SafeFileName (su_cwd su) (su_EvalSymlinks su) dir elems = Inr f \<and> su_Open su f = Inr content \<and>
        su_DecodeAlerts su content = Inr ay \<and> decode_alerts ay = Ret (Inr alerting) \<and>
        su_CheckAlerts su alerting = StructValid)"
  by (auto simp: LoadConfig_def AlertConfig_validate_def Validate_None split: sum.split sum.split_asm option.split_asm)

subsection \<open>The names of the channels\<close>

definition named :: "nat \<Rightarrow> Channel \<Rightarrow> Channel" where
  "named idx s = s\<lparr>ChannelName := TemplateFile s @ ''-'' @ decimal idx\<rparr>"

lemma name_channels_Ret:
  "name_channels idx chs = Ret ss \<longleftrightarrow> None \<notin> set chs \<and> ss = map2 named [idx..<idx + length chs] (map the chs)"
proof (induction idx chs arbitrary: ss rule: name_channels.induct)
  case (3 idx s chs)
  have "[idx..<idx + length (Some s # chs)] = idx # [Suc idx..<Suc idx + length chs]" by (subst upt_conv_Cons) simp_all
  with 3 show ?case by (auto simp: named_def simp del: upt_Suc)
qed (auto simp: upt_conv_Cons)

lemma name_channels_panics: "panics (name_channels idx chs) \<longleftrightarrow> None \<in> set chs"
  using name_channels_Ret [of idx chs] by (auto simp: panics_iff)

text \<open>The index can be read off the name, whatever the name of the template.\<close>

lemma channel_name_index:
  assumes "t @ CHR ''-'' # decimal i = t' @ CHR ''-'' # decimal j"
  shows "i = j"
proof -
  have last: "takeWhile (\<lambda>c. c \<noteq> CHR ''-'') (rev (t @ CHR ''-'' # decimal i)) = rev (decimal i)" for t i
    using decimal_no_dash [of i] by (auto intro: takeWhile_append2 [THEN trans])
  show ?thesis using last [of t i] last [of t' j] assms by (metis decimal_inject rev_is_rev_conv)
qed

lemma named_distinct: "distinct (map ChannelName (map2 named [idx..<idx + length chs] chs))"
proof -
  have "ChannelName (map2 named [idx..<idx + length chs] chs ! i) =
      TemplateFile (chs ! i) @ ''-'' @ decimal (idx + i)" if "i < length chs" for i
    using that by (simp add: named_def)
  then show ?thesis
    unfolding distinct_conv_nth by (auto dest!: channel_name_index)
qed

text \<open>A Redis cache on a server that keeps the contract, as a fact of the locale.\<close>

context redis_server
begin

lemma contract: "cache_contract (Redis_Cacher (NewRedis client d))"
  by unfold_locales

end

text \<open>The served runtime.\<close>

lemma main_Ret:
  "main su e = Ret srv \<longleftrightarrow>
     (\<exists>config alerting cache. Load su ConfigDir [''/config.yaml''] = Ret (Inr config) \<and>
        LoadConfig su AlertDir [''/config.yaml''] = Ret (Inr alerting) \<and>
        start_cache su (e(''SIGSTORE_NO_CACHE'' \<mapsto> ''1'')) = Ret cache \<and> su_Listen su = None \<and>
        srv = \<lparr>srv_Addr = '':5000'', srv_Timeout = HTTPTimeoutSeconds,
          srv_Routes = [(''/health'', HealthRoute), (''/ready'', HealthRoute), (''/mutate'', MutateRoute),
                        (''/metrics'', MetricsRoute)],
          srv_Runtime = server_runtime su (e(''SIGSTORE_NO_CACHE'' \<mapsto> ''1'')) config cache, srv_Alerting = alerting\<rparr>)"
  by (auto simp: main_def Let_def loadConfigs_def startServer_def split: sum.split_asm option.split_asm)

lemma server_runtime_Some:
  assumes "server_runtime su e config cache = Some rt"
  shows "rt_Config rt = config \<and> rt_Cache rt = cache \<and> rt_Env rt = e \<and> rt_parse rt = su_parse su \<and>
    (rt_KubeAPI rt \<noteq> None \<longrightarrow> FeatureFlagOn e AutomaticChildApproval)"
  using assms by (auto simp: server_runtime_def Let_def kube_api_def split: kube_value.split_asm if_split_asm sum.split_asm)

lemma start_cache_Ret:
  "start_cache su e = Ret cache \<longleftrightarrow>
     (if expiry_seconds e \<le> 0 then cache = EmptyCache
      else \<exists>opts. redis_client_options su e = Ret opts \<and>
        cache = Redis_Cacher (NewRedis (su_NewRedisClient su opts) (seconds_duration (expiry_seconds e))))"
  by (auto simp: start_cache_def NewCacher_def Let_def)

lemma redis_client_options_Ret:
  "redis_client_options su e = Ret opts \<longleftrightarrow>
     (\<exists>cert. su_ReadFile su ''/app/redis-certs/tls.crt'' = Inr cert \<and> su_CertsFromPEM su cert \<and>
        opts = \<lparr>rd_Addr = Getenv e ''REDIS_HOST'' @ '':6379'', rd_Password = Getenv e ''REDIS_PASSWORD'', rd_RootCAs = cert\<rparr>)"
proof -
  have "char_of (54 :: nat) = CHR ''6''" "char_of (51 :: nat) = CHR ''3''" "char_of (55 :: nat) = CHR ''7''"
    "char_of (57 :: nat) = CHR ''9''" by code_simp+
  then have "decimal 6379 = ''6379''" by (simp add: decimal.simps digit_char_def)
  then show ?thesis by (auto simp: redis_client_options_def split: sum.split)
qed

subsection \<open>Credentials without a registry\<close>

lemma default_auth_file:
  assumes "readDefaultAuthFile ax f = Inr cfgs" and "au_ReadFile ax f = Inr bytes" and "au_Unmarshal ax bytes = Inr af"
    and "af_Registry af = []"
  shows "cfgs = [(EmptyAuthRegistry, \<lparr>ae_Username = af_Username af, ae_Password = af_Password af\<rparr>)]"
  using assms by (simp add: readDefaultAuthFile_def NewRegistryRepo_def RegistryRepo_String_def)

lemma rekey_single:
  assumes "rekey_auth nx host a = Inr a'" and "AuthConfigs a = [(EmptyAuthRegistry, v)]"
  shows "\<exists>rr. NewRegistryRepo (nx_newRegistry nx) (nx_newRepository nx) host = Inr rr \<and>
    AuthConfigs a' = [(RegistryRepo_String rr, v)]"
  using assms by (auto simp: rekey_auth_def split: sum.split_asm)

section \<open>An example\<close>

definition example_channel :: "string \<Rightarrow> Channel" where
  "example_channel t = \<lparr>ChannelName = [], ch_URL = ''https://alerts'', ch_Priority = None, PayloadFields = [],
     Headers = [], TemplateFile = t, Fail = False\<rparr>"

definition example_su :: "(store, string, string, string) start_ext" where
  "example_su = \<lparr>su_cwd = Inr ''/'', su_EvalSymlinks = Inr, su_Open = Inr, su_ReadFile = Inr,
     su_DecodeConfig = \<lambda>s. Inr \<lparr>cf_Validators = [\<lparr>vy_Data = Inr [''name'' \<mapsto> YString ''default'', ''type'' \<mapsto> YString ''static''],
       vy_Specific = static_yaml\<rparr>], cf_Rules = Rules (rt_Config allow_runtime)\<rparr>, su_lib = example_lib, su_CheckConfig = \<lambda>c. StructValid,
     su_DecodeAlerts = \<lambda>s. Inr \<lparr>ay_ClusterId = [], ay_AdmitRequest = None,
       ay_RejectRequest = Some (Inr [Some (example_channel ''slack'')])\<rparr>,
     su_CheckAlerts = \<lambda>a. StructValid, su_Quote = id, su_CertsFromPEM = \<lambda>s. True,
     su_NewRedisClient = \<lambda>opts. store_client, su_InClusterConfig = Inl ''not in a cluster'',
     su_NewForConfig = \<lambda>c. Inl [], su_Listen = None,
     su_parse = rt_parse allow_runtime, su_glob = rt_glob allow_runtime, su_decode = rt_decode allow_runtime\<rparr>"

lemma example_config:
  "decode_config example_lib \<lparr>cf_Validators = [\<lparr>vy_Data = Inr [''name'' \<mapsto> YString ''default'', ''type'' \<mapsto> YString ''static''],
     vy_Specific = static_yaml\<rparr>], cf_Rules = Rules (rt_Config allow_runtime)\<rparr> = Ret (Inr (rt_Config allow_runtime))"
  by (simp add: decode_config_def Validator_UnmarshalYAML_def load_specific_def static_yaml_def allow_runtime_def
      allow_all_def example_runtime_def)

lemma example_main: "\<exists>srv rt. main example_su Map.empty = Ret srv \<and> srv_Runtime srv = Some rt"
proof -
  have f: "SafeFileName (Inr ''/'') Inr ConfigDir [''/config.yaml''] = Inr ''/app/config/config.yaml''"
    "SafeFileName (Inr ''/'') Inr AlertDir [''/config.yaml''] = Inr ''/app/alerts/config.yaml''" by code_simp+
  have "Load example_su ConfigDir [''/config.yaml''] = Ret (Inr (rt_Config allow_runtime))"
    using example_config by (simp add: Load_Inr f example_su_def)
  moreover have "\<exists>al. LoadConfig example_su AlertDir [''/config.yaml''] = Ret (Inr al)"
    by (simp add: LoadConfig_Inr f example_su_def decode_alerts_def decode_receivers_def RequestSender_UnmarshalYAML_def)
  moreover have "\<exists>cache. start_cache example_su (Map.empty(''SIGSTORE_NO_CACHE'' \<mapsto> ''1'')) = Ret cache"
    by (simp add: start_cache_def redis_client_options_def example_su_def)
  moreover have "\<exists>rt. server_runtime example_su e config cache = Some rt" for e config cache
    by (simp add: server_runtime_def kube_api_def example_su_def Let_def)
  ultimately show ?thesis by (auto simp: main_Ret example_su_def)
qed

section \<open>Properties\<close>

text \<open>
  C22 (type). Only checked configurations are served: if the program starts, the configuration that the validation
  handler reads comes from a file below \<open>/app/config\<close> and the alerting from one below \<open>/app/alerts\<close>,
  symbolic links included, both decoded, with each validator loaded by its own decoder, and with valid struct tags.
\<close>
theorem main_serves_checked:
  assumes "main su e = Ret srv" and "srv_Runtime srv = Some rt"
  shows "(\<exists>f content. HasPrefix f ''/app/config/'' \<and> su_Open su f = Inr content \<and>
      (\<exists>cf. su_DecodeConfig su content = Inr cf \<and> decode_config (su_lib su) cf = Ret (Inr (rt_Config rt))) \<and>
      su_CheckConfig su (rt_Config rt) = StructValid) \<and>
    (\<exists>f content ay. HasPrefix f ''/app/alerts/'' \<and> su_Open su f = Inr content \<and>
      su_DecodeAlerts su content = Inr ay \<and> decode_alerts ay = Ret (Inr (srv_Alerting srv)) \<and>
      su_CheckAlerts su (srv_Alerting srv) = StructValid)"
proof -
  obtain config alerting cache where m: "Load su ConfigDir [''/config.yaml''] = Ret (Inr config)"
    "LoadConfig su AlertDir [''/config.yaml''] = Ret (Inr alerting)"
    and srv: "srv_Alerting srv = alerting"
    "srv_Runtime srv = server_runtime su (e(''SIGSTORE_NO_CACHE'' \<mapsto> ''1'')) config cache"
    using assms(1) unfolding main_Ret by force
  have config: "rt_Config rt = config" using server_runtime_Some assms(2) srv(2) by metis
  have dirs: "ConfigDir = rooted [''app'', ''config'']" "AlertDir = rooted [''app'', ''alerts'']" by code_simp+
  have abs: "Abs cwd (rooted [''app'', ''config'']) = Inr (rooted [''app'', ''config''])"
    "Abs cwd (rooted [''app'', ''alerts'']) = Inr (rooted [''app'', ''alerts''])" for cwd
    by (simp_all add: Abs_def rooted_def) code_simp+
  have plain: "list_all plain [''app'', ''config'']" "list_all plain [''app'', ''alerts'']" by code_simp+
  have below: "HasPrefix f (ConfigDir @ ''/'')" if "SafeFileName (su_cwd su) (su_EvalSymlinks su) ConfigDir [''/config.yaml''] = Inr f" for f
    using config_file_below[OF that[unfolded dirs(1)] plain(1) _ abs(1)] unfolding dirs(1)[symmetric] by simp
  have below': "HasPrefix f (AlertDir @ ''/'')" if "SafeFileName (su_cwd su) (su_EvalSymlinks su) AlertDir [''/config.yaml''] = Inr f" for f
    using config_file_below[OF that[unfolded dirs(2)] plain(2) _ abs(2)] unfolding dirs(2)[symmetric] by simp
  obtain f content cf where f: "HasPrefix f (ConfigDir @ ''/'')" "su_Open su f = Inr content"
    "su_DecodeConfig su content = Inr cf" "decode_config (su_lib su) cf = Ret (Inr config)" "su_CheckConfig su config = StructValid"
    using m(1) below unfolding Load_Inr by blast
  obtain f' content' ay where f': "HasPrefix f' (AlertDir @ ''/'')" "su_Open su f' = Inr content'"
    "su_DecodeAlerts su content' = Inr ay" "decode_alerts ay = Ret (Inr alerting)" "su_CheckAlerts su alerting = StructValid"
    using m(2) below' unfolding LoadConfig_Inr by blast
  have slash: "ConfigDir @ ''/'' = ''/app/config/''" "AlertDir @ ''/'' = ''/app/alerts/''" by simp_all
  have "\<exists>f content. HasPrefix f ''/app/config/'' \<and> su_Open su f = Inr content \<and>
      (\<exists>cf. su_DecodeConfig su content = Inr cf \<and> decode_config (su_lib su) cf = Ret (Inr config)) \<and>
      su_CheckConfig su config = StructValid"
    using f unfolding slash by blast
  moreover have "\<exists>f content ay. HasPrefix f ''/app/alerts/'' \<and> su_Open su f = Inr content \<and>
      su_DecodeAlerts su content = Inr ay \<and> decode_alerts ay = Ret (Inr alerting) \<and> su_CheckAlerts su alerting = StructValid"
    using f' unfolding slash by blast
  ultimately show ?thesis unfolding srv(1) config by (rule conjI)
qed

theorem main_serves_checked_witness:
  "\<exists>srv rt. main example_su Map.empty = Ret srv \<and> srv_Runtime srv = Some rt \<and>
     su_CheckConfig example_su (rt_Config rt) = StructValid"
proof -
  obtain srv rt where m: "main example_su Map.empty = Ret srv" "srv_Runtime srv = Some rt" using example_main by blast
  from main_serves_checked[OF m] have "su_CheckConfig example_su (rt_Config rt) = StructValid" by (elim conjE exE)
  with m show ?thesis by blast
qed

text \<open>
  C21 (refinement). The program that starts serves a runtime that meets the hypotheses of the admission theorems. The
  validators that the handlers use are loaded ones: each was decoded from the configuration file by the decoder of
  its type. For an expiry of 0 or less the cache is off, otherwise it is the Redis cache with this
  expiry at the host, with the password and the certificate of the deployment; it keeps the cache contract if the Redis
  server at that address does. The Kubernetes client is there exactly if automatic child approval
  is on and the client could be set up.
\<close>
theorem main_runtime_contracts:
  assumes "main su e = Ret srv" and "srv_Runtime srv = Some rt"
    and redis: "\<And>opts. rd_Addr opts = Getenv e ''REDIS_HOST'' @ '':6379'' \<Longrightarrow> redis_server (su_NewRedisClient su opts)"
  shows "config_loaded (su_lib su) rt \<and> validators_ok rt \<and> cache_contract (rt_Cache rt) \<and>
    (if expiry_seconds e \<le> 0 then rt_Cache rt = EmptyCache
     else \<exists>cert. su_ReadFile su ''/app/redis-certs/tls.crt'' = Inr cert \<and> su_CertsFromPEM su cert \<and>
       rt_Cache rt = Redis_Cacher (NewRedis (su_NewRedisClient su
         \<lparr>rd_Addr = Getenv e ''REDIS_HOST'' @ '':6379'', rd_Password = Getenv e ''REDIS_PASSWORD'', rd_RootCAs = cert\<rparr>)
         (seconds_duration (expiry_seconds e)))) \<and>
    (\<forall>c. rt_KubeAPI rt = Some c \<longleftrightarrow> FeatureFlagOn e AutomaticChildApproval \<and>
      (\<exists>cfg. su_InClusterConfig su = Inr cfg \<and> su_NewForConfig su cfg = Inr c))"
proof -
  let ?e = "e(''SIGSTORE_NO_CACHE'' \<mapsto> ''1'')"
  obtain config alerting cache where load: "Load su ConfigDir [''/config.yaml''] = Ret (Inr config)"
    and c: "start_cache su ?e = Ret cache" and rt: "server_runtime su ?e config cache = Some rt"
    using assms(1,2) unfolding main_Ret by force
  note fields = server_runtime_Some[OF rt]
  have env: "expiry_seconds ?e = expiry_seconds e" "Getenv ?e ''REDIS_HOST'' = Getenv e ''REDIS_HOST''"
    "Getenv ?e ''REDIS_PASSWORD'' = Getenv e ''REDIS_PASSWORD''"
    "FeatureFlagOn ?e AutomaticChildApproval = FeatureFlagOn e AutomaticChildApproval"
    by (simp_all add: expiry_seconds_def Getenv_def FeatureFlagOn_def)
  have loaded: "config_loaded (su_lib su) rt"
    using load fields decode_config_loaded unfolding Load_Inr by blast
  note cache = c[unfolded start_cache_Ret redis_client_options_Ret env]
  have "cache_contract (rt_Cache rt)"
  proof (cases "expiry_seconds e \<le> 0")
    case True
    with cache fields empty_cache.cache_contract_axioms show ?thesis by simp
  next
    case False
    with cache fields redis_server.contract[OF redis] show ?thesis by auto
  qed
  moreover have "\<forall>c. rt_KubeAPI rt = Some c \<longleftrightarrow> FeatureFlagOn e AutomaticChildApproval \<and>
      (\<exists>cfg. su_InClusterConfig su = Inr cfg \<and> su_NewForConfig su cfg = Inr c)"
    using rt unfolding server_runtime_def kube_api_def env Let_def by (auto split: if_split_asm sum.split_asm)
  ultimately show ?thesis using loaded config_loaded_ok[OF loaded] cache fields by (auto split: if_splits)
qed

theorem main_runtime_contracts_witness:
  "\<exists>srv rt. main example_su Map.empty = Ret srv \<and> srv_Runtime srv = Some rt \<and> validators_ok rt \<and>
     rt_Cache rt = Redis_Cacher (NewRedis store_client (seconds_duration 30))"
proof -
  obtain srv rt where m: "main example_su Map.empty = Ret srv" "srv_Runtime srv = Some rt" using example_main by blast
  have "redis_server (su_NewRedisClient example_su opts)" for opts
    by (simp add: example_su_def store_server.redis_server_axioms)
  moreover have "expiry_seconds Map.empty = 30" "su_NewRedisClient example_su opts = store_client" for opts
    by (simp_all add: expiry_seconds_def example_su_def)
  ultimately have "validators_ok rt" "rt_Cache rt = Redis_Cacher (NewRedis store_client (seconds_duration 30))"
    using main_runtime_contracts[OF m] by auto
  with m show ?thesis by blast
qed

text \<open>
  The receivers of an alert get distinct names, in their order, from the template and the position in
  the list, and keep everything else; the loading panics exactly if the list has a null entry.
\<close>
theorem RequestSender_names:
  "panics (RequestSender_UnmarshalYAML (Inr chs)) \<and> None \<in> set chs \<or>
   None \<notin> set chs \<and> (\<exists>ss. RequestSender_UnmarshalYAML (Inr chs) = Ret (Inr ss) \<and>
     length ss = length chs \<and> distinct (map ChannelName ss) \<and>
     map (\<lambda>s. s\<lparr>ChannelName := []\<rparr>) ss = map (\<lambda>s. (the s)\<lparr>ChannelName := []\<rparr>) chs)"
proof (cases "None \<in> set chs")
  case True
  then show ?thesis using name_channels_panics[of 0 chs] by (cases "name_channels 0 chs") (auto simp: RequestSender_UnmarshalYAML_def)
next
  case False
  let ?ss = "map2 named [0..<0 + length (map the chs)] (map the chs)"
  have "name_channels 0 chs = Ret ?ss" using False by (simp add: name_channels_Ret)
  then have "RequestSender_UnmarshalYAML (Inr chs) = Ret (Inr ?ss)" by (simp add: RequestSender_UnmarshalYAML_def)
  moreover have "map (\<lambda>s. s\<lparr>ChannelName := []\<rparr>) ?ss = map (\<lambda>s. (the s)\<lparr>ChannelName := []\<rparr>) chs"
    by (rule nth_equalityI) (simp_all add: named_def)
  ultimately show ?thesis using False named_distinct[of 0 "map the chs"] by (intro disjI2 conjI exI[of _ ?ss]) simp_all
qed

text \<open>
  C25 (functional). Credentials without a registry are those of the Notary: if the secret of a Notary v1 validator is a
  credential file that names no registry, the configured validator authenticates with the user and
  the password of the file at its own host, whatever way the host is given.
\<close>
theorem notary_default_credentials:
  assumes "readDefaultAuthFile ax f = Inr (AuthConfigs (nv_Auth y))" and "au_ReadFile ax f = Inr bytes"
    and "au_Unmarshal ax bytes = Inr af" and "af_Registry af = []"
    and "NotaryV1Validator_UnmarshalYAML nx (Inr y) = Inr nv"
    and "NewRegistryRepo (nx_newRegistry nx) (nx_newRepository nx) (nv_Host nv) = Inr rr" and "RegistryRepo_String rr \<noteq> []"
  shows "buildAuthTransport nx base (nv_Host nv) (nv_Auth nv) img ch =
    Ret \<lparr>tp_obj = nx_AuthTransport nx base (af_Username af, af_Password af) [] img ch,
         tp_creds = Some \<lparr>scs_Username = af_Username af, scs_Password = af_Password af, scs_IdentityToken = []\<rparr>\<rparr>"
proof -
  let ?v = "\<lparr>ae_Username = af_Username af, ae_Password = af_Password af\<rparr>"
  obtain host a where nv: "rekey_auth nx host (nv_Auth y) = Inr a" "nv_Host nv = host" "nv_Auth nv = a"
    using assms(5) by (auto simp: NotaryV1Validator_UnmarshalYAML_def split: if_split_asm sum.split_asm)
  have "AuthConfigs (nv_Auth nv) = [(RegistryRepo_String rr, ?v)]"
    using rekey_single[OF nv(1) default_auth_file[OF assms(1-4)]] nv(2,3) assms(6) by auto
  then have "LookUp (nv_Auth nv) (RegistryRepo_String rr) = ?v"
    using assms(7) by (intro LookUp_longest) (auto simp: HasPrefix_prefix split: if_split_asm)
  then show ?thesis using assms(6) by (simp add: buildAuthTransport_def Let_def Basic_def RefreshToken_def)
qed

theorem notary_default_credentials_witness:
  "buildAuthTransport ((example_nx [])\<lparr>nx_AuthTransport := \<lambda>t a token repo ch. fst a @ '':'' @ snd a\<rparr>) ''base'' ''https://notary''
     \<lparr>AuthConfigs = [(''notary'', \<lparr>ae_Username = ''u'', ae_Password = ''p''\<rparr>)], UseKeychain = False\<rparr> ''reg/img'' ''ch'' =
     Ret \<lparr>tp_obj = ''u:p'', tp_creds = Some \<lparr>scs_Username = ''u'', scs_Password = ''p'', scs_IdentityToken = []\<rparr>\<rparr>"
proof -
  let ?nx = "(example_nx [])\<lparr>nx_AuthTransport := \<lambda>t a token repo ch. fst a @ '':'' @ snd a\<rparr>"
  let ?v = "\<lparr>ae_Username = ''u'', ae_Password = ''p''\<rparr>"
  let ?y = "example_nv\<lparr>nv_Auth := \<lparr>AuthConfigs = [(EmptyAuthRegistry, ?v)], UseKeychain = False\<rparr>\<rparr>"
  let ?nv = "example_nv\<lparr>nv_Auth := \<lparr>AuthConfigs = [(''notary'', ?v)], UseKeychain = False\<rparr>\<rparr>"
  have r: "readDefaultAuthFile example_ax ''f'' = Inr (AuthConfigs (nv_Auth ?y))" by code_simp
  have u: "NotaryV1Validator_UnmarshalYAML ?nx (Inr ?y) = Inr ?nv" by code_simp
  have h: "NewRegistryRepo (nx_newRegistry ?nx) (nx_newRepository ?nx) (nv_Host ?nv) =
      Inr \<lparr>rr_original = ''https://notary'', rr_registry = ''notary'', rr_repo = []\<rparr>" by code_simp
  have "au_ReadFile example_ax ''f'' = Inr ''f''"
    "au_Unmarshal example_ax ''f'' = Inr \<lparr>af_Username = ''u'', af_Password = ''p'', af_Registry = []\<rparr>"
    by (simp_all add: example_ax_def)
  from notary_default_credentials[OF r this _ u h, of "''base''" "''reg/img''" "''ch''"] show ?thesis
    by (simp add: RegistryRepo_String_def example_nv_def)
qed

end
