(* ===== verification/Testdata_Tool.thy ===== *)
theory Testdata_Tool
  imports Go_Prelude
begin

text \<open>
  The command line tool that prepares test data for the Notary v1 validator
  (\<open>tools/nv1_testdata_creator/main.go\<close>): it signs a trust data file, hashes it, or prints the identifier
  of a key. Command line parsing (cobra), the TUF types, JSON and ASN.1 decoding, and the cryptography are the
  record \<open>tool_ext\<close>; the randomness of a signature is part of its function \<open>te_Sign\<close>. A run of the tool is the
  text that it prints, or a panic. Base64 and the bytes of a big integer are defined here.
\<close>

section \<open>Base64 and big integers\<close>

definition base64_alphabet :: string where
  "base64_alphabet = ''ABCDEFGHIJKLMNOPQRSTUVWXYZabcdefghijklmnopqrstuvwxyz0123456789+/''"

definition base64_char :: "nat \<Rightarrow> char" where
  "base64_char n = base64_alphabet ! n"

text \<open>\<open>base64.StdEncoding.EncodeToString\<close>: groups of three bytes, the last one padded.\<close>

fun base64_groups :: "nat list \<Rightarrow> string" where
  "base64_groups [] = []"
| "base64_groups [a] = [base64_char (a div 4), base64_char (a mod 4 * 16), CHR ''='', CHR ''='']"
| "base64_groups [a, b] =
    [base64_char (a div 4), base64_char (a mod 4 * 16 + b div 16), base64_char (b mod 16 * 4), CHR ''='']"
| "base64_groups (a # b # c # s) =
    [base64_char (a div 4), base64_char (a mod 4 * 16 + b div 16), base64_char (b mod 16 * 4 + c div 64),
     base64_char (c mod 64)] @ base64_groups s"

definition base64 :: "string \<Rightarrow> string" where
  "base64 s = base64_groups (map of_char s)"

text \<open>\<open>big.Int.Bytes\<close>: the absolute value in big-endian order, without leading zeros.\<close>

fun nat_bytes :: "nat \<Rightarrow> string" where
  "nat_bytes n = (if n = 0 then [] else nat_bytes (n div 256) @ [char_of (n mod 256)])"

declare nat_bytes.simps [simp del]

definition Int_Bytes :: "int \<Rightarrow> string" where
  "Int_Bytes i = nat_bytes (nat \<bar>i\<bar>)"

text \<open>\<open>make([]byte, n, cap)\<close>: zero bytes; a negative length or one above the capacity panics.\<close>

definition make_bytes :: "int \<Rightarrow> int \<Rightarrow> string go" where
  "make_bytes n cap = (if n < 0 \<or> n > cap then Panic ''makeslice: len out of range''
     else Ret (replicate (nat n) (char_of (0 :: nat))))"

section \<open>The commands\<close>

record cobra_flag =
  cf_Name :: string
  cf_Required :: bool

record TUFKey =
  tk_Type :: string
  tk_Public :: string

record ecdsaSig =
  es_R :: int
  es_S :: int

record ('d, 's, 'k) tool_ext =
  te_Execute :: "(string \<times> cobra_flag list) list \<Rightarrow> (string \<times> (string \<Rightarrow> string)) option"
  te_ReadFile :: "string \<Rightarrow> string res"
  te_Unmarshal :: "string \<Rightarrow> 'd res"
  te_Signed :: "'d \<Rightarrow> 's"
  te_MarshalCanonical :: "'s \<Rightarrow> string res"
  te_Marshal :: "'d \<Rightarrow> string res"
  te_Sum256 :: "string \<Rightarrow> string"
  te_Sum512 :: "string \<Rightarrow> string"
  te_PemDecode :: "string \<Rightarrow> string option"
  te_ParseECPrivateKey :: "string \<Rightarrow> 'k res"
  te_BitSize :: "'k \<Rightarrow> int"
  te_Sign :: "'k \<Rightarrow> string \<Rightarrow> string res"
  te_Asn1 :: "string \<Rightarrow> ecdsaSig res"
  te_ID :: "TUFKey \<Rightarrow> string"

definition or_panic :: "'a res \<Rightarrow> 'a go" where
  "or_panic r = (case r of Inl err \<Rightarrow> Panic err | Inr x \<Rightarrow> Ret x)"

definition loadFile :: "('d, 's, 'k) tool_ext \<Rightarrow> string \<Rightarrow> bool \<Rightarrow> string go" where
  "loadFile te path signedOnly =
    go_bind (or_panic (te_ReadFile te path)) (\<lambda>file_bytes.
    go_bind (or_panic (te_Unmarshal te file_bytes)) (\<lambda>d.
    or_panic (if signedOnly then te_MarshalCanonical te (te_Signed te d) else te_Marshal te d)))"

definition loadKey :: "('d, 's, 'k) tool_ext \<Rightarrow> string \<Rightarrow> string go" where
  "loadKey te keyPath = or_panic (te_ReadFile te keyPath)"

text \<open>The octet length of a curve, \<open>(BitSize + 7) >> 3\<close>.\<close>

definition octetLength :: "int \<Rightarrow> int" where
  "octetLength bits = drop_bit 3 (bits + 7)"

text \<open>The two numbers of a signature, each with leading zeros up to the octet length.\<close>

definition fixed_width :: "int \<Rightarrow> ecdsaSig \<Rightarrow> string go" where
  "fixed_width len sig = (let rBytes = Int_Bytes (es_R sig); sBytes = Int_Bytes (es_S sig) in
    go_bind (make_bytes (len - int (length rBytes)) len) (\<lambda>rBuf.
    go_bind (make_bytes (len - int (length sBytes)) len) (\<lambda>sBuf.
    Ret ((rBuf @ rBytes) @ (sBuf @ sBytes)))))"

definition sign :: "('d, 's, 'k) tool_ext \<Rightarrow> string \<Rightarrow> string \<Rightarrow> string res go" where
  "sign te key msg = (let hashed = te_Sum256 te msg in
    case te_PemDecode te key of
      None \<Rightarrow> Panic ''nil pointer dereference''
    | Some block \<Rightarrow> go_bind (or_panic (te_ParseECPrivateKey te block)) (\<lambda>priv.
        case te_Sign te priv hashed of
          Inl err \<Rightarrow> Ret (Inl err)
        | Inr sigASN1 \<Rightarrow> (case te_Asn1 te sigASN1 of
              Inl err \<Rightarrow> Ret (Inl err)
            | Inr sig \<Rightarrow> go_bind (fixed_width (octetLength (te_BitSize te priv)) sig) (\<lambda>b. Ret (Inr b)))))"

definition signFunc :: "('d, 's, 'k) tool_ext \<Rightarrow> string \<Rightarrow> string \<Rightarrow> string go" where
  "signFunc te fileArg keyArg =
    go_bind (loadFile te fileArg True) (\<lambda>msg.
    go_bind (loadKey te keyArg) (\<lambda>key.
    go_bind (sign te key msg) (\<lambda>r.
    go_bind (or_panic r) (\<lambda>sig.
    Ret (''signature: '' @ base64 sig @ [CHR 0x0A])))))"

definition hashFunc :: "('d, 's, 'k) tool_ext \<Rightarrow> string \<Rightarrow> string go" where
  "hashFunc te fileArg =
    go_bind (loadFile te fileArg False) (\<lambda>msg.
    Ret (concat (map (\<lambda>(algo, h). algo @ '': '' @ base64 (h msg) @ [CHR 0x0A])
      [(''sha256'', te_Sum256 te), (''sha512'', te_Sum512 te)])))"

definition keyIDFunc :: "('d, 's, 'k) tool_ext \<Rightarrow> string \<Rightarrow> string go" where
  "keyIDFunc te keyArg =
    go_bind (loadKey te keyArg) (\<lambda>key.
    go_bind (if HasSuffix keyArg ''.crt'' then Ret (base64 key, ''ecdsa-x509'')
       else case te_PemDecode te key of
         None \<Rightarrow> Panic ''nil pointer dereference''
       | Some block \<Rightarrow> Ret (block, ''ecdsa'')) (\<lambda>(key_bytes, key_algo).
    let tufKey = \<lparr>tk_Type = key_algo, tk_Public = key_bytes\<rparr> in
    Ret (''keyid: '' @ te_ID te tufKey @ [CHR 0x0A] @ ''key: '' @ key_bytes @ [CHR 0x0A])))"

text \<open>The commands that \<open>init\<close> registers with their flags, and the dispatch of \<open>Execute\<close> to them. \<open>main\<close>
  ignores the error of a command line that does not parse.\<close>

definition tool_commands :: "(string \<times> cobra_flag list) list" where
  "tool_commands =
    [(''sign'', [\<lparr>cf_Name = ''file'', cf_Required = True\<rparr>, \<lparr>cf_Name = ''key'', cf_Required = True\<rparr>]),
     (''hash'', [\<lparr>cf_Name = ''file'', cf_Required = False\<rparr>]),
     (''keyid'', [\<lparr>cf_Name = ''key'', cf_Required = False\<rparr>])]"

definition run_command :: "('d, 's, 'k) tool_ext \<Rightarrow> string \<Rightarrow> (string \<Rightarrow> string) \<Rightarrow> string go" where
  "run_command te cmd flags =
    (if cmd = ''sign'' then signFunc te (flags ''file'') (flags ''key'')
     else if cmd = ''hash'' then hashFunc te (flags ''file'')
     else if cmd = ''keyid'' then keyIDFunc te (flags ''key'')
     else Ret [])"

definition tool_main :: "('d, 's, 'k) tool_ext \<Rightarrow> string go" where
  "tool_main te = (case te_Execute te tool_commands of
      None \<Rightarrow> Ret [] | Some (cmd, flags) \<Rightarrow> run_command te cmd flags)"

section \<open>Reference decoders\<close>

definition base64_digit :: "char \<Rightarrow> nat" where
  "base64_digit c = length (takeWhile (\<lambda>x. x \<noteq> c) base64_alphabet)"

fun base64_decode :: "string \<Rightarrow> nat list" where
  "base64_decode (w # x # y # z # s) =
    (if y = CHR ''='' then [base64_digit w * 4 + base64_digit x div 16]
     else if z = CHR ''='' then [base64_digit w * 4 + base64_digit x div 16,
       base64_digit x mod 16 * 16 + base64_digit y div 4]
     else [base64_digit w * 4 + base64_digit x div 16, base64_digit x mod 16 * 16 + base64_digit y div 4,
       base64_digit y mod 4 * 64 + base64_digit z] @ base64_decode s)"
| "base64_decode _ = []"

text \<open>The number that a string of octets stands for, most significant octet first.\<close>

definition octets_value :: "string \<Rightarrow> nat" where
  "octets_value s = foldl (\<lambda>acc c. 256 * acc + of_char c) 0 s"

section \<open>Round trips\<close>

lemma or_panic_simps [simp]:
  "or_panic r = Ret x \<longleftrightarrow> r = Inr x" "panics (or_panic r) \<longleftrightarrow> (\<exists>e. r = Inl e)"
  by (auto simp: or_panic_def split: sum.split)

lemma base64_table:
  "list_all (\<lambda>n. base64_digit (base64_char n) = n \<and> base64_char n \<noteq> CHR ''='') [0..<64]"
  by code_simp

lemma base64_digit_char [simp]:
  assumes "n < 64"
  shows "base64_digit (base64_char n) = n" "base64_char n \<noteq> CHR ''=''"
  using base64_table assms by (simp_all add: list_all_iff)

lemma byte_parts:
  fixes a :: nat
  assumes "a < 256"
  shows "a div 4 < 64" "a div 16 < 16" "a div 64 < 4"
  using assms by linarith+

lemma sextets [simp]:
  fixes a b :: nat
  assumes "a < 256"
  shows "a div 4 < 64" "16 * (a mod 4) < 64" "4 * (a mod 16) < 64" "a mod 64 < 64"
    "16 * (b mod 4) + a div 16 < 64" "4 * (b mod 16) + a div 64 < 64"
  using assms by linarith+

lemma octets_of_sextets [simp]:
  fixes a b :: nat
  assumes "b < 256"
  shows "(16 * (a mod 4) + b div 16) div 16 = a mod 4" "(16 * (a mod 4) + b div 16) mod 16 = b div 16"
    "(4 * (a mod 16) + b div 64) div 4 = a mod 16" "(4 * (a mod 16) + b div 64) mod 4 = b div 64"
  using byte_parts[OF assms] by simp_all

lemma high_bits [simp]:
  fixes b :: nat
  assumes "b < 256"
  shows "b div 16 mod 16 = b div 16" "b div 16 div 16 = 0" "b div 64 mod 4 = b div 64" "b div 64 div 4 = 0"
  using byte_parts[OF assms] by simp_all

lemma base64_groups_decode: "list_all (\<lambda>a. a < 256) s \<Longrightarrow> base64_decode (base64_groups s) = s"
  by (induction s rule: base64_groups.induct) (simp_all add: mult.commute)

lemma base64_roundtrip: "map char_of (base64_decode (base64 s)) = s"
proof -
  have "base64_decode (base64 s) = map of_char s"
    unfolding base64_def by (rule base64_groups_decode) (simp add: list_all_iff)
  then show ?thesis by (simp add: comp_def)
qed

lemma octets_value_append [simp]:
  "octets_value (s @ [c]) = 256 * octets_value s + of_char c"
  by (simp add: octets_value_def)

lemma octets_value_zeros [simp]: "octets_value (replicate k (char_of (0 :: nat)) @ s) = octets_value s"
  by (induction k) (simp_all add: octets_value_def)

lemma octets_value_bytes [simp]: "octets_value (nat_bytes n) = n"
proof (induction n rule: nat_bytes.induct)
  case (1 n)
  then show ?case by (subst nat_bytes.simps) (simp add: octets_value_def)
qed

lemma nat_bytes_length: "length (nat_bytes n) \<le> k \<longleftrightarrow> n < 256 ^ k"
proof (induction n arbitrary: k rule: nat_bytes.induct)
  case (1 n)
  show ?case
  proof (cases "n = 0 \<or> k = 0")
    case True
    then show ?thesis by (subst nat_bytes.simps) auto
  next
    case False
    then obtain m where "k = Suc m" by (auto simp: gr0_conv_Suc)
    with False 1[of m] show ?thesis
      by (subst nat_bytes.simps) (simp add: div_less_iff_less_mult mult.commute)
  qed
qed

section \<open>The encoding of a signature\<close>

text \<open>The buffers of both numbers exist exactly when these fit into the octet length.\<close>

lemma fixed_width_panics:
  assumes "0 \<le> len"
  shows "panics (fixed_width len sig) \<longleftrightarrow>
    \<not> (nat \<bar>es_R sig\<bar> < 256 ^ nat len \<and> nat \<bar>es_S sig\<bar> < 256 ^ nat len)"
proof -
  have "len < int (length (nat_bytes n)) \<longleftrightarrow> \<not> n < 256 ^ nat len" for n
    using assms nat_bytes_length[of n "nat len"] by linarith
  then show ?thesis by (auto simp: fixed_width_def Int_Bytes_def make_bytes_def Let_def simp del: nat_less_iff)
qed

lemma padded:
  assumes "make_bytes (len - int (length s)) len = Ret buf"
  shows "length (buf @ s) = nat len" "octets_value (buf @ s) = octets_value s"
  using assms by (auto simp: make_bytes_def split: if_split_asm)

lemma fixed_width_parts:
  assumes "fixed_width len sig = Ret b"
  shows "length b = 2 * nat len" "octets_value (take (nat len) b) = nat \<bar>es_R sig\<bar>"
    "octets_value (drop (nat len) b) = nat \<bar>es_S sig\<bar>"
proof -
  obtain rBuf sBuf where "make_bytes (len - int (length (Int_Bytes (es_R sig)))) len = Ret rBuf"
    "make_bytes (len - int (length (Int_Bytes (es_S sig)))) len = Ret sBuf"
    and b: "b = (rBuf @ Int_Bytes (es_R sig)) @ (sBuf @ Int_Bytes (es_S sig))"
    using assms by (auto simp: fixed_width_def Let_def)
  note r = padded[OF this(1)] and s = padded[OF this(2)]
  show "length b = 2 * nat len" unfolding b length_append[of "rBuf @ _"] r(1) s(1) by simp
  have "take (nat len) b = rBuf @ Int_Bytes (es_R sig)" "drop (nat len) b = sBuf @ Int_Bytes (es_S sig)"
    using b r(1) by (metis append_eq_conv_conj)+
  then show "octets_value (take (nat len) b) = nat \<bar>es_R sig\<bar>" "octets_value (drop (nat len) b) = nat \<bar>es_S sig\<bar>"
    by (simp_all only: r(2) s(2)) (simp_all add: Int_Bytes_def)
qed

text \<open>
  A run of \<open>sign\<close> that prints a line prints the Base64 form of a signature of twice the octet
  length of the curve, whose halves are the two numbers that the key signed the hash of the file with.
\<close>

theorem signFunc_prints_signature:
  assumes "signFunc te path keyPath = Ret out"
  shows "\<exists>msg key block priv der sig line. loadFile te path True = Ret msg \<and> te_ReadFile te keyPath = Inr key \<and>
    te_PemDecode te key = Some block \<and> te_ParseECPrivateKey te block = Inr priv \<and>
    te_Sign te priv (te_Sum256 te msg) = Inr der \<and> te_Asn1 te der = Inr sig \<and>
    out = ''signature: '' @ line @ [CHR 0x0A] \<and>
    (let b = map char_of (base64_decode line); n = nat (octetLength (te_BitSize te priv)) in
      length b = 2 * n \<and> octets_value (take n b) = nat \<bar>es_R sig\<bar> \<and> octets_value (drop n b) = nat \<bar>es_S sig\<bar>)"
proof -
  obtain msg key b where m: "loadFile te path True = Ret msg" "te_ReadFile te keyPath = Inr key"
    "sign te key msg = Ret (Inr b)" "out = ''signature: '' @ base64 b @ [CHR 0x0A]"
    using assms by (auto simp: signFunc_def loadKey_def)
  from m(3) obtain block where block: "te_PemDecode te key = Some block"
    by (auto simp: sign_def split: option.split_asm)
  with m(3) obtain priv where priv: "te_ParseECPrivateKey te block = Inr priv"
    "(case te_Sign te priv (te_Sum256 te msg) of Inl err \<Rightarrow> Ret (Inl err)
      | Inr der \<Rightarrow> (case te_Asn1 te der of Inl err \<Rightarrow> Ret (Inl err)
          | Inr sig \<Rightarrow> go_bind (fixed_width (octetLength (te_BitSize te priv)) sig) (\<lambda>b. Ret (Inr b)))) = Ret (Inr b)"
    by (auto simp: sign_def)
  from priv(2) obtain der sig where der: "te_Sign te priv (te_Sum256 te msg) = Inr der" "te_Asn1 te der = Inr sig"
    "fixed_width (octetLength (te_BitSize te priv)) sig = Ret b"
    by (auto split: sum.split_asm)
  show ?thesis unfolding Let_def
    by (intro exI[of _ msg] exI[of _ key] exI[of _ block] exI[of _ priv] exI[of _ der] exI[of _ sig]
        exI[of _ "base64 b"] conjI m(1,2,4) block priv(1) der(1,2))
      (simp_all only: base64_roundtrip fixed_width_parts[OF der(3)])
qed

text \<open>A key file without PEM block makes both commands that read it panic, instead of an error.\<close>

lemma key_without_pem_panics:
  assumes "te_ReadFile te keyPath = Inr key" and "te_PemDecode te key = None"
  shows "\<not> HasSuffix keyPath ''.crt'' \<Longrightarrow> panics (keyIDFunc te keyPath)" "panics (signFunc te path keyPath)"
proof -
  show "panics (keyIDFunc te keyPath)" if "\<not> HasSuffix keyPath ''.crt''"
    using assms that by (simp add: keyIDFunc_def loadKey_def)
  show "panics (signFunc te path keyPath)"
    using assms by (cases "loadFile te path True") (simp_all add: signFunc_def loadKey_def sign_def)
qed

text \<open>The standard test vector of Base64, and the leading zeros of a short number.\<close>

lemma base64_example: "base64 ''foobar'' = ''Zm9vYmFy'' \<and> base64 ''foob'' = ''Zm9vYg==''"
  by code_simp

lemma fixed_width_example:
  "fixed_width (octetLength 17) \<lparr>es_R = 258, es_S = -5\<rparr> =
   Ret (map char_of [0, 1, 2, 0, 0, 5 :: nat])"
  by code_simp

end
