(* ===== verification/Spec2Isabelle.thy ===== *)
theory Spec2Isabelle
  imports Startup Testdata_Tool
begin

text \<open>
  Connaisseur is a Kubernetes admission controller: the API server posts every request that creates
  or updates a workload to its webhook, and Connaisseur answers whether the images of the workload
  are trusted, with a JSON patch that pins each image to its verified digest. The development
  models the Go implementation under \<open>src/internal\<close>.

  \<^bold>\<open>The parts and their theories.\<close>

  \<^item> \<open>Go_Prelude\<close>: what Go brings along. Byte strings as \<open>string\<close>; a function that returns an
    error as \<open>string + 'a\<close> (\<open>'a res\<close>); one that may panic as \<open>'a go\<close>, with \<open>go_bind\<close>; a nil-able error as
    \<open>string option\<close>; maps as association lists with \<open>map_put\<close>; the process environment as a
    function.
  \<^item> \<open>Utils\<close> (\<open>utils/strings.go\<close>, \<open>int.go\<close>, \<open>list.go\<close>, \<open>feature.go\<close>, \<open>logging.go\<close>) and \<open>Files\<close>
    (\<open>utils/files.go\<close>): string helpers, feature flags, safe file names.
  \<^item> \<open>Policy\<close> (\<open>policy/*.go\<close>), \<open>Image_Ref\<close> (\<open>image/*.go\<close>), \<open>Validator_Iface\<close>
    (\<open>validator/validator.go\<close>, the static validator), \<open>Config\<close> (\<open>config/config.go\<close>), \<open>Trust_Auth\<close>
    (\<open>validator/auth/*.go\<close>): the policy rules and their order, image references, validators, the
    choice of rule and validator for an image, of trust roots and of registry credentials.
  \<^item> \<open>Caching\<close> (\<open>caching/*.go\<close>) and \<open>Json\<close> (the encoder and decoder of \<open>encoding/json\<close> that the
    cache entries, the templates and the patch go through).
  \<^item> \<open>Workload\<close> (\<open>kubernetes/*.go\<close>): decoding of workload objects, containers by image, the images of
    parents, the objects of an admission request.
  \<^item> \<open>Validation\<close> (\<open>handler/validation/*.go\<close>): the validation of one image, its cache and counters.
  \<^item> \<open>Alerting\<close> (\<open>alert/*.go\<close>): templates, notification channels and the wait for their reports.
  \<^item> \<open>Mutate\<close> (\<open>handler/*.go\<close>): the webhook, the receive loop, the patch, the decision features, the
    admission counters.
  \<^item> \<open>Admission_Run\<close>: the concurrent run of a request, as a step relation over the goroutines of
    \<open>ValidateWorkloadObject\<close>, their channel, the shared cache and counters, the receive loop of
    \<open>mutateReview\<close> and the cancellation of the context.
  \<^item> \<open>Cosign\<close> (\<open>validator/cosignvalidator/*.go\<close>), \<open>Notary_Server\<close> and \<open>NotaryV1\<close>
    (\<open>validator/notaryv1/notaryserver/*.go\<close>, \<open>notaryv1_validator.go\<close>), \<open>Notation\<close>
    (\<open>validator/notation/*.go\<close>): the validators that verify signatures. Values of the sigstore, TUF, x509 and
    registry libraries are opaque and their functions the records \<open>cosign_ext\<close>, \<open>notary_ext\<close> and
    \<open>notation_ext\<close>; the order in which the Cosign goroutines deliver is an argument \<open>sched\<close>, and a
    \<open>schedule\<close> of a Notary download gives the order in which its goroutines end and when the context is
    cancelled: what each of them then sends, and when the receive loop looks at the context, follows the
    two \<open>select\<close> statements of the code, so waiting forever is a result of the model.
  \<^item> \<open>Loaded_Validators\<close>: the validators as the configuration loads them (the \<open>switch\<close> of
    \<open>validator/validator.go\<close>), and what the acceptance of an image by one of them means.
  \<^item> \<open>Auth_Load\<close> (\<open>validator/auth/auth.go\<close>): the credential files of a secret. \<open>Startup\<close>
    (\<open>cmd/connaisseur/main.go\<close>, \<open>config/config.go\<close>, \<open>alert/config.go\<close>, \<open>utils/validation.go\<close>, the client options of
    \<open>caching/redis.go\<close>): loading and checking of the configurations, and the server with the \<open>Runtime\<close> that
    the handlers read. \<open>Testdata_Tool\<close> (\<open>tools/nv1_testdata_creator\<close>): the tool that signs test
    data, with the encoding of its signatures.

  \<^bold>\<open>How state and effects are modelled.\<close> A goroutine that validates an image is one call of
  \<open>ValidateImage\<close> on the cache \<open>'w\<close> and the counters, split in the step relation into the look at the
  cache, the store and the sending, so that other goroutines run in between. Everything that it only
  reads is the record \<open>Runtime\<close>. A run of the receive loop is the sequence of the events that its
  \<open>select\<close> sees. A panic of a goroutine is recorded and followed by the step that ends the
  process, and a validator that waits forever keeps its goroutine where it is. Third-party code is a parameter: the reference parser of go-containerregistry, the
  glob matcher, the Kubernetes decoder and client, the Redis client, the file system and HTTP client
  of the alerts, the signature libraries. What a property needs of them is a named hypothesis or a
  locale: \<open>cache_contract\<close> (interpreted by the empty cache and, through \<open>redis_server\<close>, by the Redis
  cache), \<open>keeps_image\<close> (what soundness needs of a validator, interpreted by all four),
  \<open>validator_method\<close> (what liveness needs besides, that it returns; interpreted by the static validator and,
  through \<open>cosign_run\<close>, \<open>notaryv1_run\<close> and \<open>notation_loaded\<close>, by the others), \<open>best_choice\<close> (the comparison of matches).

  \<^bold>\<open>What the lemmas show.\<close> The main theorem of this theory, \<open>admission_sound\<close>, composes them: an
  admission under any interleaving means that every image was accepted by its validator, or is
  covered by an automatic approval that is switched on; \<open>admission_verified\<close> adds what acceptance means
  for loaded validators, and that the patch pins the container to the verified digest. Below them,
  \<open>Loaded_Validators\<close> shows that the validators implement their interface, and what a Notary v1 validator needs to
  return; \<open>Cosign\<close>, \<open>NotaryV1\<close> and
  \<open>Notation\<close> that they return no digest without a verification under the trust roots of
  the rule, in every order of their goroutines, when they return at all, and where they can be evaded; \<open>Validation\<close> characterises
  exactly when one image is admitted and shows that a sound cache stays sound; \<open>Mutate\<close> relates the
  decision to the events of the loop and the patch to the containers; \<open>Admission_Run\<close> shows by
  rule induction that no interleaving breaks the cache or the counters, that sends never block, and that
  runs end with a decision if the validators return; \<open>Workload\<close>, \<open>Config\<close>, \<open>Policy\<close>, \<open>Trust_Auth\<close>, \<open>Utils\<close>, \<open>Image_Ref\<close>,
  \<open>Auth_Load\<close>, \<open>Files\<close>, \<open>Caching\<close>, \<open>Json\<close> and \<open>Alerting\<close> give the functional correctness of their
  operations on every branch, errors and panics included; \<open>Startup\<close> shows that the runtime which
  main serves has loaded validators and a cache that meet the contracts of the other theorems.

  \<^bold>\<open>Bounds.\<close> All loops are structural recursions or terminate by a measure; only the reference JSON
  parser takes fuel, twice the length of its input plus two; the theorems that use it state the value
  it returns, so the fuel is enough wherever they apply. 64-bit wrap-around is modelled where it can
  be observed, in the conversion of the cache expiry to a duration.

  \<^bold>\<open>Not modelled.\<close> The checks behind struct tags, YAML decoding and the TUF, sigstore, Notation, registry,
  Kubernetes, Redis and HTTP libraries are third-party code and parameters. The mocks under
  \<open>test/testhelper\<close> are no part of the program. The schedule of a validator's goroutines, and the state of the global
  HTTP client that it finds, are functions of the image and the options of the call. A server whose Kubernetes client
  is a nil pointer has no \<open>Runtime\<close>. Log output is left out everywhere.
\<close>

text \<open>
  C2 (safety). The webhook admits only what the policy accepts: whatever the interleaving of the
  goroutines, the state of a sound cache and the moment of a cancellation, if the review of a request
  whose old object is not being deleted is an admission, then every image of the new object, in
  whichever kind of container, has been accepted by the validator that the policy assigns to it, or
  it is covered by an automatic approval that is switched on.
\<close>
theorem admission_sound:
  assumes "cache_contract (rt_Cache rt)" and "validators_ok rt" and "rt_parse rt [] = Inl e"
    and "cache_sound rt w" and "counters_ok m"
    and "NewAdmissionRequestObjects (rt_decode rt) ar = Ret (Inr aro)" and "\<not> wlo_Deleted (aro_OldObj aro)"
    and "reachable rt (init_run rt (aro_NewObj aro) (aro_OldObj aro) w m c) s"
    and "mutateReview rt ar (run_events s) = Ret (Some (resp, nv))" and "ars_Allowed resp"
    and "img \<in> images_of (aro_NewObj aro)"
  shows "policy_accepts rt img \<or> approved rt (aro_NewObj aro) (aro_OldObj aro) img"
proof -
  obtain results nv0 where r: "outputs_of rt (aro_NewObj aro) (aro_OldObj aro) results"
    "list_all (genuine rt s) results" "list_all no_error results"
    and jobs: "map fst (run_jobs s) = ValidateWorkloadObject rt (aro_NewObj aro) (aro_OldObj aro)"
    using admission_results[OF assms(1,2,4-10)] by metis
  obtain out where "out \<in> set results" "out_RawImage out = img"
    using assms(11) outputs_of_raw_images(2)[OF r(1)] by (metis imageE)
  with r genuine_accepted[OF _ _ jobs assms(2,3)] show ?thesis by (auto simp: list_all_iff)
qed

theorem admission_sound_witness:
  "policy_accepts allow_runtime ''img'' \<or>
   approved allow_runtime (aro_NewObj create_objects) (aro_OldObj create_objects) ''img''"
proof -
  obtain s resp nv where r: "reachable allow_runtime create_init s" "ars_Allowed resp"
    "mutateReview allow_runtime create_request (run_events s) = Ret (Some (resp, nv))" by (rule create_review)
  have "''img'' \<in> images_of (aro_NewObj create_objects)"
    by (simp add: images_of_def create_objects_def empty_workload_def)
  from admission_sound[OF allow_ok(1,2,4,3,5) create_objects_decoded r(1,3,2) this] show ?thesis .
qed

text \<open>
  C1 (safety). What is deployed is what was verified: with loaded validators whose goroutines each run once, in any
  order, if the review of a request whose old object is not being deleted is an admission, then for every
  container of the new object whose image is not approved by an automatic approval, the validator of the policy verified a digest for
  its image (a static allow, signatures of the trust roots by Cosign, valid trust data of Notary, a
  verification by Notation), and whatever the patch writes to this container is the name of the image under that digest
  (up to the replacement of invalid bytes when the digest comes from the cache).
\<close>
theorem admission_verified:
  assumes "cache_contract (rt_Cache rt)" and "config_loaded lib rt" and "orderly lib" and "rt_parse rt [] = Inl e"
    and "cache_sound rt w" and "counters_ok m"
    and "NewAdmissionRequestObjects (rt_decode rt) ar = Ret (Inr aro)" and "\<not> wlo_Deleted (aro_OldObj aro)"
    and "reachable rt (init_run rt (aro_NewObj aro) (aro_OldObj aro) w m c) s"
    and "mutateReview rt ar (run_events s) = Ret (Some (resp, nv))" and "ars_Allowed resp"
    and "image_at (aro_NewObj aro) p = Some s_img" and "\<not> approved rt (aro_NewObj aro) (aro_OldObj aro) s_img"
  shows "\<exists>results img rule y v d.
    ars_Patch resp = (let ops = concat (map (output_ops (aro_NewObj aro)) results)
      in if ops = [] then None
         else Some (''['' @ Join '','' (map (\<lambda>(path, v). format_patch path v) ops) @ '']'')) \<and>
    resolved rt s_img img rule v \<and> loaded lib y v \<and> verified_by lib y v img (rule_With rule) d \<and>
    (\<forall>new. (ContainerPathFormatString (aro_NewObj aro) (idx_Type p) (idx_Index p), new) \<in>
        set (concat (map (output_ops (aro_NewObj aro)) results)) \<longrightarrow>
      new \<in> {Name (SetDigest img d), Name (SetDigest img (sanitize (Digest (SetDigest img d))))})"
proof -
  obtain results nv0 where resp: "resp = fst (admit_response (aro_NewObj aro) (ar_UID ar) results nv0)"
    and r: "outputs_of rt (aro_NewObj aro) (aro_OldObj aro) results" "list_all (genuine rt s) results"
      "list_all no_error results"
    and jobs: "map fst (run_jobs s) = ValidateWorkloadObject rt (aro_NewObj aro) (aro_OldObj aro)"
    using admission_results[OF assms(1) config_loaded_ok[OF assms(2)] assms(5-11)] by metis
  let ?path = "ContainerPathFormatString (aro_NewObj aro) (idx_Type p) (idx_Index p)"
  obtain out where out: "out \<in> set results" "out_RawImage out = s_img"
    and ops: "{v. (?path, v) \<in> set (concat (map (output_ops (aro_NewObj aro)) results))} =
      (if out_ValidationMode out = MutateMode \<and> out_NewImage out \<noteq> out_OldImage out then {out_NewImage out} else {})"
    using container_ops[OF r(1) assms(12)] by blast
  have ok: "genuine rt s out" "no_error out" using r(2,3) out(1) by (auto simp: list_all_iff)
  obtain img rule y v d where v: "resolved rt s_img img rule v" "loaded lib y v"
    "verified_by lib y v img (rule_With rule) d"
    "out_NewImage out \<in> {Name (SetDigest img d), Name (SetDigest img (sanitize (Digest (SetDigest img d))))}"
    using genuine_verified[OF assms(2-4) ok jobs] assms(13) out(2) by blast
  have "new \<in> {Name (SetDigest img d), Name (SetDigest img (sanitize (Digest (SetDigest img d))))}"
    if "(?path, new) \<in> set (concat (map (output_ops (aro_NewObj aro)) results))" for new
  proof -
    have "new = out_NewImage out" using that ops by (auto split: if_split_asm)
    with v(4) show ?thesis by simp
  qed
  with v(1-3) show ?thesis unfolding resp
    by (intro exI[of _ results] exI[of _ img] exI[of _ rule] exI[of _ y] exI[of _ v] exI[of _ d] conjI
        admit_response_patch allI impI)
qed

theorem admission_verified_witness:
  "\<exists>img rule y v d. resolved cosign_runtime ''img'' img rule v \<and> v_Type v = CosignValidatorType \<and>
     loaded example_lib y v \<and> verified_by example_lib y v img (rule_With rule) d"
proof -
  obtain s resp nv where r: "reachable cosign_runtime (create_run_with cosign_runtime) s" "ars_Allowed resp"
    "mutateReview cosign_runtime create_request (run_events s) = Ret (Some (resp, nv))"
    by (rule example_review[OF cosign_accepts])
  have sound: "cache_sound cosign_runtime (0, [])" "counters_ok (\<lambda>c. 0)"
    by (rule example_cache_sound) (rule allow_ok)
  have i: "image_at (aro_NewObj create_objects) \<lparr>idx_Index = 0, idx_Type = ''containers''\<rparr> = Some ''img''" by code_simp
  from admission_verified[OF example_cache_contract cosign_config_loaded example_orderly example_parse_empty sound
      example_decoded r(1,3,2) i create_not_approved]
  obtain img rule y v d where v: "resolved cosign_runtime ''img'' img rule v" "loaded example_lib y v"
    "verified_by example_lib y v img (rule_With rule) d" by blast
  from resolved_validator[OF v(1)] have "v = cosign_one_root" by (simp add: example_runtime_def)
  then have "v_Type v = CosignValidatorType" by (simp add: cosign_one_root_def)
  with v show ?thesis by blast
qed

end
